(* ===== verification/Prelude.thy ===== *)
theory Prelude
  imports Main "HOL-Library.Sublist" "HOL-Library.Multiset"
begin

text \<open>
  What every component shares.

  An \<open>async\<close> function of the program is a \<open>prog\<close>: it returns (\<open>Done\<close>), throws
  (\<open>Fail\<close>), or performs one atomic action on the world and goes on (\<open>Act\<close>). Each
  \<open>await\<close> of the code is an action, so one definition of a handler has two meanings:
  \<open>run\<close> executes it alone, and \<open>pool_step\<close> interleaves any number of them at
  their actions, as the event loop does. The section on \<open>safe\<close> is the rule that lifts a
  property of the single actions to every interleaving.
\<close>

named_theorems run_simps \<open>how a program of the development runs alone\<close>
named_theorems safe_rules \<open>which programs keep an invariant under interleaving\<close>

section \<open>Programs\<close>

datatype (dead 'w, 'e, 'a) prog =
    Done 'a
  | Fail 'e
  | Act "'w \<Rightarrow> 'w" "'w \<Rightarrow> ('w, 'e, 'a) prog"

text \<open>\<open>await m\<close> followed by the rest of the function.\<close>

primrec seq :: "('w, 'e, 'a) prog \<Rightarrow> ('a \<Rightarrow> ('w, 'e, 'b) prog) \<Rightarrow> ('w, 'e, 'b) prog" where
  "seq (Done x) f = f x"
| "seq (Fail e) f = Fail e"
| "seq (Act g k) f = Act g (\<lambda>w. seq (k w) f)"

text \<open>\<open>try m catch (e) h e\<close>.\<close>

primrec catch :: "('w, 'e, 'a) prog \<Rightarrow> ('e \<Rightarrow> ('w, 'f, 'a) prog) \<Rightarrow> ('w, 'f, 'a) prog" where
  "catch (Done x) h = Done x"
| "catch (Fail e) h = h e"
| "catch (Act g k) h = Act g (\<lambda>w. catch (k w) h)"

text \<open>One atomic action that may throw; what it did to the world stays done.\<close>

definition act :: "('w \<Rightarrow> ('e + 'a) \<times> 'w) \<Rightarrow> ('w, 'e, 'a) prog" where
  "act f = Act (\<lambda>w. snd (f w))
     (\<lambda>w. case fst (f w) of Inl e \<Rightarrow> Fail e | Inr x \<Rightarrow> Done x)"

section \<open>Running a program alone\<close>

primrec run :: "('w, 'e, 'a) prog \<Rightarrow> 'w \<Rightarrow> ('e + 'a) \<times> 'w" where
  "run (Done x) = (\<lambda>w. (Inr x, w))"
| "run (Fail e) = (\<lambda>w. (Inl e, w))"
| "run (Act g k) = (\<lambda>w. run (k w) (g w))"

lemma run_act [run_simps]: "run (act f) w = f w"
  by (cases "f w"; cases "fst (f w)") (auto simp: act_def)

lemma run_seq [run_simps]:
  "run (seq m f) w =
    (case run m w of (Inl e, w') \<Rightarrow> (Inl e, w') | (Inr x, w') \<Rightarrow> run (f x) w')"
  by (induction m arbitrary: w) auto

lemma run_catch [run_simps]:
  "run (catch m h) w =
    (case run m w of (Inl e, w') \<Rightarrow> run (h e) w' | (Inr x, w') \<Rightarrow> (Inr x, w'))"
  by (induction m arbitrary: w) auto

lemmas run_basic [run_simps] = run.simps(1,2)

lemma seq_assoc: "seq (seq m f) g = seq m (\<lambda>x. seq (f x) g)"
  by (induction m) auto

lemma seq_Done: "seq m Done = m"
  by (induction m) auto

lemma seq_act_run:
  "run (seq (act f) g) w =
    (case f w of (Inl e, w') \<Rightarrow> (Inl e, w') | (Inr x, w') \<Rightarrow> run (g x) w')"
  by (simp add: run_seq run_act)

section \<open>Interleaving\<close>

text \<open>
  A pool of activities, sharing one world; an activity that has not done its first action has
  not begun. A step runs one action of one of them.
\<close>

inductive pool_step ::
    "'w \<times> ('w, 'e, 'a) prog list \<Rightarrow> 'w \<times> ('w, 'e, 'a) prog list \<Rightarrow> bool" where
  action: "i < length ps \<Longrightarrow> ps ! i = Act g k \<Longrightarrow> pool_step (w, ps) (g w, ps[i := k w])"

inductive_cases pool_stepE: "pool_step (w, ps) (w', ps')"

text \<open>The same for a given schedule, as a function: entry \<open>i\<close> lets activity \<open>i\<close> do one action.\<close>

fun run_schedule ::
    "nat list \<Rightarrow> 'w \<times> ('w, 'e, 'a) prog list \<Rightarrow> 'w \<times> ('w, 'e, 'a) prog list" where
  "run_schedule [] c = c"
| "run_schedule (i # is) (w, ps) =
     (if i < length ps
      then (case ps ! i of
              Act g k \<Rightarrow> run_schedule is (g w, ps[i := k w])
            | _ \<Rightarrow> run_schedule is (w, ps))
      else run_schedule is (w, ps))"

lemma run_schedule_pool: "pool_step\<^sup>*\<^sup>* c (run_schedule is c)"
proof (induction "is" c rule: run_schedule.induct)
  case (1 c)
  then show ?case by simp
next
  case (2 i "is" w ps)
  show ?case
  proof (cases "i < length ps \<and> (\<exists>g k. ps ! i = Act g k)")
    case True
    then obtain g k where i: "i < length ps" and p: "ps ! i = Act g k" by auto
    from i p have "pool_step (w, ps) (g w, ps[i := k w])" by (rule pool_step.action)
    moreover from "2.IH"(3) i p
    have "pool_step\<^sup>*\<^sup>* (g w, ps[i := k w]) (run_schedule is (g w, ps[i := k w]))" by simp
    ultimately show ?thesis using i p by (simp add: converse_rtranclp_into_rtranclp)
  next
    case False
    with "2.IH" show ?thesis by (auto split: prog.splits)
  qed
qed

lemma run_schedule_append: "run_schedule (s @ s') c = run_schedule s' (run_schedule s c)"
  by (induction s c rule: run_schedule.induct) (auto split: prog.split)

lemma run_schedule_to_end:
  "i < length ps \<Longrightarrow> ps ! i = p \<Longrightarrow> run p w = (Inr x, w') \<Longrightarrow>
    \<exists>n. run_schedule (replicate n i) (w, ps) = (w', ps[i := Done x])"
proof (induction p arbitrary: w ps)
  case (Done y)
  then show ?case using list_update_id [of ps i] by (intro exI [of _ 0]) auto
next
  case (Act g k)
  from Act.prems(3) have "run (k w) (g w) = (Inr x, w')" by simp
  with Act.prems(1) Act.IH [of "k w" "ps[i := k w]" "g w"]
  obtain n where "run_schedule (replicate n i) (g w, ps[i := k w]) = (w', ps[i := Done x])" by auto
  with Act.prems(1,2) show ?case by (intro exI [of _ "Suc n"]) simp
qed simp

section \<open>Invariants under interleaving\<close>

text \<open>
  \<open>safe I G Q E w p\<close>: started in \<open>w\<close>, the program \<open>p\<close> keeps the invariant \<open>I\<close> and
  only makes changes in \<open>G\<close>, whatever other activities do between its actions as long as
  they do the same; if it returns, \<open>Q\<close> holds of the result, and if it throws, \<open>E\<close> holds of
  the error. \<open>G\<close> is both what is relied on and what is guaranteed.
\<close>

inductive safe :: "('w \<Rightarrow> bool) \<Rightarrow> ('w \<Rightarrow> 'w \<Rightarrow> bool) \<Rightarrow> ('a \<Rightarrow> 'w \<Rightarrow> bool) \<Rightarrow> ('e \<Rightarrow> 'w \<Rightarrow> bool) \<Rightarrow>
    'w \<Rightarrow> ('w, 'e, 'a) prog \<Rightarrow> bool"
  for I G Q E where
  returns: "Q x w \<Longrightarrow> safe I G Q E w (Done x)"
| throws: "E e w \<Longrightarrow> safe I G Q E w (Fail e)"
| acts: "(\<And>w'. G w w' \<Longrightarrow> I w' \<Longrightarrow> I (g w') \<and> G w' (g w')) \<Longrightarrow>
    (\<And>w'. G w w' \<Longrightarrow> I w' \<Longrightarrow> safe I G Q E (g w') (k w')) \<Longrightarrow> safe I G Q E w (Act g k)"

inductive_cases safe_DoneE: "safe I G Q E w (Done x)"
inductive_cases safe_FailE: "safe I G Q E w (Fail e)"
inductive_cases safe_ActE: "safe I G Q E w (Act g k)"
inductive_simps safe_simps: "safe I G Q E w (Done x)" "safe I G Q E w (Fail e)"

lemma safe_Done [safe_rules]: "Q x w \<Longrightarrow> safe I G Q E w (Done x)"
  by (rule safe.returns)

lemma safe_Fail [safe_rules]: "E e w \<Longrightarrow> safe I G Q E w (Fail e)"
  by (rule safe.throws)

lemma safe_act:
  assumes "\<And>w' r w''. G w w' \<Longrightarrow> I w' \<Longrightarrow> f w' = (r, w'') \<Longrightarrow>
      I w'' \<and> G w' w'' \<and> (case r of Inl e \<Rightarrow> E e w'' | Inr x \<Rightarrow> Q x w'')"
  shows "safe I G Q E w (act f)"
  unfolding act_def
proof (rule safe.acts)
  fix w' assume w': "G w w'" "I w'"
  obtain r w'' where f: "f w' = (r, w'')" by (cases "f w'") auto
  from assms [OF w' f] f show "I (snd (f w')) \<and> G w' (snd (f w'))" by simp
  from assms [OF w' f] f
  show "safe I G Q E (snd (f w')) (case fst (f w') of Inl e \<Rightarrow> Fail e | Inr x \<Rightarrow> Done x)"
    by (cases r) (auto simp: safe_simps)
qed

text \<open>The rules below need the changes in \<open>G\<close> to compose.\<close>

locale rely =
  fixes I :: "'w \<Rightarrow> bool" and G :: "'w \<Rightarrow> 'w \<Rightarrow> bool"
  assumes G_refl: "G w w"
    and G_trans: "G w w' \<Longrightarrow> G w' w'' \<Longrightarrow> G w w''"
begin

lemma safe_later:
  assumes "safe I G Q E w p" "G w w'"
    and "\<And>x. Q x w \<Longrightarrow> Q x w'" and "\<And>e. E e w \<Longrightarrow> E e w'"
  shows "safe I G Q E w' p"
  using assms(1)
proof cases
  case (returns x)
  with assms show ?thesis by (auto intro: safe.returns)
next
  case (throws e)
  with assms show ?thesis by (auto intro: safe.throws)
next
  case (acts g k)
  show ?thesis unfolding acts(1)
  proof (rule safe.acts)
    fix v assume "G w' v" "I v"
    from G_trans [OF assms(2) this(1)] this(2)
    show "I (g v) \<and> G v (g v)" and "safe I G Q E (g v) (k v)"
      using acts(2,3) by simp_all
  qed
qed

lemma safe_seq:
  assumes "safe I G Q' E w m"
    and "\<And>x w'. G w w' \<Longrightarrow> Q' x w' \<Longrightarrow> safe I G Q E w' (f x)"
  shows "safe I G Q E w (seq m f)"
  using assms
proof (induction rule: safe.induct)
  case (returns x w)
  then show ?case by (simp add: G_refl)
next
  case (throws e w)
  then show ?case by (simp add: safe.throws)
next
  case (acts w g k)
  show ?case unfolding seq.simps
  proof (rule safe.acts)
    fix v assume v: "G w v" "I v"
    from acts.hyps(1) [OF v] show "I (g v) \<and> G v (g v)" .
    then have "G w (g v)" using v(1) G_trans by blast
    then show "safe I G Q E (g v) (seq (k v) f)"
      using acts.IH [OF v] acts.prems G_trans by blast
  qed
qed

lemma safe_catch:
  assumes "safe I G Q E' w m"
    and "\<And>e w'. G w w' \<Longrightarrow> E' e w' \<Longrightarrow> safe I G Q E w' (h e)"
  shows "safe I G Q E w (catch m h)"
  using assms
proof (induction rule: safe.induct)
  case (returns x w)
  then show ?case by (simp add: safe.returns)
next
  case (throws e w)
  then show ?case by (simp add: G_refl)
next
  case (acts w g k)
  show ?case unfolding catch.simps
  proof (rule safe.acts)
    fix v assume v: "G w v" "I v"
    from acts.hyps(1) [OF v] show "I (g v) \<and> G v (g v)" .
    then have "G w (g v)" using v(1) G_trans by blast
    then show "safe I G Q E (g v) (catch (k v) h)"
      using acts.IH [OF v] acts.prems G_trans by blast
  qed
qed

lemma safe_weaken:
  assumes "safe I G Q' E' w p"
    and "\<And>x w'. Q' x w' \<Longrightarrow> Q x w'" and "\<And>e w'. E' e w' \<Longrightarrow> E e w'"
  shows "safe I G Q E w p"
  using assms
proof (induction rule: safe.induct)
  case (acts w g k)
  then show ?case by (intro safe.acts) auto
qed (auto intro: safe.intros)

text \<open>Run alone, a safe program keeps the invariant and delivers its post-condition.\<close>

lemma safe_run:
  assumes "safe I G Q E w p" "I w" "run p w = (r, w')"
  shows "I w' \<and> G w w' \<and> (case r of Inl e \<Rightarrow> E e w' | Inr x \<Rightarrow> Q x w')"
  using assms
proof (induction arbitrary: r w' rule: safe.induct)
  case (acts w g k)
  from acts.hyps(1) [OF G_refl acts.prems(1)] have g: "I (g w)" "G w (g w)" by auto
  from acts.prems(2) have "run (k w) (g w) = (r, w')" by simp
  from acts.IH [OF G_refl acts.prems(1) g(1) this] g(2) show ?case
    using G_trans by blast
qed (auto simp: G_refl)

text \<open>
  The interleaving theorem: if every activity of the pool is safe, then whatever the schedule
  the invariant holds throughout, only changes in \<open>G\<close> are made, and the activities stay safe.
\<close>

abbreviation "safe_in w p \<equiv> safe I G (\<lambda>_ _. True) (\<lambda>_ _. True) w p"

lemma safe_weaken_True: "safe I G Q E w p \<Longrightarrow> safe_in w p"
  by (erule safe_weaken) auto

lemma pool_step_safe:
  assumes "pool_step (w, ps) (w', ps')" "I w" "\<forall>i < length ps. safe I G (Q i) (E i) w (ps ! i)"
    and Q: "\<And>i x w w'. G w w' \<Longrightarrow> Q i x w \<Longrightarrow> Q i x w'" and E: "\<And>i e w w'. G w w' \<Longrightarrow> E i e w \<Longrightarrow> E i e w'"
  shows "I w' \<and> G w w' \<and> length ps' = length ps \<and> (\<forall>i < length ps. safe I G (Q i) (E i) w' (ps' ! i))"
  using assms(1)
proof (rule pool_stepE)
  fix i g k
  assume i: "i < length ps" "ps ! i = Act g k" and w': "w' = g w" and ps': "ps' = ps[i := k w]"
  from i assms(3) have "safe I G (Q i) (E i) w (Act g k)" by metis
  then have step: "I (g w)" "G w (g w)" "safe I G (Q i) (E i) (g w) (k w)"
    using assms(2) G_refl by (blast elim: safe_ActE)+
  have "safe I G (Q j) (E j) (g w) (ps' ! j)" if j: "j < length ps" for j
  proof (cases "j = i")
    case True
    with step(3) i ps' show ?thesis by simp
  next
    case False
    from j assms(3) have "safe I G (Q j) (E j) w (ps ! j)" by blast
    then have "safe I G (Q j) (E j) (g w) (ps ! j)"
      using step(2) by (rule safe_later) (erule Q [OF step(2)] E [OF step(2)])+
    with False ps' show ?thesis by simp
  qed
  with step w' ps' show ?thesis by simp
qed

lemma pool_steps_safe:
  assumes "pool_step\<^sup>*\<^sup>* c c'" "I (fst c)"
    "\<forall>i < length (snd c). safe I G (Q i) (E i) (fst c) (snd c ! i)"
    and Q: "\<And>i x w w'. G w w' \<Longrightarrow> Q i x w \<Longrightarrow> Q i x w'" and E: "\<And>i e w w'. G w w' \<Longrightarrow> E i e w \<Longrightarrow> E i e w'"
  shows "I (fst c') \<and> G (fst c) (fst c') \<and> length (snd c') = length (snd c)
    \<and> (\<forall>i < length (snd c'). safe I G (Q i) (E i) (fst c') (snd c' ! i))"
  using assms(1-3)
proof (induction rule: rtranclp_induct)
  case base
  then show ?case by (simp add: G_refl)
next
  case (step c' c'')
  then have IH: "I (fst c')" "G (fst c) (fst c')" "length (snd c') = length (snd c)"
    "\<forall>i < length (snd c'). safe I G (Q i) (E i) (fst c') (snd c' ! i)" by auto
  from step.hyps(2) have "pool_step (fst c', snd c') (fst c'', snd c'')" by simp
  from pool_step_safe [OF this IH(1,4) Q E] IH(2,3) G_trans [OF IH(2)] show ?case by simp
qed

end

end
