(* ===== verification/JsString.thy ===== *)
theory JsString
  imports Prelude
begin

text \<open>
  The string functions of the language that the program uses, on ASCII strings: the decimal
  form of a number in a template literal, zero padding (inside \<open>toISOString\<close>),
  \<open>parseInt\<close>, \<open>slice(0, n)\<close> (which is \<open>take n\<close>), the first part of \<open>split\<close> at a
  character, and lower case. Round trips between printing and reading are proved here once.
\<close>

section \<open>Digits\<close>

definition digit_char :: "int \<Rightarrow> char" where
  "digit_char n = char_of (48 + n)"

definition digit_in :: "int \<Rightarrow> char \<Rightarrow> int option" where
  "digit_in r c =
     (let n = of_char c;
          v = (if 48 \<le> n \<and> n \<le> 57 then n - 48
               else if 97 \<le> n \<and> n \<le> 122 then n - 87
               else if 65 \<le> n \<and> n \<le> 90 then n - 55 else 36)
      in if v < r then Some v else None)"

fun digit_prefix :: "int \<Rightarrow> string \<Rightarrow> int list" where
  "digit_prefix r [] = []"
| "digit_prefix r (c # cs) =
     (case digit_in r c of None \<Rightarrow> [] | Some v \<Rightarrow> v # digit_prefix r cs)"

definition digits_val :: "int \<Rightarrow> int list \<Rightarrow> int" where
  "digits_val r vs = foldl (\<lambda>a v. a * r + v) 0 vs"

abbreviation is_digit :: "int \<Rightarrow> bool" where
  "is_digit d \<equiv> 0 \<le> d \<and> d < 10"

lemma of_char_digit [simp]: "is_digit n \<Longrightarrow> (of_char (digit_char n) :: int) = 48 + n"
  by (simp add: digit_char_def)

lemma digit_in_digit [simp]: "is_digit n \<Longrightarrow> 10 \<le> r \<Longrightarrow> digit_in r (digit_char n) = Some n"
  by (simp add: digit_in_def)

lemma digit_prefix_digits:
  assumes "\<forall>d \<in> set ds. is_digit d" "10 \<le> r"
  shows "digit_prefix r (map digit_char ds @ rest) = ds @ digit_prefix r rest"
  using assms by (induction ds) auto

lemma digits_val_snoc [simp]: "digits_val r (ds @ [d]) = digits_val r ds * r + d"
  by (simp add: digits_val_def)

lemma digits_val_Nil [simp]: "digits_val r [] = 0"
  by (simp add: digits_val_def)

section \<open>Numbers to strings\<close>

function int_digits :: "int \<Rightarrow> int list" where
  "int_digits n = (if n < 10 then [n] else int_digits (n div 10) @ [n mod 10])"
  by pat_completeness auto
termination
  by (relation "measure nat") auto

declare int_digits.simps [simp del]

definition show_int :: "int \<Rightarrow> string" where
  "show_int n = (if n < 0 then CHR ''-'' # map digit_char (int_digits (- n))
     else map digit_char (int_digits n))"

primrec pad_digits :: "nat \<Rightarrow> int \<Rightarrow> int list" where
  "pad_digits 0 n = []"
| "pad_digits (Suc k) n = pad_digits k (n div 10) @ [n mod 10]"

definition pad :: "nat \<Rightarrow> int \<Rightarrow> string" where
  "pad k n = map digit_char (pad_digits k n)"

lemma int_digits_small: "0 \<le> n \<Longrightarrow> \<forall>d \<in> set (int_digits n). is_digit d"
proof (induction n rule: int_digits.induct)
  case (1 n)
  show ?case
  proof (cases "n < 10")
    case True
    with "1.prems" show ?thesis by (subst int_digits.simps) simp
  next
    case False
    then have "0 \<le> n div 10" by simp
    from "1.IH" [OF False this] False show ?thesis by (subst int_digits.simps) auto
  qed
qed

lemma int_digits_val: "digits_val 10 (int_digits n) = n"
proof (induction n rule: int_digits.induct)
  case (1 n)
  then show ?case by (subst int_digits.simps) (simp add: digits_val_def)
qed

lemma int_digits_nonempty: "int_digits n \<noteq> []"
  by (subst int_digits.simps) simp

lemma pad_digits_small: "\<forall>d \<in> set (pad_digits k n). is_digit d"
  by (induction k arbitrary: n) auto

lemma pad_digits_val: "0 \<le> n \<Longrightarrow> n < 10 ^ k \<Longrightarrow> digits_val 10 (pad_digits k n) = n"
proof (induction k arbitrary: n)
  case (Suc k)
  then have "n div 10 < 10 ^ k" by (simp add: div_less_iff_less_mult mult.commute)
  with Suc show ?case by simp
qed simp

lemma length_pad_digits [simp]: "length (pad_digits k n) = k"
  by (induction k arbitrary: n) auto

lemma length_pad [simp]: "length (pad k n) = k"
  by (simp add: pad_def)

section \<open>\<open>parseInt\<close>\<close>

definition is_js_space :: "char \<Rightarrow> bool" where
  "is_js_space c = (of_char c \<in> {9 :: int, 10, 11, 12, 13, 32, 160})"

definition parse_int :: "string \<Rightarrow> int option" where
  "parse_int s =
     (let s1 = dropWhile is_js_space s;
          neg = (take 1 s1 = ''-'');
          s2 = (if take 1 s1 = ''-'' \<or> take 1 s1 = ''+'' then drop 1 s1 else s1);
          hex = (take 2 s2 = ''0x'' \<or> take 2 s2 = ''0X'');
          r = (if hex then 16 else 10);
          vs = digit_prefix r (if hex then drop 2 s2 else s2)
      in if vs = [] then None
         else Some ((if neg then - 1 else 1) * digits_val r vs))"

lemma not_space_digit [simp]: "is_digit n \<Longrightarrow> \<not> is_js_space (digit_char n)"
  by (auto simp: is_js_space_def)

lemma digit_char_neq:
  assumes "is_digit n"
  shows "digit_char n \<noteq> CHR ''-''" "digit_char n \<noteq> CHR ''+''" "digit_char n \<noteq> CHR ''x''"
    "digit_char n \<noteq> CHR ''X''" "digit_char n \<noteq> CHR ''T''" "digit_char n \<noteq> CHR '':''"
proof -
  have "of_char c \<noteq> 48 + n \<Longrightarrow> digit_char n \<noteq> c" for c
    using assms of_char_digit by metis
  with assms show "digit_char n \<noteq> CHR ''-''" "digit_char n \<noteq> CHR ''+''"
    "digit_char n \<noteq> CHR ''x''" "digit_char n \<noteq> CHR ''X''" "digit_char n \<noteq> CHR ''T''"
    "digit_char n \<noteq> CHR '':''" by simp_all
qed

lemma int_digits_head:
  assumes "0 \<le> n"
  obtains d ds where "int_digits n = d # ds" "is_digit d" "\<forall>x \<in> set ds. is_digit x"
  using int_digits_nonempty [of n] int_digits_small [OF assms] by (cases "int_digits n") auto

lemma not_hex_digits:
  "\<forall>x \<in> set ds. is_digit x \<Longrightarrow> take 2 (map digit_char ds) \<noteq> ''0x'' \<and> take 2 (map digit_char ds) \<noteq> ''0X''"
  by (cases ds; cases "tl ds") (auto simp: digit_char_neq)

lemma parse_int_show: "parse_int (show_int n) = Some n"
proof -
  have abs: "0 \<le> \<bar>n\<bar>" by simp
  obtain d ds where d: "int_digits \<bar>n\<bar> = d # ds" "is_digit d" "\<forall>x \<in> set ds. is_digit x"
    by (rule int_digits_head [OF abs])
  have val: "digits_val 10 (d # ds) = \<bar>n\<bar>" using int_digits_val [of "\<bar>n\<bar>"] d(1) by simp
  have hex: "take 2 (map digit_char (d # ds)) \<noteq> ''0x''" "take 2 (map digit_char (d # ds)) \<noteq> ''0X''"
    using not_hex_digits [of "d # ds"] d by auto
  have pre: "digit_prefix 10 (map digit_char (d # ds)) = d # ds"
    using digit_prefix_digits [of "d # ds" 10 "[]"] d by simp
  show ?thesis
  proof (cases "n < 0")
    case True
    then have s: "show_int n = CHR ''-'' # map digit_char (d # ds)"
      using d(1) by (simp add: show_int_def)
    have "\<not> is_js_space CHR ''-''" by (simp add: is_js_space_def)
    with True show ?thesis unfolding s parse_int_def Let_def
      using hex pre val d(2) by (auto simp: digit_char_neq)
  next
    case False
    then have s: "show_int n = map digit_char (d # ds)"
      using d(1) by (simp add: show_int_def)
    from False show ?thesis unfolding s parse_int_def Let_def
      using hex pre val d(2) by (auto simp: digit_char_neq)
  qed
qed

lemma show_int_inject: "show_int m = show_int n \<longleftrightarrow> m = n"
  using parse_int_show by (metis option.inject)

section \<open>Splitting and case\<close>

text \<open>\<open>s.split(c)[0]\<close> for a one-character separator.\<close>

definition split_first :: "char \<Rightarrow> string \<Rightarrow> string" where
  "split_first c s = takeWhile (\<lambda>x. x \<noteq> c) s"

definition is_upper :: "char \<Rightarrow> bool" where
  "is_upper c = (65 \<le> (of_char c :: int) \<and> (of_char c :: int) \<le> 90)"

definition lower_char :: "char \<Rightarrow> char" where
  "lower_char c = (if is_upper c then char_of ((of_char c :: int) + 32) else c)"

definition to_lower :: "string \<Rightarrow> string" where
  "to_lower s = map lower_char s"

end
