(* ===== verification/JsDate.thy ===== *)
theory JsDate
  imports Prelude
begin

text \<open>
  The part of the language's \<open>Date\<close> the program uses. A \<open>Date\<close> is its time value, the
  milliseconds since 1970-01-01T00:00Z (an \<open>int\<close>); the time zone of the process is a fixed
  offset \<open>tz\<close> in milliseconds, so zones with daylight saving are outside the model. Years,
  months (\<open>0..11\<close>) and days follow the language's own formulas (\<open>DayFromYear\<close>,
  \<open>MakeDay\<close>); \<open>setMonth\<close> and \<open>setFullYear\<close> let the day of the month overflow into
  the next month, as the language does. \<open>toISOString\<close> and the reading of
  \<open>YYYY-MM-DD\<close> as a day are here too.
\<close>

section \<open>Days, years, months\<close>

definition ms_per_day :: int where
  "ms_per_day = 86400000"

definition day_of :: "int \<Rightarrow> int" where
  "day_of t = t div ms_per_day"

definition time_within_day :: "int \<Rightarrow> int" where
  "time_within_day t = t mod ms_per_day"

definition leap :: "int \<Rightarrow> bool" where
  "leap y \<longleftrightarrow> y mod 4 = 0 \<and> (y mod 100 \<noteq> 0 \<or> y mod 400 = 0)"

definition day_from_year :: "int \<Rightarrow> int" where
  "day_from_year y =
     365 * (y - 1970) + (y - 1969) div 4 - (y - 1901) div 100 + (y - 1601) div 400"

definition year_from_day :: "int \<Rightarrow> int" where
  "year_from_day d =
     (let y = 1970 + (400 * d) div 146097
      in if d < day_from_year y then y - 1
         else if day_from_year (y + 1) \<le> d then y + 1 else y)"

definition month_start :: "bool \<Rightarrow> int \<Rightarrow> int" where
  "month_start lp m =
     (if m = 0 then 0 else if m = 1 then 31 else
       (if m = 2 then 59 else if m = 3 then 90 else if m = 4 then 120 else if m = 5 then 151
        else if m = 6 then 181 else if m = 7 then 212 else if m = 8 then 243
        else if m = 9 then 273 else if m = 10 then 304 else 334) + (if lp then 1 else 0))"

definition month_in_year :: "bool \<Rightarrow> int \<Rightarrow> int" where
  "month_in_year lp dd =
     (if dd < month_start lp 1 then 0 else if dd < month_start lp 2 then 1
      else if dd < month_start lp 3 then 2 else if dd < month_start lp 4 then 3
      else if dd < month_start lp 5 then 4 else if dd < month_start lp 6 then 5
      else if dd < month_start lp 7 then 6 else if dd < month_start lp 8 then 7
      else if dd < month_start lp 9 then 8 else if dd < month_start lp 10 then 9
      else if dd < month_start lp 11 then 10 else 11)"

definition month_from_day :: "int \<Rightarrow> int" where
  "month_from_day d =
     (let y = year_from_day d in month_in_year (leap y) (d - day_from_year y))"

definition date_from_day :: "int \<Rightarrow> int" where
  "date_from_day d =
     (let y = year_from_day d
      in d - day_from_year y - month_start (leap y) (month_from_day d) + 1)"

definition make_day :: "int \<Rightarrow> int \<Rightarrow> int \<Rightarrow> int" where
  "make_day y m dt =
     (let ym = y + m div 12
      in day_from_year ym + month_start (leap ym) (m mod 12) + dt - 1)"

definition days_in_month :: "int \<Rightarrow> int \<Rightarrow> int" where
  "days_in_month y m =
     (if m = 1 then (if leap y then 29 else 28)
      else if m = 3 \<or> m = 5 \<or> m = 8 \<or> m = 10 then 30 else 31)"

section \<open>The setters\<close>

definition get_full_year :: "int \<Rightarrow> int \<Rightarrow> int" where
  "get_full_year tz t = year_from_day (day_of (t + tz))"

definition get_month :: "int \<Rightarrow> int \<Rightarrow> int" where
  "get_month tz t = month_from_day (day_of (t + tz))"

definition get_date :: "int \<Rightarrow> int \<Rightarrow> int" where
  "get_date tz t = date_from_day (day_of (t + tz))"

definition set_month :: "int \<Rightarrow> int \<Rightarrow> int \<Rightarrow> int" where
  "set_month tz t m =
     make_day (get_full_year tz t) m (get_date tz t) * ms_per_day + time_within_day (t + tz) - tz"

definition set_full_year :: "int \<Rightarrow> int \<Rightarrow> int \<Rightarrow> int" where
  "set_full_year tz t y =
     make_day y (get_month tz t) (get_date tz t) * ms_per_day + time_within_day (t + tz) - tz"

section \<open>Facts about the calendar\<close>

lemma div_step: "0 < k \<Longrightarrow> (x + 1) div k = x div k + (if (x + 1) mod k = 0 then 1 else 0)"
  for x k :: int
proof -
  assume k: "0 < k"
  have x: "x = k * (x div k) + x mod k" by simp
  have r: "0 \<le> x mod k" "x mod k < k" using k by auto
  show ?thesis
  proof (cases "x mod k = k - 1")
    case True
    with x have "x + 1 = k * (x div k + 1)" by (simp add: algebra_simps)
    with k show ?thesis by simp
  next
    case False
    with r have *: "0 \<le> x mod k + 1" "x mod k + 1 < k" by auto
    from x have x1: "x + 1 = k * (x div k) + (x mod k + 1)" by simp
    from x1 * have "(x + 1) div k = x div k" by (rule int_div_pos_eq)
    moreover from x1 * have "(x + 1) mod k = x mod k + 1" by (rule int_mod_pos_eq)
    ultimately show ?thesis using r by simp
  qed
qed

lemma leap_count:
  assumes "P400 \<Longrightarrow> P100" "P100 \<Longrightarrow> P4" "a' = a + (if P4 then 1 else 0)"
    "b' = b + (if P100 then 1 else 0)" "c' = c + (if P400 then 1 else 0)"
  shows "x + 365 + a' - b' + c' =
    x + a - b + c + (if P4 \<and> (\<not> P100 \<or> P400) then 366 else (365::int))"
  using assms by (cases P4; cases P100; cases P400) simp_all

lemma day_from_year_step: "day_from_year (y + 1) = day_from_year y + (if leap y then 366 else 365)"
proof -
  have m: "(y - 1968) mod 4 = y mod 4" "(y - 1900) mod 100 = y mod 100" "(y - 1600) mod 400 = y mod 400"
    by (simp_all add: mod_diff_eq [of y, symmetric])
  have e: "y - 1969 + 1 = y - 1968" "y - 1901 + 1 = y - 1900" "y - 1601 + 1 = y - 1600"
    by simp_all
  have f4: "(y - 1968) div 4 = (y - 1969) div 4 + (if y mod 4 = 0 then 1 else 0)"
    using div_step [of 4 "y - 1969"] unfolding e m by simp
  have f100: "(y - 1900) div 100 = (y - 1901) div 100 + (if y mod 100 = 0 then 1 else 0)"
    using div_step [of 100 "y - 1901"] unfolding e m by simp
  have f400: "(y - 1600) div 400 = (y - 1601) div 400 + (if y mod 400 = 0 then 1 else 0)"
    using div_step [of 400 "y - 1601"] unfolding e m by simp
  have d: "y mod 400 = 0 \<Longrightarrow> y mod 100 = 0" "y mod 100 = 0 \<Longrightarrow> y mod 4 = 0"
    using dvd_trans [of 100 400 y] dvd_trans [of 4 100 y] by (simp_all add: mod_eq_0_iff_dvd)
  have next_year: "day_from_year (y + 1) =
      365 * (y - 1970) + 365 + (y - 1968) div 4 - (y - 1900) div 100 + (y - 1600) div 400"
    unfolding day_from_year_def by (simp add: algebra_simps)
  show ?thesis
    unfolding leap_def next_year day_from_year_def [of y] by (rule leap_count [OF d f4 f100 f400])
qed

text \<open>A floor is within its linear bounds; the rest of the year computation is linear arithmetic.\<close>

lemma div_lower: "0 < k \<Longrightarrow> k * (x div k) \<le> x"
  and div_upper: "0 < k \<Longrightarrow> x < k * (x div k) + k" for x k :: int
  using mult_div_mod_eq [of k x] pos_mod_sign [of k x] pos_mod_bound [of k x] by linarith+

lemma day_from_year_linear:
  "146097 * (y - 1970) - 600 \<le> 400 * day_from_year y"
  "400 * day_from_year y \<le> 146097 * (y - 1970) + 600"
proof -
  obtain a b c where abc: "a = (y - 1969) div 4" "b = (y - 1901) div 100" "c = (y - 1601) div 400"
    by simp
  have bounds: "4 * a \<le> y - 1969" "y - 1969 < 4 * a + 4"
    "100 * b \<le> y - 1901" "y - 1901 < 100 * b + 100"
    "400 * c \<le> y - 1601" "y - 1601 < 400 * c + 400"
    unfolding abc by (rule div_lower div_upper; simp)+
  have eq: "day_from_year y = 365 * (y - 1970) + a - b + c"
    by (simp add: day_from_year_def abc)
  from bounds show "146097 * (y - 1970) - 600 \<le> 400 * day_from_year y"
    unfolding eq by (simp add: algebra_simps)
  from bounds show "400 * day_from_year y \<le> 146097 * (y - 1970) + 600"
    unfolding eq by (simp add: algebra_simps)
qed

lemma year_from_day_bounds:
  "day_from_year (year_from_day d) \<le> d" "d < day_from_year (year_from_day d + 1)"
proof -
  define q where "q = (400 * d) div 146097"
  have q: "146097 * q \<le> 400 * d" "400 * d < 146097 * q + 146097"
    unfolding q_def by (rule div_lower div_upper; simp)+
  have lo: "day_from_year (1970 + q - 1) \<le> d"
    using day_from_year_linear(2) [of "1970 + q - 1"] q by simp
  have hi: "d < day_from_year (1970 + q + 2)"
    using day_from_year_linear(1) [of "1970 + q + 2"] q by simp
  have "1970 + q + 1 + 1 = 1970 + q + 2" by simp
  with lo hi show "day_from_year (year_from_day d) \<le> d" "d < day_from_year (year_from_day d + 1)"
    unfolding year_from_day_def Let_def q_def [symmetric] by (auto simp del: add.assoc)
qed

lemma month_in_year_range: "0 \<le> month_in_year lp dd \<and> month_in_year lp dd \<le> 11"
  by (simp add: month_in_year_def)

lemma month_from_day_range: "0 \<le> month_from_day d" "month_from_day d \<le> 11"
  using month_in_year_range by (auto simp: month_from_day_def Let_def)

lemma make_day_parts: "make_day (year_from_day d) (month_from_day d) (date_from_day d) = d"
  using month_from_day_range [of d] by (simp add: make_day_def date_from_day_def Let_def)

lemma make_day_next_month:
  assumes "0 \<le> m" "m \<le> 11"
  shows "make_day y (m + 1) dt = make_day y m dt + days_in_month y m"
proof (cases "m = 11")
  case True
  then show ?thesis
    by (simp add: make_day_def days_in_month_def month_start_def day_from_year_step Let_def)
next
  case False
  with assms have *: "(m + 1) div 12 = 0" "(m + 1) mod 12 = m + 1" "m div 12 = 0" "m mod 12 = m"
    by auto
  from assms False have "m = 0 \<or> m = 1 \<or> m = 2 \<or> m = 3 \<or> m = 4 \<or> m = 5 \<or> m = 6 \<or> m = 7
      \<or> m = 8 \<or> m = 9 \<or> m = 10" by presburger
  then show ?thesis unfolding make_day_def Let_def *
    by (elim disjE) (simp_all add: days_in_month_def month_start_def)
qed

lemma make_day_next_year:
  assumes "0 \<le> m" "m \<le> 11"
  shows "make_day (y + 1) m dt =
    make_day y m dt + (if (if m \<le> 1 then leap y else leap (y + 1)) then 366 else 365)"
proof -
  have ms: "month_start lp m = month_start False m + (if lp \<and> 2 \<le> m then 1 else 0)" for lp
    using assms by (simp add: month_start_def)
  have m: "m div 12 = 0" "m mod 12 = m" using assms by auto
  have "\<not> leap (y + 1)" if "leap y"
  proof
    assume "leap (y + 1)"
    with that have "y mod 4 = 0" "(y + 1) mod 4 = 0" by (simp_all add: leap_def)
    then show False by presburger
  qed
  then show ?thesis
    unfolding make_day_def m Let_def day_from_year_step add_0_right
      ms [of "leap y"] ms [of "leap (y + 1)"]
    using assms by (cases "leap y"; cases "leap (y + 1)"; cases "m \<le> 1") simp_all
qed

section \<open>What the setters do to an instant\<close>

lemma local_time_parts: "day_of (t + tz) * ms_per_day + time_within_day (t + tz) - tz = t"
  by (simp add: day_of_def time_within_day_def)

lemma set_month_next:
  "set_month tz t (get_month tz t + 1) =
     t + days_in_month (get_full_year tz t) (get_month tz t) * ms_per_day"
proof -
  let ?d = "day_of (t + tz)"
  have "make_day (year_from_day ?d) (month_from_day ?d + 1) (date_from_day ?d) =
      ?d + days_in_month (year_from_day ?d) (month_from_day ?d)"
    using make_day_next_month [OF month_from_day_range] make_day_parts by simp
  then show ?thesis
    using local_time_parts [of t tz]
    by (simp add: set_month_def get_full_year_def get_month_def get_date_def algebra_simps)
qed

lemma set_full_year_next:
  "set_full_year tz t (get_full_year tz t + 1) =
     t + (if (if get_month tz t \<le> 1 then leap (get_full_year tz t)
              else leap (get_full_year tz t + 1)) then 366 else 365) * ms_per_day"
proof -
  let ?d = "day_of (t + tz)"
  have "make_day (year_from_day ?d + 1) (month_from_day ?d) (date_from_day ?d) =
      ?d + (if (if month_from_day ?d \<le> 1 then leap (year_from_day ?d)
              else leap (year_from_day ?d + 1)) then 366 else 365)"
    using make_day_next_year [OF month_from_day_range] make_day_parts by simp
  then show ?thesis
    using local_time_parts [of t tz]
    by (simp add: set_full_year_def get_full_year_def get_month_def get_date_def algebra_simps)
qed

lemma days_in_month_bounds: "28 \<le> days_in_month y m" "days_in_month y m \<le> 31"
  by (auto simp: days_in_month_def)

end
