(* ===== verification/IsoDate.thy ===== *)
theory IsoDate
  imports JsDate JsString
begin

text \<open>
  \<open>Date.prototype.toISOString\<close>, and the reading of a \<open>YYYY-MM-DD\<close> string as a
  \<open>DATE\<close> by the database (a day number). The round trip says which day a date string cut
  out of an ISO string stands for.
\<close>

section \<open>Printing\<close>

definition iso_year :: "int \<Rightarrow> string" where
  "iso_year y = (if 0 \<le> y \<and> y \<le> 9999 then pad 4 y
     else (if y < 0 then ''-'' else ''+'') @ pad 6 \<bar>y\<bar>)"

definition iso_day :: "int \<Rightarrow> string" where
  "iso_day d = iso_year (year_from_day d) @ ''-'' @ pad 2 (month_from_day d + 1)
     @ ''-'' @ pad 2 (date_from_day d)"

definition to_iso_string :: "int \<Rightarrow> string" where
  "to_iso_string t =
     (let ms = time_within_day t
      in iso_day (day_of t) @ ''T'' @ pad 2 (ms div 3600000) @ '':'' @ pad 2 (ms div 60000 mod 60)
         @ '':'' @ pad 2 (ms div 1000 mod 60) @ ''.'' @ pad 3 (ms mod 1000) @ ''Z'')"

section \<open>Reading a day\<close>

definition read_digits :: "string \<Rightarrow> int option" where
  "read_digits s =
     (if digit_prefix 10 s \<noteq> [] \<and> length (digit_prefix 10 s) = length s
      then Some (digits_val 10 (digit_prefix 10 s)) else None)"

definition sql_parse_date :: "string \<Rightarrow> int option" where
  "sql_parse_date s =
     (if length s = 10 \<and> s ! 4 = CHR ''-'' \<and> s ! 7 = CHR ''-''
      then (case (read_digits (take 4 s), read_digits (take 2 (drop 5 s)), read_digits (drop 8 s)) of
              (Some y, Some m, Some d) \<Rightarrow>
                if 1 \<le> m \<and> m \<le> 12 \<and> 1 \<le> d \<and> d \<le> days_in_month y (m - 1)
                then Some (make_day y (m - 1) d) else None
            | _ \<Rightarrow> None)
      else None)"

lemma read_digits_pad:
  "0 \<le> n \<Longrightarrow> n < 10 ^ k \<Longrightarrow> 0 < k \<Longrightarrow> read_digits (pad k n) = Some n"
proof -
  assume n: "0 \<le> n" "n < 10 ^ k" and k: "0 < k"
  have "digit_prefix 10 (pad k n) = pad_digits k n"
    using digit_prefix_digits [OF pad_digits_small, of 10 k n "[]"] by (simp add: pad_def)
  moreover have "pad_digits k n \<noteq> []" using k length_pad_digits [of k n] by (metis list.size(3) less_irrefl)
  ultimately show ?thesis using n by (simp add: read_digits_def pad_digits_val)
qed

lemma month_in_year_cases:
  assumes "0 \<le> dd" "dd < (if lp then 366 else 365)"
  shows "\<exists>m \<in> {0..11}. month_in_year lp dd = m \<and> month_start lp m \<le> dd
    \<and> dd < (if m = 11 then (if lp then 366 else 365) else month_start lp (m + 1))"
proof -
  let ?s = "month_start lp"
  have mono: "?s 0 = 0" "?s 0 \<le> ?s 1" "?s 1 \<le> ?s 2" "?s 2 \<le> ?s 3" "?s 3 \<le> ?s 4" "?s 4 \<le> ?s 5"
    "?s 5 \<le> ?s 6" "?s 6 \<le> ?s 7" "?s 7 \<le> ?s 8" "?s 8 \<le> ?s 9" "?s 9 \<le> ?s 10" "?s 10 \<le> ?s 11"
    by (simp_all add: month_start_def)
  consider "dd < ?s 1" | "?s 1 \<le> dd" "dd < ?s 2" | "?s 2 \<le> dd" "dd < ?s 3"
    | "?s 3 \<le> dd" "dd < ?s 4" | "?s 4 \<le> dd" "dd < ?s 5" | "?s 5 \<le> dd" "dd < ?s 6"
    | "?s 6 \<le> dd" "dd < ?s 7" | "?s 7 \<le> dd" "dd < ?s 8" | "?s 8 \<le> dd" "dd < ?s 9"
    | "?s 9 \<le> dd" "dd < ?s 10" | "?s 10 \<le> dd" "dd < ?s 11" | "?s 11 \<le> dd"
    by (meson not_le)
  then show ?thesis
  proof cases
    case 12
    with mono assms have "month_in_year lp dd = 11" by (simp add: month_in_year_def)
    with 12 assms show ?thesis by (intro bexI [of _ 11]) simp_all
  qed (use mono assms in \<open>simp_all add: month_in_year_def\<close>)
qed

lemma date_from_day_range:
  "1 \<le> date_from_day d" "date_from_day d \<le> days_in_month (year_from_day d) (month_from_day d)"
proof -
  define y where "y = year_from_day d"
  define dd where "dd = d - day_from_year y"
  have "0 \<le> dd" "dd < (if leap y then 366 else 365)"
    using year_from_day_bounds [of d] day_from_year_step [of y] by (auto simp: dd_def y_def)
  then obtain m where m: "0 \<le> m" "m \<le> 11" "month_in_year (leap y) dd = m"
    "month_start (leap y) m \<le> dd"
    "dd < (if m = 11 then (if leap y then 366 else 365) else month_start (leap y) (m + 1))"
    using month_in_year_cases by (metis atLeastAtMost_iff)
  have mm: "month_from_day d = m"
    using m(3) by (simp add: month_from_day_def y_def dd_def Let_def)
  have e: "date_from_day d = dd - month_start (leap y) m + 1"
    unfolding date_from_day_def Let_def mm by (simp add: dd_def y_def)
  show "1 \<le> date_from_day d" using m(4) e by simp
  have "(if m = 11 then (if leap y then 366 else 365) else month_start (leap y) (m + 1))
      = month_start (leap y) m + days_in_month y m"
    using make_day_next_month [of m y 1] m(1,2) day_from_year_step [of y]
    by (cases "m = 11") (simp_all add: make_day_def days_in_month_def month_start_def)
  with m(5) e show "date_from_day d \<le> days_in_month (year_from_day d) (month_from_day d)"
    unfolding mm y_def [symmetric] by simp
qed

lemma parse_iso_day:
  assumes "0 \<le> year_from_day d" "year_from_day d \<le> 9999"
  shows "sql_parse_date (iso_day d) = Some d"
proof -
  define y m dt where "y = year_from_day d" and "m = month_from_day d" and "dt = date_from_day d"
  have m: "0 \<le> m" "m \<le> 11" using month_from_day_range by (auto simp: m_def)
  have dt: "1 \<le> dt" "dt \<le> days_in_month y m" "dt \<le> 31"
    using date_from_day_range [of d] days_in_month_bounds [of y m] by (auto simp: y_def m_def dt_def)
  have s: "iso_day d = pad 4 y @ ''-'' @ pad 2 (m + 1) @ ''-'' @ pad 2 dt"
    using assms by (simp add: iso_day_def iso_year_def y_def m_def dt_def)
  have "read_digits (pad 4 y) = Some y" "read_digits (pad 2 (m + 1)) = Some (m + 1)"
    "read_digits (pad 2 dt) = Some dt"
    using assms m dt by (subst read_digits_pad; simp add: y_def)+
  moreover have "make_day y m dt = d" by (simp add: y_def m_def dt_def make_day_parts)
  ultimately show ?thesis unfolding s sql_parse_date_def
    using m dt by (simp add: nth_append)
qed

lemma split_first_append:
  "c \<notin> set a \<Longrightarrow> split_first c (a @ c # b) = a"
  unfolding split_first_def by (induction a) auto

lemma pad_chars: "c \<in> set (pad k n) \<Longrightarrow> \<exists>d. is_digit d \<and> c = digit_char d"
  using pad_digits_small [of k n] by (auto simp: pad_def)

lemma T_notin_pad: "CHR ''T'' \<notin> set (pad k n)"
  using pad_chars digit_char_neq by metis

lemma split_iso: "split_first CHR ''T'' (to_iso_string t) = iso_day (day_of t)"
proof -
  have "CHR ''T'' \<notin> set (iso_day (day_of t))"
    by (auto simp: iso_day_def iso_year_def T_notin_pad)
  then show ?thesis
    using split_first_append by (simp add: to_iso_string_def Let_def)
qed

text \<open>The day of \<open>new Date().toISOString().split('T')[0]\<close> is the UTC day.\<close>

lemma parse_split_iso:
  assumes "0 \<le> get_full_year 0 t" "get_full_year 0 t \<le> 9999"
  shows "sql_parse_date (split_first CHR ''T'' (to_iso_string t)) = Some (day_of t)"
  using assms by (simp add: split_iso parse_iso_day get_full_year_def)

end
