(* ===== verification/Types.thy ===== *)
theory Types
  imports JsString IsoDate
begin

text \<open>
  The shared types: the enums and requests of \<open>common/types\<close>, the entities of
  \<open>models/entities\<close>, the payloads of the domain events and their JSON form, and the error
  classes of \<open>common/errors\<close>. An enum is a datatype with a function giving its string value.
  Amounts are integers, counted in hundredths of the currency unit (the scale of the
  \<open>DECIMAL(_, 2)\<close> columns); dates are time values.
\<close>

type_synonym date = int
type_synonym money = int

section \<open>Enums\<close>

datatype event_type = PAYMENT_CREATED | PAYMENT_COMPLETED | PAYMENT_FAILED | PAYMENT_REFUNDED
  | SUBSCRIPTION_CREATED | SUBSCRIPTION_RENEWED | SUBSCRIPTION_CANCELLED | SUBSCRIPTION_EXPIRED

fun event_type_str :: "event_type \<Rightarrow> string" where
  "event_type_str PAYMENT_CREATED = ''PAYMENT_CREATED''"
| "event_type_str PAYMENT_COMPLETED = ''PAYMENT_COMPLETED''"
| "event_type_str PAYMENT_FAILED = ''PAYMENT_FAILED''"
| "event_type_str PAYMENT_REFUNDED = ''PAYMENT_REFUNDED''"
| "event_type_str SUBSCRIPTION_CREATED = ''SUBSCRIPTION_CREATED''"
| "event_type_str SUBSCRIPTION_RENEWED = ''SUBSCRIPTION_RENEWED''"
| "event_type_str SUBSCRIPTION_CANCELLED = ''SUBSCRIPTION_CANCELLED''"
| "event_type_str SUBSCRIPTION_EXPIRED = ''SUBSCRIPTION_EXPIRED''"

datatype payment_status = PENDING | COMPLETED | FAILED | REFUNDED | PAY_CANCELLED

fun payment_status_str :: "payment_status \<Rightarrow> string" where
  "payment_status_str PENDING = ''PENDING''"
| "payment_status_str COMPLETED = ''COMPLETED''"
| "payment_status_str FAILED = ''FAILED''"
| "payment_status_str REFUNDED = ''REFUNDED''"
| "payment_status_str PAY_CANCELLED = ''CANCELLED''"

datatype subscription_status = ACTIVE | EXPIRED | SUB_CANCELLED | PENDING_RENEWAL

fun subscription_status_str :: "subscription_status \<Rightarrow> string" where
  "subscription_status_str ACTIVE = ''ACTIVE''"
| "subscription_status_str EXPIRED = ''EXPIRED''"
| "subscription_status_str SUB_CANCELLED = ''CANCELLED''"
| "subscription_status_str PENDING_RENEWAL = ''PENDING_RENEWAL''"

datatype subscription_plan = MONTHLY | ANNUAL

fun plan_str :: "subscription_plan \<Rightarrow> string" where
  "plan_str MONTHLY = ''MONTHLY''"
| "plan_str ANNUAL = ''ANNUAL''"

text \<open>The string as a member of the enum, as an \<open>ENUM('MONTHLY', 'ANNUAL')\<close> column reads it.\<close>

definition plan_of_str :: "string \<Rightarrow> subscription_plan option" where
  "plan_of_str s = (if s = ''MONTHLY'' then Some MONTHLY
     else if s = ''ANNUAL'' then Some ANNUAL else None)"

lemma plan_of_str_str [simp]: "plan_of_str (plan_str p) = Some p"
  by (cases p) (simp_all add: plan_of_str_def)

lemma event_type_str_inject [simp]: "event_type_str a = event_type_str b \<longleftrightarrow> a = b"
  by (cases a; cases b) simp_all

section \<open>Requests\<close>

text \<open>
  The \<open>plan\<close> of a subscription request is a string: the controller passes whatever the body
  held, with no check that it is a member of \<open>SubscriptionPlan\<close>.
\<close>

record create_payment_request =
  cp_userId :: string
  cp_productId :: string
  cp_amount :: money
  cp_currency :: "string option"

record complete_payment_request =
  co_orderNumber :: string
  co_transactionId :: string
  co_paidAmount :: money

record refund_payment_request =
  rf_orderNumber :: string
  rf_refundAmount :: money
  rf_reason :: string

record create_subscription_request =
  cs_userId :: string
  cs_planId :: string
  cs_plan :: string

section \<open>Entities\<close>

text \<open>
  \<open>payment_data\<close> is \<open>Omit<Payment, 'id' | 'createdAt' | 'updatedAt'>\<close>, what a row is created
  from; \<open>payment\<close> extends it with the columns the database fills in. The same for
  subscriptions, whose plan is still an unchecked string before it is stored.
\<close>

record payment_data =
  p_orderNumber :: string
  p_userId :: string
  p_productId :: string
  p_amount :: money
  p_currency :: string
  p_status :: payment_status
  p_transactionId :: "string option"
  p_paidAt :: "date option"
  p_refundedAt :: "date option"
  p_refundAmount :: "money option"
  p_refundReason :: "string option"

record payment = payment_data +
  p_id :: nat
  p_createdAt :: date
  p_updatedAt :: date

record subscription_data =
  ns_subscriptionId :: string
  ns_userId :: string
  ns_planId :: string
  ns_plan :: string
  ns_status :: subscription_status
  ns_startDate :: date
  ns_endDate :: date
  ns_cancelledAt :: "date option"
  ns_cancelReason :: "string option"
  ns_autoRenew :: bool

record subscription =
  s_id :: nat
  s_subscriptionId :: string
  s_userId :: string
  s_planId :: string
  s_plan :: subscription_plan
  s_status :: subscription_status
  s_startDate :: date
  s_endDate :: date
  s_cancelledAt :: "date option"
  s_cancelReason :: "string option"
  s_autoRenew :: bool
  s_createdAt :: date
  s_updatedAt :: date

section \<open>Domain events\<close>

text \<open>
  The payload interfaces, as one type; the generic \<open>DomainEvent<T>\<close> carries one of them.
  \<open>UnpricedCompletedPayload\<close> is a \<open>PaymentCompletedPayload\<close> whose \<open>paidAmount\<close> is
  \<open>undefined\<close>, the one member of a payload that no check and no statement guards.
\<close>

datatype event_payload =
    PaymentCreatedPayload string string string money string
  | PaymentCompletedPayload string string money date
  | UnpricedCompletedPayload string string date
  | PaymentFailedPayload string string date
  | PaymentRefundedPayload string money string date
  | SubscriptionCreatedPayload string string string date date
  | SubscriptionRenewedPayload string string date
  | SubscriptionCancelledPayload string date string
  | SubscriptionExpiredPayload string date

record domain_event =
  e_id :: string
  e_type :: event_type
  e_aggregateId :: string
  e_aggregateType :: string
  e_payload :: event_payload
  e_occurredAt :: date
  e_version :: int

text \<open>
  \<open>JSON.stringify(payload)\<close> as the document the JSON column holds: the object's members, with
  a \<open>Date\<close> as its ISO string and without the members that are \<open>undefined\<close>.
\<close>

datatype json = JStr string | JNum money

fun json_of_payload :: "event_payload \<Rightarrow> (string \<times> json) list" where
  "json_of_payload (PaymentCreatedPayload on uid pid am cur) =
     [(''orderNumber'', JStr on), (''userId'', JStr uid), (''productId'', JStr pid),
      (''amount'', JNum am), (''currency'', JStr cur)]"
| "json_of_payload (PaymentCompletedPayload on tid am at) =
     [(''orderNumber'', JStr on), (''transactionId'', JStr tid), (''paidAmount'', JNum am),
      (''paidAt'', JStr (to_iso_string at))]"
| "json_of_payload (UnpricedCompletedPayload on tid at) =
     [(''orderNumber'', JStr on), (''transactionId'', JStr tid), (''paidAt'', JStr (to_iso_string at))]"
| "json_of_payload (PaymentFailedPayload on reason at) =
     [(''orderNumber'', JStr on), (''reason'', JStr reason), (''failedAt'', JStr (to_iso_string at))]"
| "json_of_payload (PaymentRefundedPayload on am reason at) =
     [(''orderNumber'', JStr on), (''refundAmount'', JNum am), (''reason'', JStr reason),
      (''refundedAt'', JStr (to_iso_string at))]"
| "json_of_payload (SubscriptionCreatedPayload sid uid plid st en) =
     [(''subscriptionId'', JStr sid), (''userId'', JStr uid), (''planId'', JStr plid),
      (''startDate'', JStr (to_iso_string st)), (''endDate'', JStr (to_iso_string en))]"
| "json_of_payload (SubscriptionRenewedPayload sid on en) =
     [(''subscriptionId'', JStr sid), (''orderNumber'', JStr on),
      (''newEndDate'', JStr (to_iso_string en))]"
| "json_of_payload (SubscriptionCancelledPayload sid at reason) =
     [(''subscriptionId'', JStr sid), (''cancelledAt'', JStr (to_iso_string at)),
      (''reason'', JStr reason)]"
| "json_of_payload (SubscriptionExpiredPayload sid at) =
     [(''subscriptionId'', JStr sid), (''expiredAt'', JStr (to_iso_string at))]"

record stored_event =
  se_id :: nat
  se_eventId :: string
  se_eventType :: string
  se_aggregateId :: string
  se_aggregateType :: string
  se_payload :: "(string \<times> json) list"
  se_version :: int
  se_occurredAt :: date
  se_createdAt :: date

section \<open>Errors\<close>

text \<open>What the database refuses (a violated constraint) and what the network loses.\<close>

datatype sql_error =
    ER_DUP_ENTRY string
  | ER_DATA_TOO_LONG string
  | WARN_DATA_TRUNCATED string
  | ER_WARN_DATA_OUT_OF_RANGE string
  | ER_BAD_FIELD_ERROR string
  | ER_WRONG_VALUE string
  | ER_PARSE_ERROR

record app_error =
  err_statusCode :: nat
  err_message :: string
  err_code :: "string option"

datatype js_error =
    AppErr app_error
  | PlainError string
  | SqlErr sql_error
  | Unavailable string

definition AppError :: "nat \<Rightarrow> string \<Rightarrow> string option \<Rightarrow> js_error" where
  "AppError status msg code =
     AppErr \<lparr>err_statusCode = status, err_message = msg, err_code = code\<rparr>"

definition NotFoundError :: "string \<Rightarrow> string \<Rightarrow> js_error" where
  "NotFoundError resource ident = AppError 404 (resource @ '' not found: '' @ ident) (Some ''NOT_FOUND'')"

definition ConflictError :: "string \<Rightarrow> js_error" where
  "ConflictError msg = AppError 409 msg (Some ''CONFLICT'')"

definition DuplicatePaymentError :: "string \<Rightarrow> js_error" where
  "DuplicatePaymentError orderNumber =
     AppError 409 (''Duplicate payment for order: '' @ orderNumber) (Some ''DUPLICATE_PAYMENT'')"

lemmas error_defs = AppError_def NotFoundError_def ConflictError_def DuplicatePaymentError_def

end
