(* ===== verification/Database.thy ===== *)
theory Database
  imports Types
begin

text \<open>
  The database of \<open>db/init.sql\<close>: four tables as lists of rows in insertion order, with the
  column conversions and constraints the schema states (lengths, \<open>DECIMAL\<close> and \<open>INT\<close>
  ranges, whole-second \<open>DATETIME\<close>, \<open>ENUM\<close> members, unique keys). A SQL statement of a
  repository is a pure function of the statement's \<open>NOW()\<close> and the database, which either
  fails with a \<open>sql_error\<close> and changes nothing or returns its result and the new database.
  Text is compared byte by byte (a case-insensitive collation is not modelled), and a refused
  \<open>INSERT\<close> does not use up an \<open>AUTO_INCREMENT\<close> value.

  The locale \<open>keyed_store\<close> is the interface of a table with a unique key: what a lookup
  returns after an insert, and that inserts and updates keep the key unique.
\<close>

section \<open>The tables\<close>

record summary_row =
  sm_date :: int
  sm_totalRevenue :: money
  sm_totalTransactions :: int
  sm_successfulTransactions :: int
  sm_failedTransactions :: int
  sm_totalRefunds :: money
  sm_refundCount :: int
  sm_updatedAt :: date

record database =
  payments :: "payment list"
  subscriptions :: "subscription list"
  event_store :: "stored_event list"
  payment_summary :: "summary_row list"

definition empty_db :: database where
  "empty_db = \<lparr>payments = [], subscriptions = [], event_store = [], payment_summary = []\<rparr>"

type_synonym 'a stmt = "date \<Rightarrow> database \<Rightarrow> sql_error + ('a \<times> database)"

section \<open>Column values\<close>

datatype sql_value = VStr string | VNum money | VDate date | VBool bool | VNull

text \<open>A \<open>DATETIME\<close> column has whole seconds: a finer value is rounded, \<open>NOW()\<close> is cut off.\<close>

definition sql_datetime :: "date \<Rightarrow> date" where
  "sql_datetime t = ((t + 500) div 1000) * 1000"

definition sql_now :: "date \<Rightarrow> date" where
  "sql_now t = (t div 1000) * 1000"

text \<open>\<open>DATE(?)\<close> of a \<open>Date\<close> parameter: the driver sends local time.\<close>

definition sql_date :: "int \<Rightarrow> date \<Rightarrow> int" where
  "sql_date tz t = day_of (t + tz)"

definition decimal_ok :: "nat \<Rightarrow> money \<Rightarrow> bool" where
  "decimal_ok p n \<longleftrightarrow> \<bar>n\<bar> < 10 ^ p"

definition int_ok :: "int \<Rightarrow> bool" where
  "int_ok n \<longleftrightarrow> - (2 ^ 31) \<le> n \<and> n < 2 ^ 31"

fun first_violation :: "(bool \<times> sql_error) list \<Rightarrow> sql_error option" where
  "first_violation [] = None"
| "first_violation ((ok, e) # cs) = (if ok then first_violation cs else Some e)"

lemma first_violation_None: "first_violation cs = None \<longleftrightarrow> (\<forall>(ok, e) \<in> set cs. ok)"
  by (induction cs rule: first_violation.induct) auto

text \<open>
  The column a property name of an update's \<open>extra\<close> object goes to:
  \<open>key.replace(/([A-Z])/g, '_$1').toLowerCase()\<close>.
\<close>

definition column_name :: "string \<Rightarrow> string" where
  "column_name key =
     to_lower (concat (map (\<lambda>c. if is_upper c then [CHR ''_'', c] else [c]) key))"

lemma column_name_values:
  "column_name ''transactionId'' = ''transaction_id''"
  "column_name ''paidAt'' = ''paid_at''"
  "column_name ''refundAmount'' = ''refund_amount''"
  "column_name ''refundReason'' = ''refund_reason''"
  "column_name ''refundedAt'' = ''refunded_at''"
  "column_name ''cancelledAt'' = ''cancelled_at''"
  "column_name ''cancelReason'' = ''cancel_reason''"
  "column_name ''autoRenew'' = ''auto_renew''"
  by (simp_all add: column_name_def to_lower_def lower_char_def is_upper_def char_of_def)

section \<open>Rows by key\<close>

definition find_row :: "('r \<Rightarrow> 'k) \<Rightarrow> 'k \<Rightarrow> 'r list \<Rightarrow> 'r option" where
  "find_row key k rows = find (\<lambda>r. key r = k) rows"

text \<open>\<open>UPDATE ... WHERE P\<close>: every matching row is changed, or the statement fails as a whole.\<close>

primrec update_where ::
    "('r \<Rightarrow> bool) \<Rightarrow> ('r \<Rightarrow> sql_error + 'r) \<Rightarrow> 'r list \<Rightarrow> sql_error + 'r list" where
  "update_where P f [] = Inr []"
| "update_where P f (r # rs) =
     (case (if P r then f r else Inr r) of
        Inl e \<Rightarrow> Inl e
      | Inr r' \<Rightarrow> (case update_where P f rs of Inl e \<Rightarrow> Inl e | Inr rs' \<Rightarrow> Inr (r' # rs')))"

text \<open>The assignments of a \<open>SET\<close> clause, left to right.\<close>

primrec apply_sets ::
    "(string \<Rightarrow> sql_value \<Rightarrow> 'r \<Rightarrow> sql_error + 'r) \<Rightarrow> (string \<times> sql_value) list \<Rightarrow> 'r \<Rightarrow>
      sql_error + 'r" where
  "apply_sets setc [] r = Inr r"
| "apply_sets setc (s # ss) r =
     (case setc (fst s) (snd s) r of Inl e \<Rightarrow> Inl e | Inr r' \<Rightarrow> apply_sets setc ss r')"

lemma find_row_Some:
  "find_row key k rows = Some r \<Longrightarrow> r \<in> set rows \<and> key r = k"
  unfolding find_row_def by (induction rows) (auto split: if_splits)

lemma find_row_None: "find_row key k rows = None \<longleftrightarrow> k \<notin> key ` set rows"
  unfolding find_row_def by (induction rows) auto

lemma find_row_unique:
  assumes "distinct (map key rows)"
  shows "find_row key k rows = Some r \<longleftrightarrow> r \<in> set rows \<and> key r = k"
  using assms unfolding find_row_def by (induction rows) force+

lemma find_row_append:
  "find_row key k (rows @ rows') =
    (case find_row key k rows of Some r \<Rightarrow> Some r | None \<Rightarrow> find_row key k rows')"
  unfolding find_row_def by (induction rows) auto

lemma find_row_single [simp]: "find_row key k [r] = (if key r = k then Some r else None)"
  by (simp add: find_row_def)

lemma find_row_Nil [simp]: "find_row key k [] = None"
  by (simp add: find_row_def)

lemma update_where_Cons:
  "update_where P f (r # rs) = Inr rs' \<longleftrightarrow>
    (\<exists>r' rest. rs' = r' # rest \<and> (if P r then f r else Inr r) = Inr r' \<and> update_where P f rs = Inr rest)"
  by (auto split: sum.splits)

lemma update_where_keys:
  assumes "update_where P f rs = Inr rs'" "\<And>r r'. P r \<Longrightarrow> f r = Inr r' \<Longrightarrow> key r' = key r"
  shows "map key rs' = map key rs"
  using assms(1)
proof (induction rs arbitrary: rs')
  case (Cons r rs)
  from Cons.prems obtain r' rest where
    "rs' = r' # rest" "(if P r then f r else Inr r) = Inr r'" "update_where P f rs = Inr rest"
    unfolding update_where_Cons by blast
  with Cons.IH assms(2) show ?case by (cases "P r") auto
qed simp

lemma find_row_update_where:
  assumes "update_where (\<lambda>r. key r = k) f rs = Inr rs'"
    "\<And>r r'. key r = k \<Longrightarrow> f r = Inr r' \<Longrightarrow> key r' = k"
  shows "find_row key k' rs' =
    (if k' = k then (case find_row key k rs of None \<Rightarrow> None
       | Some r \<Rightarrow> (case f r of Inl e \<Rightarrow> None | Inr r' \<Rightarrow> Some r'))
     else find_row key k' rs)"
  using assms(1)
proof (induction rs arbitrary: rs')
  case (Cons r rs)
  from Cons.prems obtain r' rest where
    *: "rs' = r' # rest" "(if key r = k then f r else Inr r) = Inr r'"
       "update_where (\<lambda>r. key r = k) f rs = Inr rest"
    unfolding update_where_Cons by blast
  show ?case
  proof (cases "key r = k")
    case True
    with * assms(2) have "key r' = k" by simp
    with * True Cons.IH [OF *(3)] show ?thesis by (auto simp: find_row_def)
  next
    case False
    with * Cons.IH [OF *(3)] show ?thesis by (auto simp: find_row_def)
  qed
qed simp

lemma update_where_none:
  "k \<notin> key ` set rs \<Longrightarrow> update_where (\<lambda>r. key r = k) f rs = Inr rs"
  by (induction rs) auto

lemma update_where_all_rows:
  assumes "update_where P f rs = Inr rs'" "\<forall>r \<in> set rs. ok r"
    "\<And>r r'. P r \<Longrightarrow> ok r \<Longrightarrow> f r = Inr r' \<Longrightarrow> ok r'"
  shows "\<forall>r \<in> set rs'. ok r"
  using assms(1,2)
proof (induction rs arbitrary: rs')
  case (Cons r rs)
  from Cons.prems(1) obtain r' rest where
    *: "rs' = r' # rest" "(if P r then f r else Inr r) = Inr r'" "update_where P f rs = Inr rest"
    unfolding update_where_Cons by blast
  from *(2) assms(3) Cons.prems(2) have "ok r'" by (cases "P r") auto
  with * Cons show ?case by simp
qed simp

lemma apply_sets_keeps:
  assumes "apply_sets setc ss r = Inr r'"
    "\<And>c v r r'. setc c v r = Inr r' \<Longrightarrow> h r' = h r"
  shows "h r' = h r"
  using assms(1)
proof (induction ss arbitrary: r)
  case (Cons s ss)
  from Cons.prems obtain r1 where "setc (fst s) (snd s) r = Inr r1" "apply_sets setc ss r1 = Inr r'"
    by (auto split: sum.splits)
  with Cons.IH assms(2) show ?case by metis
qed simp

section \<open>The interface of a table with a unique key\<close>

locale keyed_store =
  fixes rows :: "'db \<Rightarrow> 'r list" and key :: "'r \<Rightarrow> 'k" and data_key :: "'d \<Rightarrow> 'k"
    and lookup :: "'k \<Rightarrow> 'db \<Rightarrow> 'r option"
    and insert_row :: "'d \<Rightarrow> date \<Rightarrow> 'db \<Rightarrow> sql_error + (nat \<times> 'db)"
  assumes lookup_rows: "lookup k db = find_row key k (rows db)"
    and insert_appends: "insert_row d now db = Inr (n, db') \<Longrightarrow>
      \<exists>r. rows db' = rows db @ [r] \<and> key r = data_key d"
    and insert_refuses: "data_key d \<in> key ` set (rows db) \<Longrightarrow> \<exists>e. insert_row d now db = Inl e"
begin

abbreviation "unique db \<equiv> distinct (map key (rows db))"

lemma insert_new_key: "insert_row d now db = Inr (n, db') \<Longrightarrow> data_key d \<notin> key ` set (rows db)"
  using insert_refuses [of d db now] by force

lemma unique_insert:
  assumes "insert_row d now db = Inr (n, db')" "unique db"
  shows "unique db'"
proof -
  from insert_appends [OF assms(1)] obtain r where "rows db' = rows db @ [r]" "key r = data_key d"
    by auto
  with assms(2) insert_new_key [OF assms(1)] show ?thesis by auto
qed

lemma lookup_insert_other:
  assumes "insert_row d now db = Inr (n, db')" "k \<noteq> data_key d"
  shows "lookup k db' = lookup k db"
proof -
  from insert_appends [OF assms(1)] obtain r where "rows db' = rows db @ [r]" "key r = data_key d"
    by auto
  with assms(2) show ?thesis by (simp add: lookup_rows find_row_append split: option.split)
qed

lemma lookup_insert_same:
  assumes "insert_row d now db = Inr (n, db')"
  shows "lookup (data_key d) db = None" "\<exists>r. lookup (data_key d) db' = Some r \<and> rows db' = rows db @ [r]"
proof -
  from insert_new_key [OF assms] show none: "lookup (data_key d) db = None"
    by (simp add: lookup_rows find_row_None)
  from insert_appends [OF assms] obtain r where "rows db' = rows db @ [r]" "key r = data_key d"
    by auto
  with none show "\<exists>r. lookup (data_key d) db' = Some r \<and> rows db' = rows db @ [r]"
    by (simp add: lookup_rows find_row_append)
qed

lemma lookup_member:
  assumes "unique db"
  shows "lookup k db = Some r \<longleftrightarrow> r \<in> set (rows db) \<and> key r = k"
  using find_row_unique [OF assms] by (simp add: lookup_rows)

end

end
