(* ===== verification/World.thy ===== *)
theory World
  imports Database "HOL-Library.AList"
begin

text \<open>
  The world an activity of the process acts on, and what lies outside it.

  \<open>world\<close> holds the state the code keeps: the database, the commands sent to Redis, the
  handlers subscribed to the event bus, the queue and worker maps of the queue manager, and the
  jobs added to BullMQ queues. A JavaScript \<open>Map\<close> is an association list in insertion order.

  \<open>env\<close> holds what the code does not determine, as functions of a counter of the actions so
  far: the clock of the process and of the database server, the generated UUIDs, which remote
  calls fail and how (a call may be lost before or after it took effect), what Redis answers to a
  \<open>GET\<close>, in which order the database reads the rows of a table, and the driver's message for
  a SQL error. The assumptions the properties make about it are \<open>reliable\<close> (no call fails)
  and \<open>redis_ok\<close> (the documented meaning of \<open>SET ... EX\<close> and \<open>GET\<close>).
\<close>

section \<open>The world\<close>

datatype handler_ref = OnPaymentCompleted | OnPaymentRefunded | OnPaymentFailed

datatype queue_name = PAYMENT_PROCESSING | SUBSCRIPTION_RENEWAL | DEAD_LETTER

datatype redis_call = RSet nat string string "int option" | RDel nat string

datatype processor_ref = ProcessRenewal | ProcessDeadLetter

record queue =
  q_name :: queue_name
  q_handle :: nat

record worker =
  wk_name :: queue_name
  wk_processor :: processor_ref
  wk_concurrency :: nat
  wk_handle :: nat

record payment_job_data =
  pj_orderNumber :: string
  pj_userId :: string
  pj_productId :: string
  pj_amount :: money
  pj_currency :: string

record renewal_job_data =
  rj_subscriptionId :: string
  rj_userId :: string
  rj_planId :: string
  rj_plan :: string

record dead_letter_job_data =
  dl_originalQueue :: string
  dl_originalJobId :: string
  dl_data :: renewal_job_data
  dl_failedReason :: string
  dl_attemptsMade :: nat
  dl_failedAt :: date

datatype job_data =
    PaymentJob payment_job_data
  | RenewalJob renewal_job_data
  | ScanJob
  | DeadLetterJob dead_letter_job_data

record job_options =
  jo_attempts :: "nat option"
  jo_backoff :: "int option"
  jo_repeatEvery :: "int option"
  jo_jobId :: "string option"

record job_call =
  jc_queue :: queue
  jc_name :: string
  jc_data :: job_data
  jc_options :: job_options

record world =
  w_tick :: nat
  w_db :: database
  w_redis :: "redis_call list"
  w_handlers :: "(event_type \<times> handler_ref list) list"
  w_queues :: "(queue_name \<times> queue) list"
  w_workers :: "(queue_name \<times> worker) list"
  w_created :: nat
  w_closed :: "nat list"
  w_jobs :: "job_call list"

type_synonym 'a io = "(world, js_error, 'a) prog"

definition init_world :: world where
  "init_world = \<lparr>w_tick = 0, w_db = empty_db, w_redis = [], w_handlers = [], w_queues = [],
     w_workers = [], w_created = 0, w_closed = [], w_jobs = []\<rparr>"

section \<open>The environment\<close>

datatype fault = NoFault | NotApplied string | AppliedButLost string

record env =
  clock :: "nat \<Rightarrow> date"
  db_clock :: "nat \<Rightarrow> date"
  uuid :: "nat \<Rightarrow> string"
  fault :: "nat \<Rightarrow> fault"
  redis_reply :: "redis_call list \<Rightarrow> nat \<Rightarrow> string \<Rightarrow> string option"
  payment_order :: "nat \<Rightarrow> payment list \<Rightarrow> payment list"
  subscription_order :: "nat \<Rightarrow> subscription list \<Rightarrow> subscription list"
  event_order :: "nat \<Rightarrow> stored_event list \<Rightarrow> stored_event list"
  driver_message :: "sql_error \<Rightarrow> string"
  tz :: int

section \<open>Actions\<close>

text \<open>Every action takes one tick of the counter.\<close>

definition tick :: "world \<Rightarrow> world" where
  "tick w = w\<lparr>w_tick := Suc (w_tick w)\<rparr>"

definition new_date :: "env \<Rightarrow> date io" where
  "new_date E = act (\<lambda>w. (Inr (clock E (w_tick w)), tick w))"

definition uuidv4 :: "env \<Rightarrow> string io" where
  "uuidv4 E = act (\<lambda>w. (Inr (uuid E (w_tick w)), tick w))"

text \<open>A call to a remote service: the environment says whether it goes through.\<close>

definition remote :: "env \<Rightarrow> (nat \<Rightarrow> world \<Rightarrow> (js_error + 'a) \<times> world) \<Rightarrow> 'a io" where
  "remote E f = act (\<lambda>w.
     case fault E (w_tick w) of
       NoFault \<Rightarrow> f (w_tick w) (tick w)
     | NotApplied m \<Rightarrow> (Inl (Unavailable m), tick w)
     | AppliedButLost m \<Rightarrow> (Inl (Unavailable m), snd (f (w_tick w) (tick w))))"

text \<open>
  \<open>execute\<close> with a parameter that is \<open>undefined\<close>: the driver takes a connection and then refuses
  the call without sending it.
\<close>

definition undefined_parameter :: js_error where
  "undefined_parameter = PlainError ''Bind parameters must not contain undefined''"

definition unbound :: "env \<Rightarrow> 'a io" where
  "unbound E = remote E (\<lambda>n w. (Inl undefined_parameter, w))"

definition sql_effect :: "'a stmt \<Rightarrow> date \<Rightarrow> world \<Rightarrow> (js_error + 'a) \<times> world" where
  "sql_effect st now w =
     (case st now (w_db w) of
        Inl e \<Rightarrow> (Inl (SqlErr e), w)
      | Inr (x, db) \<Rightarrow> (Inr x, w\<lparr>w_db := db\<rparr>))"

definition sql :: "env \<Rightarrow> (nat \<Rightarrow> 'a stmt) \<Rightarrow> 'a io" where
  "sql E st = remote E (\<lambda>n. sql_effect (st n) (sql_now (db_clock E n)))"

text \<open>A statement that only reads.\<close>

definition reading :: "(database \<Rightarrow> 'a) \<Rightarrow> 'a stmt" where
  "reading q = (\<lambda>now db. Inr (q db, db))"

definition message_of :: "env \<Rightarrow> js_error \<Rightarrow> string" where
  "message_of E e =
     (case e of AppErr a \<Rightarrow> err_message a | PlainError m \<Rightarrow> m
      | SqlErr s \<Rightarrow> driver_message E s | Unavailable m \<Rightarrow> m)"

section \<open>What is assumed of the environment\<close>

definition reliable :: "env \<Rightarrow> bool" where
  "reliable E \<longleftrightarrow> (\<forall>n. fault E n = NoFault)"

fun redis_key :: "redis_call \<Rightarrow> string" where
  "redis_key (RSet n k v ttl) = k"
| "redis_key (RDel n k) = k"

text \<open>
  \<open>GET key\<close> at tick \<open>n\<close> answers the value of the last \<open>SET key\<close> while its time to live,
  counted from the \<open>SET\<close>, has not run out, and nothing if there was none, if it ran out, or if
  the key was deleted since.
\<close>

definition redis_ok :: "env \<Rightarrow> bool" where
  "redis_ok E \<longleftrightarrow>
     (\<forall>calls n key. key \<notin> redis_key ` set calls \<longrightarrow> redis_reply E calls n key = None) \<and>
     (\<forall>before m key v ttl after n. key \<notin> redis_key ` set after \<longrightarrow>
        redis_reply E (before @ RSet m key v (Some ttl) # after) n key =
          (if clock E n < clock E m + 1000 * ttl then Some v else None)) \<and>
     (\<forall>before m key v after n. key \<notin> redis_key ` set after \<longrightarrow>
        redis_reply E (before @ RSet m key v None # after) n key = Some v) \<and>
     (\<forall>before m key after n. key \<notin> redis_key ` set after \<longrightarrow>
        redis_reply E (before @ RDel m key # after) n key = None)"

text \<open>A concrete environment, for evaluating the model on examples.\<close>

fun last_call :: "string \<Rightarrow> redis_call list \<Rightarrow> redis_call option" where
  "last_call key [] = None"
| "last_call key (c # cs) =
     (case last_call key cs of Some d \<Rightarrow> Some d
      | None \<Rightarrow> if redis_key c = key then Some c else None)"

definition ttl_reply ::
    "(nat \<Rightarrow> date) \<Rightarrow> redis_call list \<Rightarrow> nat \<Rightarrow> string \<Rightarrow> string option" where
  "ttl_reply clk calls n key =
     (case last_call key calls of
        Some (RSet m k v ttl) \<Rightarrow>
          (case ttl of None \<Rightarrow> Some v
           | Some s \<Rightarrow> if clk n < clk m + 1000 * s then Some v else None)
      | _ \<Rightarrow> None)"

definition demo_env :: "(nat \<Rightarrow> date) \<Rightarrow> (nat \<Rightarrow> fault) \<Rightarrow> env" where
  "demo_env clk flt = \<lparr>clock = clk, db_clock = clk,
     uuid = (\<lambda>n. pad 8 (int n) @ ''-0000-4000-8000-000000000000''), fault = flt,
     redis_reply = ttl_reply clk, payment_order = (\<lambda>_ rs. rs), subscription_order = (\<lambda>_ rs. rs),
     event_order = (\<lambda>_ rs. rs), driver_message = (\<lambda>_. ''SQL error''), tz = 0\<rparr>"

lemma last_call_append:
  "last_call key (cs @ ds) =
    (case last_call key ds of Some d \<Rightarrow> Some d | None \<Rightarrow> last_call key cs)"
  by (induction cs) (auto split: option.splits)

lemma last_call_none: "key \<notin> redis_key ` set cs \<Longrightarrow> last_call key cs = None"
  by (induction cs) auto

lemma demo_env_redis_ok: "redis_ok (demo_env clk flt)"
  by (simp add: redis_ok_def demo_env_def ttl_reply_def last_call_append last_call_none)

lemma demo_env_reliable: "reliable (demo_env clk (\<lambda>_. NoFault))"
  by (simp add: reliable_def demo_env_def)

section \<open>Running the actions\<close>

lemma run_new_date [run_simps]: "run (new_date E) w = (Inr (clock E (w_tick w)), tick w)"
  by (simp add: new_date_def run_act)

lemma run_uuidv4 [run_simps]: "run (uuidv4 E) w = (Inr (uuid E (w_tick w)), tick w)"
  by (simp add: uuidv4_def run_act)

lemma run_remote:
  "run (remote E f) w =
    (case fault E (w_tick w) of
       NoFault \<Rightarrow> f (w_tick w) (tick w)
     | NotApplied m \<Rightarrow> (Inl (Unavailable m), tick w)
     | AppliedButLost m \<Rightarrow> (Inl (Unavailable m), snd (f (w_tick w) (tick w))))"
  by (simp add: remote_def run_act)

lemma run_remote_reliable [run_simps]:
  "reliable E \<Longrightarrow> run (remote E f) w = f (w_tick w) (tick w)"
  by (simp add: run_remote reliable_def)

lemma run_sql_reliable [run_simps]:
  "reliable E \<Longrightarrow> run (sql E st) w =
     sql_effect (st (w_tick w)) (sql_now (db_clock E (w_tick w))) (tick w)"
  by (simp add: sql_def run_remote_reliable)

lemma run_unbound: "\<exists>e. run (unbound E) w = (Inl e, tick w)"
  by (simp add: unbound_def run_remote split: fault.split)

lemma run_unbound_reliable [run_simps]: "reliable E \<Longrightarrow> run (unbound E) w = (Inl undefined_parameter, tick w)"
  by (simp add: unbound_def run_simps)

lemma sql_effect_reading [run_simps]: "sql_effect (reading q) now w = (Inr (q (w_db w)), w)"
  by (simp add: sql_effect_def reading_def)

lemma sql_effect_Inl [run_simps]:
  "st now (w_db w) = Inl e \<Longrightarrow> sql_effect st now w = (Inl (SqlErr e), w)"
  by (simp add: sql_effect_def)

lemma sql_effect_Inr [run_simps]:
  "st now (w_db w) = Inr (x, db) \<Longrightarrow> sql_effect st now w = (Inr x, w\<lparr>w_db := db\<rparr>)"
  by (simp add: sql_effect_def)

lemma tick_simps [simp]:
  "w_tick (tick w) = Suc (w_tick w)" "w_db (tick w) = w_db w" "w_redis (tick w) = w_redis w"
  "w_handlers (tick w) = w_handlers w" "w_queues (tick w) = w_queues w"
  "w_workers (tick w) = w_workers w" "w_created (tick w) = w_created w"
  "w_closed (tick w) = w_closed w" "w_jobs (tick w) = w_jobs w"
  by (simp_all add: tick_def)

end
