(* ===== verification/Repositories.thy ===== *)
theory Repositories
  imports World
begin

text \<open>
  \<open>models/repositories\<close>: the SQL statements of the three repositories as functions of the
  database, and the repository methods that send them. The two repositories with rows found by
  a unique key interpret \<open>keyed_store\<close>; the event store interprets \<open>keyed_store\<close> for its
  event ids and \<open>versioned_log\<close>, the contract the event bus relies on.
\<close>

section \<open>Column assignments\<close>

definition str_column ::
    "nat \<Rightarrow> string \<Rightarrow> sql_value \<Rightarrow> (string option \<Rightarrow> 'r) \<Rightarrow> sql_error + 'r" where
  "str_column n c v f =
     (case v of VStr s \<Rightarrow> if length s \<le> n then Inr (f (Some s)) else Inl (ER_DATA_TOO_LONG c)
      | VNull \<Rightarrow> Inr (f None) | _ \<Rightarrow> Inl (ER_WRONG_VALUE c))"

definition date_column :: "string \<Rightarrow> sql_value \<Rightarrow> (date option \<Rightarrow> 'r) \<Rightarrow> sql_error + 'r" where
  "date_column c v f =
     (case v of VDate t \<Rightarrow> Inr (f (Some (sql_datetime t)))
      | VNull \<Rightarrow> Inr (f None) | _ \<Rightarrow> Inl (ER_WRONG_VALUE c))"

definition decimal_column ::
    "nat \<Rightarrow> string \<Rightarrow> sql_value \<Rightarrow> (money option \<Rightarrow> 'r) \<Rightarrow> sql_error + 'r" where
  "decimal_column p c v f =
     (case v of VNum n \<Rightarrow> if decimal_ok p n then Inr (f (Some n))
          else Inl (ER_WARN_DATA_OUT_OF_RANGE c)
      | VNull \<Rightarrow> Inr (f None) | _ \<Rightarrow> Inl (ER_WRONG_VALUE c))"

lemmas column_defs = str_column_def date_column_def decimal_column_def

text \<open>
  \<open>LIMIT\<close> and \<open>OFFSET\<close>: a negative number is a syntax error.
\<close>

definition sql_page :: "int \<Rightarrow> int \<Rightarrow> 'r list \<Rightarrow> sql_error + 'r list" where
  "sql_page limit offset rows =
     (if limit < 0 \<or> offset < 0 then Inl ER_PARSE_ERROR
      else Inr (take (nat limit) (drop (nat offset) rows)))"

definition default_to :: "'a \<Rightarrow> 'a option \<Rightarrow> 'a" where
  "default_to d x = (case x of None \<Rightarrow> d | Some v \<Rightarrow> v)"

definition reading_page :: "(database \<Rightarrow> sql_error + 'a) \<Rightarrow> 'a stmt" where
  "reading_page q = (\<lambda>now db. case q db of Inl e \<Rightarrow> Inl e | Inr x \<Rightarrow> Inr (x, db))"

section \<open>PaymentRepository\<close>

text \<open>
  \<open>create\<close>: the statement names eight columns, so the refund columns get \<open>NULL\<close> whatever
  the object holds.
\<close>

definition payment_insert :: "payment_data \<Rightarrow> nat stmt" where
  "payment_insert d now db =
     (case first_violation
        [(length (p_orderNumber d) \<le> 64, ER_DATA_TOO_LONG ''order_number''),
         (length (p_userId d) \<le> 64, ER_DATA_TOO_LONG ''user_id''),
         (length (p_productId d) \<le> 64, ER_DATA_TOO_LONG ''product_id''),
         (decimal_ok 12 (p_amount d), ER_WARN_DATA_OUT_OF_RANGE ''amount''),
         (length (p_currency d) \<le> 3, ER_DATA_TOO_LONG ''currency''),
         ((case p_transactionId d of None \<Rightarrow> True | Some s \<Rightarrow> length s \<le> 128),
           ER_DATA_TOO_LONG ''transaction_id''),
         (find_row p_orderNumber (p_orderNumber d) (payments db) = None,
           ER_DUP_ENTRY ''payments.order_number'')] of
        Some e \<Rightarrow> Inl e
      | None \<Rightarrow>
          let n = Suc (length (payments db));
              row = payment_data.extend
                (d\<lparr>p_paidAt := map_option sql_datetime (p_paidAt d),
                   p_refundedAt := None, p_refundAmount := None, p_refundReason := None\<rparr>)
                \<lparr>p_id = n, p_createdAt = now, p_updatedAt = now\<rparr>
          in Inr (n, db\<lparr>payments := payments db @ [row]\<rparr>))"

definition payment_select :: "string \<Rightarrow> database \<Rightarrow> payment option" where
  "payment_select orderNumber db = find_row p_orderNumber orderNumber (payments db)"

definition payment_columns :: "string list" where
  "payment_columns = [''user_id'', ''product_id'', ''amount'', ''currency'', ''transaction_id'',
     ''paid_at'', ''refunded_at'', ''refund_amount'', ''refund_reason'']"

text \<open>A column that is \<open>NOT NULL\<close> refuses \<open>NULL\<close>; the keys and the status are not assigned here.\<close>

definition set_payment_column :: "string \<Rightarrow> sql_value \<Rightarrow> payment \<Rightarrow> sql_error + payment" where
  "set_payment_column c v r =
     (if c \<in> {''user_id'', ''product_id'', ''amount'', ''currency''} \<and> v = VNull
      then Inl (ER_WRONG_VALUE c)
      else if c = ''user_id'' then str_column 64 c v (\<lambda>x. r\<lparr>p_userId := the x\<rparr>)
      else if c = ''product_id'' then str_column 64 c v (\<lambda>x. r\<lparr>p_productId := the x\<rparr>)
      else if c = ''amount'' then decimal_column 12 c v (\<lambda>x. r\<lparr>p_amount := the x\<rparr>)
      else if c = ''currency'' then str_column 3 c v (\<lambda>x. r\<lparr>p_currency := the x\<rparr>)
      else if c = ''transaction_id'' then str_column 128 c v (\<lambda>x. r\<lparr>p_transactionId := x\<rparr>)
      else if c = ''paid_at'' then date_column c v (\<lambda>x. r\<lparr>p_paidAt := x\<rparr>)
      else if c = ''refunded_at'' then date_column c v (\<lambda>x. r\<lparr>p_refundedAt := x\<rparr>)
      else if c = ''refund_amount'' then decimal_column 12 c v (\<lambda>x. r\<lparr>p_refundAmount := x\<rparr>)
      else if c = ''refund_reason'' then str_column 65535 c v (\<lambda>x. r\<lparr>p_refundReason := x\<rparr>)
      else Inl (ER_BAD_FIELD_ERROR c))"

definition payment_set_row ::
    "payment_status \<Rightarrow> (string \<times> sql_value) list \<Rightarrow> date \<Rightarrow> payment \<Rightarrow> sql_error + payment" where
  "payment_set_row status sets now r =
     (case apply_sets set_payment_column sets (r\<lparr>p_status := status\<rparr>) of
        Inl e \<Rightarrow> Inl e | Inr r' \<Rightarrow> Inr (r'\<lparr>p_updatedAt := now\<rparr>))"

definition payment_update ::
    "string \<Rightarrow> payment_status \<Rightarrow> (string \<times> sql_value) list \<Rightarrow> unit stmt" where
  "payment_update orderNumber status extra now db =
     (let sets = map (\<lambda>(k, v). (column_name k, v)) extra
      in case find (\<lambda>s. fst s \<notin> set payment_columns) sets of
           Some s \<Rightarrow> Inl (ER_BAD_FIELD_ERROR (fst s))
         | None \<Rightarrow>
             (case update_where (\<lambda>r. p_orderNumber r = orderNumber)
                     (payment_set_row status sets now) (payments db) of
                Inl e \<Rightarrow> Inl e
              | Inr rows \<Rightarrow> Inr ((), db\<lparr>payments := rows\<rparr>)))"

definition PaymentRepository_create :: "env \<Rightarrow> payment_data \<Rightarrow> nat io" where
  "PaymentRepository_create E d = sql E (\<lambda>_. payment_insert d)"

definition PaymentRepository_findByOrderNumber :: "env \<Rightarrow> string \<Rightarrow> payment option io" where
  "PaymentRepository_findByOrderNumber E orderNumber =
     sql E (\<lambda>_. reading (payment_select orderNumber))"

definition PaymentRepository_findByUserId ::
    "env \<Rightarrow> string \<Rightarrow> int option \<Rightarrow> int option \<Rightarrow> payment list io" where
  "PaymentRepository_findByUserId E userId limit offset =
     sql E (\<lambda>n. reading_page (\<lambda>db.
       sql_page (default_to 20 limit) (default_to 0 offset)
         (sort_key (\<lambda>r. - p_createdAt r)
           (filter (\<lambda>r. p_userId r = userId) (payment_order E n (payments db))))))"

definition PaymentRepository_updateStatus ::
    "env \<Rightarrow> string \<Rightarrow> payment_status \<Rightarrow> (string \<times> sql_value) list \<Rightarrow> unit io" where
  "PaymentRepository_updateStatus E orderNumber status extra =
     sql E (\<lambda>_. payment_update orderNumber status extra)"

definition PaymentRepository_existsByOrderNumber :: "env \<Rightarrow> string \<Rightarrow> bool io" where
  "PaymentRepository_existsByOrderNumber E orderNumber =
     sql E (\<lambda>_. reading (\<lambda>db.
       0 < length (take 1 (filter (\<lambda>r. p_orderNumber r = orderNumber) (payments db)))))"

section \<open>SubscriptionRepository\<close>

definition subscription_insert :: "subscription_data \<Rightarrow> nat stmt" where
  "subscription_insert d now db =
     (case first_violation
        [(length (ns_subscriptionId d) \<le> 64, ER_DATA_TOO_LONG ''subscription_id''),
         (length (ns_userId d) \<le> 64, ER_DATA_TOO_LONG ''user_id''),
         (length (ns_planId d) \<le> 64, ER_DATA_TOO_LONG ''plan_id''),
         (plan_of_str (ns_plan d) \<noteq> None, WARN_DATA_TRUNCATED ''plan''),
         (find_row s_subscriptionId (ns_subscriptionId d) (subscriptions db) = None,
           ER_DUP_ENTRY ''subscriptions.subscription_id'')] of
        Some e \<Rightarrow> Inl e
      | None \<Rightarrow>
          let n = Suc (length (subscriptions db));
              row = \<lparr>s_id = n, s_subscriptionId = ns_subscriptionId d, s_userId = ns_userId d,
                s_planId = ns_planId d, s_plan = the (plan_of_str (ns_plan d)),
                s_status = ns_status d, s_startDate = sql_datetime (ns_startDate d),
                s_endDate = sql_datetime (ns_endDate d), s_cancelledAt = None,
                s_cancelReason = None, s_autoRenew = ns_autoRenew d,
                s_createdAt = now, s_updatedAt = now\<rparr>
          in Inr (n, db\<lparr>subscriptions := subscriptions db @ [row]\<rparr>))"

definition subscription_select :: "string \<Rightarrow> database \<Rightarrow> subscription option" where
  "subscription_select subscriptionId db =
     find_row s_subscriptionId subscriptionId (subscriptions db)"

definition subscription_columns :: "string list" where
  "subscription_columns = [''user_id'', ''plan_id'', ''start_date'', ''end_date'',
     ''cancelled_at'', ''cancel_reason'', ''auto_renew'']"

definition set_subscription_column ::
    "string \<Rightarrow> sql_value \<Rightarrow> subscription \<Rightarrow> sql_error + subscription" where
  "set_subscription_column c v r =
     (if c \<in> {''user_id'', ''plan_id'', ''start_date'', ''end_date'', ''auto_renew''} \<and> v = VNull
      then Inl (ER_WRONG_VALUE c)
      else if c = ''user_id'' then str_column 64 c v (\<lambda>x. r\<lparr>s_userId := the x\<rparr>)
      else if c = ''plan_id'' then str_column 64 c v (\<lambda>x. r\<lparr>s_planId := the x\<rparr>)
      else if c = ''start_date'' then date_column c v (\<lambda>x. r\<lparr>s_startDate := the x\<rparr>)
      else if c = ''end_date'' then date_column c v (\<lambda>x. r\<lparr>s_endDate := the x\<rparr>)
      else if c = ''cancelled_at'' then date_column c v (\<lambda>x. r\<lparr>s_cancelledAt := x\<rparr>)
      else if c = ''cancel_reason'' then str_column 65535 c v (\<lambda>x. r\<lparr>s_cancelReason := x\<rparr>)
      else if c = ''auto_renew'' then
        (case v of VBool b \<Rightarrow> Inr (r\<lparr>s_autoRenew := b\<rparr>) | _ \<Rightarrow> Inl (ER_WRONG_VALUE c))
      else Inl (ER_BAD_FIELD_ERROR c))"

definition subscription_set_row ::
    "subscription_status \<Rightarrow> (string \<times> sql_value) list \<Rightarrow> date \<Rightarrow> subscription \<Rightarrow>
      sql_error + subscription" where
  "subscription_set_row status sets now r =
     (case apply_sets set_subscription_column sets (r\<lparr>s_status := status\<rparr>) of
        Inl e \<Rightarrow> Inl e | Inr r' \<Rightarrow> Inr (r'\<lparr>s_updatedAt := now\<rparr>))"

definition subscription_update ::
    "string \<Rightarrow> subscription_status \<Rightarrow> (string \<times> sql_value) list \<Rightarrow> unit stmt" where
  "subscription_update subscriptionId status extra now db =
     (let sets = map (\<lambda>(k, v). (column_name k, v)) extra
      in case find (\<lambda>s. fst s \<notin> set subscription_columns) sets of
           Some s \<Rightarrow> Inl (ER_BAD_FIELD_ERROR (fst s))
         | None \<Rightarrow>
             (case update_where (\<lambda>r. s_subscriptionId r = subscriptionId)
                     (subscription_set_row status sets now) (subscriptions db) of
                Inl e \<Rightarrow> Inl e
              | Inr rows \<Rightarrow> Inr ((), db\<lparr>subscriptions := rows\<rparr>)))"

definition renew_row :: "date \<Rightarrow> date \<Rightarrow> subscription \<Rightarrow> subscription" where
  "renew_row newEndDate now r =
     r\<lparr>s_endDate := sql_datetime newEndDate, s_status := ACTIVE, s_updatedAt := now\<rparr>"

definition subscription_renew :: "string \<Rightarrow> date \<Rightarrow> unit stmt" where
  "subscription_renew subscriptionId newEndDate now db =
     (case update_where (\<lambda>r. s_subscriptionId r = subscriptionId)
             (\<lambda>r. Inr (renew_row newEndDate now r)) (subscriptions db) of
        Inl e \<Rightarrow> Inl e
      | Inr rows \<Rightarrow> Inr ((), db\<lparr>subscriptions := rows\<rparr>))"

text \<open>The rows of the scan for renewals: \<open>ACTIVE\<close>, renewing, and past their end date.\<close>

definition due_for_renewal :: "date \<Rightarrow> subscription \<Rightarrow> bool" where
  "due_for_renewal now r \<longleftrightarrow> s_status r = ACTIVE \<and> s_autoRenew r \<and> s_endDate r \<le> now"

definition SubscriptionRepository_create :: "env \<Rightarrow> subscription_data \<Rightarrow> nat io" where
  "SubscriptionRepository_create E d = sql E (\<lambda>_. subscription_insert d)"

definition SubscriptionRepository_findBySubscriptionId ::
    "env \<Rightarrow> string \<Rightarrow> subscription option io" where
  "SubscriptionRepository_findBySubscriptionId E subscriptionId =
     sql E (\<lambda>_. reading (subscription_select subscriptionId))"

definition SubscriptionRepository_findActiveByUserId ::
    "env \<Rightarrow> string \<Rightarrow> subscription option io" where
  "SubscriptionRepository_findActiveByUserId E userId =
     sql E (\<lambda>n. reading (\<lambda>db.
       find (\<lambda>r. s_userId r = userId \<and> s_status r = ACTIVE)
         (subscription_order E n (subscriptions db))))"

definition SubscriptionRepository_findExpiredForRenewal ::
    "env \<Rightarrow> int option \<Rightarrow> subscription list io" where
  "SubscriptionRepository_findExpiredForRenewal E batchSize =
     sql E (\<lambda>n now. reading_page (\<lambda>db.
       sql_page (default_to 50 batchSize) 0
         (sort_key s_endDate
           (filter (due_for_renewal now) (subscription_order E n (subscriptions db))))) now)"

definition SubscriptionRepository_updateStatus ::
    "env \<Rightarrow> string \<Rightarrow> subscription_status \<Rightarrow> (string \<times> sql_value) list \<Rightarrow> unit io" where
  "SubscriptionRepository_updateStatus E subscriptionId status extra =
     sql E (\<lambda>_. subscription_update subscriptionId status extra)"

definition SubscriptionRepository_renewSubscription :: "env \<Rightarrow> string \<Rightarrow> date \<Rightarrow> unit io" where
  "SubscriptionRepository_renewSubscription E subscriptionId newEndDate =
     sql E (\<lambda>_. subscription_renew subscriptionId newEndDate)"

section \<open>EventStoreRepository\<close>

definition event_insert :: "domain_event \<Rightarrow> nat stmt" where
  "event_insert ev now db =
     (case first_violation
        [(length (e_id ev) \<le> 36, ER_DATA_TOO_LONG ''event_id''),
         (length (event_type_str (e_type ev)) \<le> 64, ER_DATA_TOO_LONG ''event_type''),
         (length (e_aggregateId ev) \<le> 128, ER_DATA_TOO_LONG ''aggregate_id''),
         (length (e_aggregateType ev) \<le> 64, ER_DATA_TOO_LONG ''aggregate_type''),
         (int_ok (e_version ev), ER_WARN_DATA_OUT_OF_RANGE ''version''),
         (find_row se_eventId (e_id ev) (event_store db) = None,
           ER_DUP_ENTRY ''event_store.event_id''),
         (find_row (\<lambda>r. (se_aggregateId r, se_version r)) (e_aggregateId ev, e_version ev)
            (event_store db) = None,
           ER_DUP_ENTRY ''event_store.idx_aggregate_version'')] of
        Some e \<Rightarrow> Inl e
      | None \<Rightarrow>
          let n = Suc (length (event_store db));
              row = \<lparr>se_id = n, se_eventId = e_id ev, se_eventType = event_type_str (e_type ev),
                se_aggregateId = e_aggregateId ev, se_aggregateType = e_aggregateType ev,
                se_payload = json_of_payload (e_payload ev), se_version = e_version ev,
                se_occurredAt = sql_datetime (e_occurredAt ev), se_createdAt = now\<rparr>
          in Inr (n, db\<lparr>event_store := event_store db @ [row]\<rparr>))"

definition events_of :: "string \<Rightarrow> database \<Rightarrow> stored_event list" where
  "events_of aggregateId db = filter (\<lambda>r. se_aggregateId r = aggregateId) (event_store db)"

definition latest_version :: "string \<Rightarrow> database \<Rightarrow> int" where
  "latest_version aggregateId db =
     (let vs = map se_version (events_of aggregateId db)
      in if vs = [] then 0 else Max (set vs))"

definition EventStoreRepository_append :: "env \<Rightarrow> domain_event \<Rightarrow> nat io" where
  "EventStoreRepository_append E ev = sql E (\<lambda>_. event_insert ev)"

definition EventStoreRepository_findByAggregateId :: "env \<Rightarrow> string \<Rightarrow> stored_event list io" where
  "EventStoreRepository_findByAggregateId E aggregateId =
     sql E (\<lambda>_. reading (\<lambda>db. sort_key se_version (events_of aggregateId db)))"

definition EventStoreRepository_findByType ::
    "env \<Rightarrow> string \<Rightarrow> int option \<Rightarrow> int option \<Rightarrow> stored_event list io" where
  "EventStoreRepository_findByType E eventType limit offset =
     sql E (\<lambda>n. reading_page (\<lambda>db.
       sql_page (default_to 50 limit) (default_to 0 offset)
         (sort_key (\<lambda>r. - se_occurredAt r)
           (filter (\<lambda>r. se_eventType r = eventType) (event_order E n (event_store db))))))"

definition EventStoreRepository_findRecent :: "env \<Rightarrow> int option \<Rightarrow> stored_event list io" where
  "EventStoreRepository_findRecent E limit =
     sql E (\<lambda>n. reading_page (\<lambda>db.
       sql_page (default_to 100 limit) 0
         (sort_key (\<lambda>r. - se_occurredAt r) (event_order E n (event_store db)))))"

definition EventStoreRepository_getLatestVersion :: "env \<Rightarrow> string \<Rightarrow> int io" where
  "EventStoreRepository_getLatestVersion E aggregateId =
     sql E (\<lambda>_. reading (latest_version aggregateId))"

lemmas repository_defs =
  PaymentRepository_create_def PaymentRepository_findByOrderNumber_def
  PaymentRepository_updateStatus_def SubscriptionRepository_create_def
  SubscriptionRepository_findBySubscriptionId_def SubscriptionRepository_findActiveByUserId_def
  SubscriptionRepository_findExpiredForRenewal_def SubscriptionRepository_updateStatus_def
  SubscriptionRepository_renewSubscription_def EventStoreRepository_append_def
  EventStoreRepository_getLatestVersion_def EventStoreRepository_findByAggregateId_def

end
