(* ===== verification/Stores.thy ===== *)
theory Stores
  imports Repositories
begin

text \<open>
  Facts about the repositories' statements: the interpretations of \<open>keyed_store\<close> for
  payments, subscriptions and events; what an update statement does to the rows; and the
  contract \<open>versioned_log\<close> between the event store and the event bus, with its interpretation.
  The log is gapless when the versions of each aggregate are \<open>1, 2, ..., n\<close> in the order they
  were stored; the unique index on (aggregate, version) is what keeps it so when two writers
  have read the same latest version.
\<close>

section \<open>Inserts\<close>

lemma payment_insert_Inr:
  "payment_insert d now db = Inr (n, db') \<longleftrightarrow>
    length (p_orderNumber d) \<le> 64 \<and> length (p_userId d) \<le> 64 \<and> length (p_productId d) \<le> 64 \<and>
    decimal_ok 12 (p_amount d) \<and> length (p_currency d) \<le> 3 \<and>
    (\<forall>s. p_transactionId d = Some s \<longrightarrow> length s \<le> 128) \<and>
    find_row p_orderNumber (p_orderNumber d) (payments db) = None \<and>
    n = Suc (length (payments db)) \<and>
    db' = db\<lparr>payments := payments db @ [payment_data.extend
      (d\<lparr>p_paidAt := map_option sql_datetime (p_paidAt d), p_refundedAt := None,
         p_refundAmount := None, p_refundReason := None\<rparr>)
      \<lparr>p_id = n, p_createdAt = now, p_updatedAt = now\<rparr>]\<rparr>"
  by (auto simp: payment_insert_def Let_def split: option.splits if_splits)

lemma subscription_insert_Inr:
  "subscription_insert d now db = Inr (n, db') \<longleftrightarrow>
    length (ns_subscriptionId d) \<le> 64 \<and> length (ns_userId d) \<le> 64 \<and> length (ns_planId d) \<le> 64 \<and>
    plan_of_str (ns_plan d) \<noteq> None \<and>
    find_row s_subscriptionId (ns_subscriptionId d) (subscriptions db) = None \<and>
    n = Suc (length (subscriptions db)) \<and>
    db' = db\<lparr>subscriptions := subscriptions db @ [
      \<lparr>s_id = n, s_subscriptionId = ns_subscriptionId d, s_userId = ns_userId d,
       s_planId = ns_planId d, s_plan = the (plan_of_str (ns_plan d)),
       s_status = ns_status d, s_startDate = sql_datetime (ns_startDate d),
       s_endDate = sql_datetime (ns_endDate d), s_cancelledAt = None,
       s_cancelReason = None, s_autoRenew = ns_autoRenew d,
       s_createdAt = now, s_updatedAt = now\<rparr>]\<rparr>"
  by (auto simp: subscription_insert_def Let_def split: option.splits if_splits)

definition stored_row :: "domain_event \<Rightarrow> date \<Rightarrow> nat \<Rightarrow> stored_event" where
  "stored_row ev now n =
     \<lparr>se_id = n, se_eventId = e_id ev, se_eventType = event_type_str (e_type ev),
      se_aggregateId = e_aggregateId ev, se_aggregateType = e_aggregateType ev,
      se_payload = json_of_payload (e_payload ev), se_version = e_version ev,
      se_occurredAt = sql_datetime (e_occurredAt ev), se_createdAt = now\<rparr>"

lemma stored_row_simps [simp]:
  "se_id (stored_row ev now n) = n" "se_eventId (stored_row ev now n) = e_id ev"
  "se_eventType (stored_row ev now n) = event_type_str (e_type ev)"
  "se_aggregateId (stored_row ev now n) = e_aggregateId ev"
  "se_version (stored_row ev now n) = e_version ev"
  "se_payload (stored_row ev now n) = json_of_payload (e_payload ev)"
  by (simp_all add: stored_row_def)

lemma event_type_str_length: "length (event_type_str t) \<le> 64"
  by (cases t) simp_all

definition event_fits :: "domain_event \<Rightarrow> bool" where
  "event_fits ev \<longleftrightarrow> length (e_id ev) \<le> 36 \<and> length (e_aggregateId ev) \<le> 128
     \<and> length (e_aggregateType ev) \<le> 64 \<and> int_ok (e_version ev)"

lemma event_insert_Inr:
  "event_insert ev now db = Inr (n, db') \<longleftrightarrow>
    event_fits ev \<and> find_row se_eventId (e_id ev) (event_store db) = None \<and>
    find_row (\<lambda>r. (se_aggregateId r, se_version r)) (e_aggregateId ev, e_version ev)
      (event_store db) = None \<and>
    n = Suc (length (event_store db)) \<and>
    db' = db\<lparr>event_store := event_store db @ [stored_row ev now n]\<rparr>"
  by (auto simp: event_insert_def Let_def event_fits_def stored_row_def event_type_str_length
      split: option.splits if_splits)

interpretation payment_table: keyed_store payments p_orderNumber p_orderNumber
    payment_select payment_insert
proof
  show "payment_select k db = find_row p_orderNumber k (payments db)" for k db
    by (simp add: payment_select_def)
  show "\<exists>r. payments db' = payments db @ [r] \<and> p_orderNumber r = p_orderNumber d"
    if "payment_insert d now db = Inr (n, db')" for d now db n db'
    using that by (simp add: payment_insert_Inr payment_data.extend_def)
  show "\<exists>e. payment_insert d now db = Inl e" if "p_orderNumber d \<in> p_orderNumber ` set (payments db)"
    for d now db
  proof (cases "payment_insert d now db")
    case (Inr x)
    with that show ?thesis by (cases x) (simp add: payment_insert_Inr find_row_None)
  qed simp
qed

interpretation subscription_table: keyed_store subscriptions s_subscriptionId ns_subscriptionId
    subscription_select subscription_insert
proof
  show "subscription_select k db = find_row s_subscriptionId k (subscriptions db)" for k db
    by (simp add: subscription_select_def)
  show "\<exists>r. subscriptions db' = subscriptions db @ [r] \<and> s_subscriptionId r = ns_subscriptionId d"
    if "subscription_insert d now db = Inr (n, db')" for d now db n db'
    using that by (simp add: subscription_insert_Inr)
  show "\<exists>e. subscription_insert d now db = Inl e"
    if "ns_subscriptionId d \<in> s_subscriptionId ` set (subscriptions db)" for d now db
  proof (cases "subscription_insert d now db")
    case (Inr x)
    with that show ?thesis by (cases x) (simp add: subscription_insert_Inr find_row_None)
  qed simp
qed

definition event_select :: "string \<Rightarrow> database \<Rightarrow> stored_event option" where
  "event_select eventId db = find_row se_eventId eventId (event_store db)"

interpretation event_table: keyed_store event_store se_eventId e_id event_select event_insert
proof
  show "event_select k db = find_row se_eventId k (event_store db)" for k db
    by (simp add: event_select_def)
  show "\<exists>r. event_store db' = event_store db @ [r] \<and> se_eventId r = e_id d"
    if "event_insert d now db = Inr (n, db')" for d now db n db'
    using that by (simp add: event_insert_Inr)
  show "\<exists>e. event_insert d now db = Inl e" if "e_id d \<in> se_eventId ` set (event_store db)" for d now db
  proof (cases "event_insert d now db")
    case (Inr x)
    with that show ?thesis by (cases x) (simp add: event_insert_Inr find_row_None)
  qed simp
qed

section \<open>Updates\<close>

lemma payment_update_Inr:
  assumes "payment_update on st extra now db = Inr (u, db')"
  obtains rows where "db' = db\<lparr>payments := rows\<rparr>"
    "update_where (\<lambda>r. p_orderNumber r = on)
       (payment_set_row st (map (\<lambda>(k, v). (column_name k, v)) extra) now) (payments db) = Inr rows"
  using assms by (auto simp: payment_update_def Let_def split: option.splits sum.splits)

lemma subscription_update_Inr:
  assumes "subscription_update sid st extra now db = Inr (u, db')"
  obtains rows where "db' = db\<lparr>subscriptions := rows\<rparr>"
    "update_where (\<lambda>r. s_subscriptionId r = sid)
       (subscription_set_row st (map (\<lambda>(k, v). (column_name k, v)) extra) now) (subscriptions db)
     = Inr rows"
  using assms by (auto simp: subscription_update_def Let_def split: option.splits sum.splits)

lemma set_payment_column_key:
  "set_payment_column c v r = Inr r' \<Longrightarrow> p_orderNumber r' = p_orderNumber r \<and> p_status r' = p_status r"
  by (auto simp: set_payment_column_def column_defs split: if_splits sql_value.splits)

lemma payment_set_row_key:
  assumes "payment_set_row st sets now r = Inr r'"
  shows "p_orderNumber r' = p_orderNumber r" "p_status r' = st"
proof -
  from assms obtain r1 where r1: "apply_sets set_payment_column sets (r\<lparr>p_status := st\<rparr>) = Inr r1"
    "r' = r1\<lparr>p_updatedAt := now\<rparr>"
    by (auto simp: payment_set_row_def split: sum.splits)
  from apply_sets_keeps [OF r1(1), where h = p_orderNumber] set_payment_column_key r1(2)
  show "p_orderNumber r' = p_orderNumber r" by fastforce
  from apply_sets_keeps [OF r1(1), where h = p_status] set_payment_column_key r1(2)
  show "p_status r' = st" by fastforce
qed

lemma set_subscription_column_key:
  "set_subscription_column c v r = Inr r' \<Longrightarrow>
    s_subscriptionId r' = s_subscriptionId r \<and> s_status r' = s_status r \<and> s_plan r' = s_plan r"
  by (auto simp: set_subscription_column_def column_defs split: if_splits sql_value.splits)

lemma subscription_set_row_key:
  assumes "subscription_set_row st sets now r = Inr r'"
  shows "s_subscriptionId r' = s_subscriptionId r" "s_status r' = st"
proof -
  from assms obtain r1 where r1: "apply_sets set_subscription_column sets (r\<lparr>s_status := st\<rparr>) = Inr r1"
    "r' = r1\<lparr>s_updatedAt := now\<rparr>"
    by (auto simp: subscription_set_row_def split: sum.splits)
  from apply_sets_keeps [OF r1(1), where h = s_subscriptionId] set_subscription_column_key r1(2)
  show "s_subscriptionId r' = s_subscriptionId r" by fastforce
  from apply_sets_keeps [OF r1(1), where h = s_status] set_subscription_column_key r1(2)
  show "s_status r' = st" by fastforce
qed

lemma payment_update_keys:
  assumes "payment_update on st extra now db = Inr (u, db')"
  shows "map p_orderNumber (payments db') = map p_orderNumber (payments db)"
    "subscriptions db' = subscriptions db" "event_store db' = event_store db"
    "payment_summary db' = payment_summary db"
  using assms payment_set_row_key
  by (auto elim!: payment_update_Inr dest: update_where_keys [where key = p_orderNumber])

lemma subscription_update_keys:
  assumes "subscription_update sid st extra now db = Inr (u, db')"
  shows "map s_subscriptionId (subscriptions db') = map s_subscriptionId (subscriptions db)"
    "payments db' = payments db" "event_store db' = event_store db"
    "payment_summary db' = payment_summary db"
  using assms subscription_set_row_key
  by (auto elim!: subscription_update_Inr dest: update_where_keys [where key = s_subscriptionId])

lemma subscription_renew_keys:
  assumes "subscription_renew sid newEnd now db = Inr (u, db')"
  shows "map s_subscriptionId (subscriptions db') = map s_subscriptionId (subscriptions db)"
    "payments db' = payments db" "event_store db' = event_store db"
    "payment_summary db' = payment_summary db"
  using assms
  by (auto simp: subscription_renew_def renew_row_def split: sum.splits
      dest: update_where_keys [where key = s_subscriptionId])

section \<open>The event log\<close>

locale versioned_log =
  fixes versions :: "'a \<Rightarrow> 'db \<Rightarrow> int list" and latest :: "'a \<Rightarrow> 'db \<Rightarrow> int"
    and append :: "'e \<Rightarrow> date \<Rightarrow> 'db \<Rightarrow> sql_error + (nat \<times> 'db)"
    and agg :: "'e \<Rightarrow> 'a" and ver :: "'e \<Rightarrow> int"
  assumes latest_versions: "latest a db = (if versions a db = [] then 0 else Max (set (versions a db)))"
    and append_versions: "append e now db = Inr (n, db') \<Longrightarrow>
      versions a db' = (if a = agg e then versions a db @ [ver e] else versions a db)"
    and append_fresh: "append e now db = Inr (n, db') \<Longrightarrow> ver e \<notin> set (versions (agg e) db)"
begin

abbreviation "gapless a db \<equiv> versions a db = map int [1..<Suc (length (versions a db))]"

lemma set_gapless: "gapless a db \<Longrightarrow> set (versions a db) = {1..int (length (versions a db))}"
proof -
  assume g: "gapless a db"
  have "int ` {1..<Suc n} = {1..int n}" for n
  proof -
    have "{1..<Suc n} = {1..n}" by auto
    then show ?thesis by (simp only: image_int_atLeastAtMost) simp
  qed
  then show ?thesis using g by (metis set_map set_upt)
qed

lemma latest_gapless: "gapless a db \<Longrightarrow> latest a db = int (length (versions a db))"
proof -
  assume g: "gapless a db"
  show ?thesis
  proof (cases "versions a db = []")
    case True
    then show ?thesis by (simp add: latest_versions)
  next
    case False
    then have "Max {1..int (length (versions a db))} = int (length (versions a db))"
      by (intro Max_eqI) (auto simp: Suc_le_eq)
    with False set_gapless [OF g] show ?thesis by (simp add: latest_versions)
  qed
qed

text \<open>
  A writer that computed its version as one more than a latest version read earlier, with more
  events appended since, is either refused or appends the next version.
\<close>

lemma append_gapless:
  assumes "append e now db = Inr (n, db')" "\<And>a. gapless a db"
    and "1 \<le> ver e" "ver e \<le> latest (agg e) db + 1"
  shows "gapless a db'"
proof (cases "a = agg e")
  case True
  from assms(2) have g: "gapless a db" .
  from append_fresh [OF assms(1)] set_gapless [OF g] True assms(3,4) latest_gapless [OF g]
  have v: "ver e = int (length (versions a db)) + 1" by auto
  from append_versions [OF assms(1)] True have "versions a db' = versions a db @ [ver e]" by simp
  moreover have "versions a db @ [ver e] = map int [1..<Suc (length (versions a db))] @ [ver e]"
    using g by metis
  ultimately show ?thesis using v by simp
next
  case False
  with append_versions [OF assms(1)] assms(2) show ?thesis by simp
qed

lemma latest_nonneg: "gapless a db \<Longrightarrow> 0 \<le> latest a db"
  by (simp add: latest_gapless)

end

definition versions_of :: "string \<Rightarrow> database \<Rightarrow> int list" where
  "versions_of a db = map se_version (events_of a db)"

interpretation event_log: versioned_log versions_of latest_version event_insert e_aggregateId e_version
proof
  show "latest_version a db = (if versions_of a db = [] then 0 else Max (set (versions_of a db)))" for a db
    by (simp add: latest_version_def versions_of_def Let_def)
  show "versions_of a db' = (if a = e_aggregateId e then versions_of a db @ [e_version e] else versions_of a db)"
    if "event_insert e now db = Inr (n, db')" for a e now db n db'
    using that by (auto simp: event_insert_Inr versions_of_def events_of_def)
  show "e_version e \<notin> set (versions_of (e_aggregateId e) db)"
    if "event_insert e now db = Inr (n, db')" for e now db n db'
    using that by (force simp: event_insert_Inr versions_of_def events_of_def find_row_None)
qed

text \<open>Appending to the log never lowers a latest version.\<close>

lemma latest_version_mono:
  assumes "prefix (event_store db) (event_store db')" "\<forall>v \<in> set (versions_of a db'). 0 \<le> v"
  shows "latest_version a db \<le> latest_version a db'"
proof -
  from assms(1) obtain zs where zs: "event_store db' = event_store db @ zs" by (auto elim: prefixE)
  then have sub: "set (versions_of a db) \<subseteq> set (versions_of a db')"
    by (auto simp: versions_of_def events_of_def)
  show ?thesis
  proof (cases "versions_of a db = []")
    case True
    then have "latest_version a db = 0" by (simp add: event_log.latest_versions)
    moreover have "0 \<le> latest_version a db'"
      using assms(2) Max_in [of "set (versions_of a db')"]
      by (auto simp: event_log.latest_versions)
    ultimately show ?thesis by simp
  next
    case False
    with sub have ne: "versions_of a db' \<noteq> []" by auto
    with False have "Max (set (versions_of a db)) \<le> Max (set (versions_of a db'))"
      using sub by (intro Max_mono) auto
    with False ne show ?thesis by (simp add: event_log.latest_versions)
  qed
qed

end
