(* ===== verification/Services.thy ===== *)
theory Services
  imports World
begin

text \<open>
  \<open>config/redis.ts\<close> and \<open>queues/QueueManager.ts\<close>: the wrapper of the Redis client, and the
  registry of BullMQ queues and workers. Redis itself is the environment's \<open>redis_reply\<close> over
  the commands sent so far; BullMQ is the list of jobs added, in order.
\<close>

section \<open>RedisClient\<close>

definition RedisClient_get :: "env \<Rightarrow> string \<Rightarrow> string option io" where
  "RedisClient_get E key =
     remote E (\<lambda>n w. (Inr (redis_reply E (w_redis w) n key), w))"

text \<open>\<open>if (ttlSeconds)\<close>: a missing time to live and 0 both send a plain \<open>SET\<close>.\<close>

definition RedisClient_set :: "env \<Rightarrow> string \<Rightarrow> string \<Rightarrow> int option \<Rightarrow> unit io" where
  "RedisClient_set E key v ttlSeconds =
     remote E (\<lambda>n w. (Inr (), w\<lparr>w_redis := w_redis w @
       [RSet n key v (case ttlSeconds of Some s \<Rightarrow> (if s = 0 then None else Some s) | None \<Rightarrow> None)]\<rparr>))"

definition RedisClient_del :: "env \<Rightarrow> string \<Rightarrow> unit io" where
  "RedisClient_del E key = remote E (\<lambda>n w. (Inr (), w\<lparr>w_redis := w_redis w @ [RDel n key]\<rparr>))"

section \<open>QueueManager\<close>

fun queue_name_str :: "queue_name \<Rightarrow> string" where
  "queue_name_str PAYMENT_PROCESSING = ''payment-processing''"
| "queue_name_str SUBSCRIPTION_RENEWAL = ''subscription-renewal''"
| "queue_name_str DEAD_LETTER = ''dead-letter''"

definition getOrCreateQueue :: "queue_name \<Rightarrow> queue io" where
  "getOrCreateQueue name = act (\<lambda>w.
     case map_of (w_queues w) name of
       Some q \<Rightarrow> (Inr q, w)
     | None \<Rightarrow>
         let q = \<lparr>q_name = name, q_handle = w_created w\<rparr>
         in (Inr q, w\<lparr>w_queues := AList.update name q (w_queues w), w_created := Suc (w_created w)\<rparr>))"

definition createWorker :: "queue_name \<Rightarrow> processor_ref \<Rightarrow> nat option \<Rightarrow> worker io" where
  "createWorker name processor concurrency = act (\<lambda>w.
     let wk = \<lparr>wk_name = name, wk_processor = processor,
               wk_concurrency = (case concurrency of None \<Rightarrow> 5 | Some c \<Rightarrow> c),
               wk_handle = w_created w\<rparr>
     in (Inr wk, w\<lparr>w_workers := AList.update name wk (w_workers w),
                   w_created := Suc (w_created w)\<rparr>))"

definition getQueue :: "queue_name \<Rightarrow> world \<Rightarrow> queue option" where
  "getQueue name w = map_of (w_queues w) name"

definition close_handle :: "env \<Rightarrow> nat \<Rightarrow> unit io" where
  "close_handle E h = remote E (\<lambda>n w. (Inr (), w\<lparr>w_closed := w_closed w @ [h]\<rparr>))"

text \<open>
  \<open>for (const x of map.values()) await x.close();\<close>: the iterator keeps a position in the map itself, so
  what is in the map when its turn comes is closed, entries added during the loop included. A key
  is one of three queue names, so three turns are enough (\<open>closing_enough\<close>).
\<close>

primrec close_from :: "env \<Rightarrow> (world \<Rightarrow> nat list) \<Rightarrow> nat \<Rightarrow> nat \<Rightarrow> unit io" where
  "close_from E handles i 0 = Done ()"
| "close_from E handles i (Suc turns) =
     seq (act (\<lambda>w. (Inr (if i < length (handles w) then Some (handles w ! i) else None), w))) (\<lambda>next.
     case next of
       None \<Rightarrow> Done ()
     | Some h \<Rightarrow> seq (close_handle E h) (\<lambda>_. close_from E handles (Suc i) turns))"

definition worker_handles :: "world \<Rightarrow> nat list" where
  "worker_handles w = map (wk_handle \<circ> snd) (w_workers w)"

definition queue_handles :: "world \<Rightarrow> nat list" where
  "queue_handles w = map (q_handle \<circ> snd) (w_queues w)"

definition closeAll :: "env \<Rightarrow> unit io" where
  "closeAll E =
     seq (close_from E worker_handles 0 3) (\<lambda>_.
     close_from E queue_handles 0 3)"

text \<open>\<open>queue.add(name, data, options)\<close>.\<close>

definition queue_add :: "env \<Rightarrow> queue \<Rightarrow> string \<Rightarrow> job_data \<Rightarrow> job_options \<Rightarrow> unit io" where
  "queue_add E q name d opts =
     remote E (\<lambda>n w. (Inr (), w\<lparr>w_jobs := w_jobs w @
       [\<lparr>jc_queue = q, jc_name = name, jc_data = d, jc_options = opts\<rparr>]\<rparr>))"

definition no_options :: job_options where
  "no_options = \<lparr>jo_attempts = None, jo_backoff = None, jo_repeatEvery = None, jo_jobId = None\<rparr>"

lemma run_RedisClient_get [run_simps]:
  "reliable E \<Longrightarrow> run (RedisClient_get E key) w =
     (Inr (redis_reply E (w_redis w) (w_tick w) key), tick w)"
  by (simp add: RedisClient_get_def run_simps)

lemma run_RedisClient_set [run_simps]:
  "reliable E \<Longrightarrow> run (RedisClient_set E key v (Some s)) w =
     (Inr (), (tick w)\<lparr>w_redis := w_redis w @
        [RSet (w_tick w) key v (if s = 0 then None else Some s)]\<rparr>)"
  by (simp add: RedisClient_set_def run_simps)

lemma run_queue_add [run_simps]:
  "reliable E \<Longrightarrow> run (queue_add E q name d opts) w =
     (Inr (), (tick w)\<lparr>w_jobs := w_jobs w @
        [\<lparr>jc_queue = q, jc_name = name, jc_data = d, jc_options = opts\<rparr>]\<rparr>)"
  by (simp add: queue_add_def run_simps)

section \<open>One queue per name\<close>

text \<open>
  The registry is consistent: a name has one entry, the entry carries the name, and all queue and
  worker objects are different. No worker processes the payment queue: the jobs that creating a
  payment adds are never taken.
\<close>

definition registry_ok :: "world \<Rightarrow> bool" where
  "registry_ok w \<longleftrightarrow> distinct (map fst (w_queues w)) \<and> distinct (map fst (w_workers w)) \<and>
     (\<forall>(n, q) \<in> set (w_queues w). q_name q = n \<and> q_handle q < w_created w) \<and>
     (\<forall>(n, k) \<in> set (w_workers w). wk_name k = n \<and> wk_handle k < w_created w) \<and>
     PAYMENT_PROCESSING \<notin> fst ` set (w_workers w)"

lemma queue_names_exhausted: "distinct ns \<Longrightarrow> length ns \<le> 3" for ns :: "queue_name list"
proof -
  assume "distinct ns"
  have "set ns \<subseteq> {PAYMENT_PROCESSING, SUBSCRIPTION_RENEWAL, DEAD_LETTER}"
  proof
    fix x assume "x \<in> set ns" show "x \<in> {PAYMENT_PROCESSING, SUBSCRIPTION_RENEWAL, DEAD_LETTER}" by (cases x) auto
  qed
  from card_mono [OF _ this] distinct_card [OF \<open>distinct ns\<close>] show ?thesis by simp
qed

lemma closing_enough: "registry_ok w \<Longrightarrow> length (worker_handles w) \<le> 3 \<and> length (queue_handles w) \<le> 3"
  using queue_names_exhausted [of "map fst (w_workers w)"] queue_names_exhausted [of "map fst (w_queues w)"]
  by (simp add: registry_ok_def worker_handles_def queue_handles_def)

lemma ball_update:
  "\<forall>(n, x) \<in> set xs. P n x \<Longrightarrow> (\<And>n x. P n x \<Longrightarrow> Q n x) \<Longrightarrow> Q k v \<Longrightarrow> \<forall>(n, x) \<in> set (AList.update k v xs). Q n x"
  by (induction xs) auto

lemma run_getOrCreateQueue:
  "run (getOrCreateQueue name) w =
    (case map_of (w_queues w) name of
       Some q \<Rightarrow> (Inr q, w)
     | None \<Rightarrow> (Inr \<lparr>q_name = name, q_handle = w_created w\<rparr>,
         w\<lparr>w_queues := AList.update name \<lparr>q_name = name, q_handle = w_created w\<rparr> (w_queues w),
           w_created := Suc (w_created w)\<rparr>))"
  by (simp add: getOrCreateQueue_def run_act Let_def split: option.split)

lemma getOrCreateQueue_frame:
  "run (getOrCreateQueue name) w = (r, w') \<Longrightarrow>
    w_tick w' = w_tick w \<and> w_db w' = w_db w \<and> w_redis w' = w_redis w \<and> w_jobs w' = w_jobs w \<and>
    w_handlers w' = w_handlers w"
  by (auto simp: run_getOrCreateQueue split: option.splits)

lemma getOrCreateQueue_returns: "\<exists>q w'. run (getOrCreateQueue name) w = (Inr q, w')"
  by (cases "map_of (w_queues w) name") (simp_all add: run_getOrCreateQueue)

lemma getOrCreateQueue_same:
  assumes "run (getOrCreateQueue name) w = (Inr q, w')"
  shows "run (getOrCreateQueue name) w' = (Inr q, w')" "getQueue name w' = Some q"
    "m \<noteq> name \<Longrightarrow> getQueue m w' = getQueue m w"
  using assms
  by (auto simp: run_getOrCreateQueue getQueue_def update_conv split: option.splits)

lemma registry_ok_getOrCreateQueue:
  assumes "registry_ok w" "run (getOrCreateQueue name) w = (r, w')"
  shows "registry_ok w'"
proof (cases "map_of (w_queues w) name")
  case None
  let ?q = "\<lparr>q_name = name, q_handle = w_created w\<rparr>"
  from None assms(2) have w': "w' = w\<lparr>w_queues := AList.update name ?q (w_queues w),
      w_created := Suc (w_created w)\<rparr>"
    by (simp add: run_getOrCreateQueue)
  from assms(1) have reg: "distinct (map fst (w_queues w))" "distinct (map fst (w_workers w))"
    "\<forall>(n, q) \<in> set (w_queues w). q_name q = n \<and> q_handle q < w_created w"
    "\<forall>(n, k) \<in> set (w_workers w). wk_name k = n \<and> wk_handle k < w_created w"
    "PAYMENT_PROCESSING \<notin> fst ` set (w_workers w)" by (simp_all add: registry_ok_def)
  have "\<forall>(n, q) \<in> set (AList.update name ?q (w_queues w)). q_name q = n \<and> q_handle q < Suc (w_created w)"
    using reg(3) by (rule ball_update) auto
  moreover have "\<forall>(n, k) \<in> set (w_workers w). wk_name k = n \<and> wk_handle k < Suc (w_created w)"
    using reg(4) by auto
  ultimately show ?thesis using reg unfolding w' by (simp add: registry_ok_def distinct_update)
next
  case (Some q)
  with assms show ?thesis by (simp add: run_getOrCreateQueue)
qed

text \<open>
  A queue is created once: after getOrCreateQueue returned a queue, another call with the
  name returns the same one and changes nothing, getQueue finds it, and the queues of other
  names are as before.
\<close>

lemma getOrCreateQueue_once:
  assumes "run (getOrCreateQueue name) w = (Inr q, w')"
  shows "run (getOrCreateQueue name) w' = (Inr q, w') \<and> getQueue name w' = Some q \<and>
    (\<forall>m. m \<noteq> name \<longrightarrow> getQueue m w' = getQueue m w)"
  using getOrCreateQueue_same [OF assms] by simp

lemma getOrCreateQueue_once_witness:
  "\<exists>w'. getQueue DEAD_LETTER w' = Some \<lparr>q_name = DEAD_LETTER, q_handle = 0\<rparr>"
proof -
  have "\<exists>w'. run (getOrCreateQueue DEAD_LETTER) init_world = (Inr \<lparr>q_name = DEAD_LETTER, q_handle = 0\<rparr>, w')"
    by (simp add: run_getOrCreateQueue init_world_def)
  then show ?thesis using getOrCreateQueue_once by blast
qed

end
