(* ===== verification/EventBus.thy ===== *)
theory EventBus
  imports Stores Services
begin

text \<open>
  \<open>events/EventBus.ts\<close>: \<open>subscribe\<close> appends a handler to the list of its event type;
  \<open>publish\<close> reads the latest version of the aggregate, stores the event with the next one,
  and then runs the handlers of its type, whose errors \<open>Promise.allSettled\<close> swallows. The
  handlers are run in the order of the list. What a handler does is the parameter \<open>exec\<close>: the
  bus knows the functions subscribed to it only by reference.
\<close>

definition handlers_of :: "event_type \<Rightarrow> world \<Rightarrow> handler_ref list" where
  "handlers_of ty w = (case map_of (w_handlers w) ty of None \<Rightarrow> [] | Some hs \<Rightarrow> hs)"

definition EventBus_subscribe :: "event_type \<Rightarrow> handler_ref \<Rightarrow> world \<Rightarrow> world" where
  "EventBus_subscribe ty h w =
     (let existing = handlers_of ty w
      in w\<lparr>w_handlers := AList.update ty (existing @ [h]) (w_handlers w)\<rparr>)"

primrec all_settled :: "unit io list \<Rightarrow> unit io" where
  "all_settled [] = Done ()"
| "all_settled (p # ps) = seq (catch p (\<lambda>_. Done ())) (\<lambda>_. all_settled ps)"

definition EventBus_publish ::
    "env \<Rightarrow> (handler_ref \<Rightarrow> domain_event \<Rightarrow> unit io) \<Rightarrow> event_type \<Rightarrow> string \<Rightarrow> string \<Rightarrow>
      event_payload \<Rightarrow> domain_event io" where
  "EventBus_publish E exec ty aggregateId aggregateType payload =
     seq (EventStoreRepository_getLatestVersion E aggregateId) (\<lambda>latest.
     let version = latest + 1 in
     seq (uuidv4 E) (\<lambda>eid.
     seq (new_date E) (\<lambda>now.
     let event = \<lparr>e_id = eid, e_type = ty, e_aggregateId = aggregateId,
                  e_aggregateType = aggregateType, e_payload = payload,
                  e_occurredAt = now, e_version = version\<rparr> in
     seq (EventStoreRepository_append E event) (\<lambda>_.
     seq (act (\<lambda>w. (Inr (handlers_of ty w), w))) (\<lambda>handlers.
     seq (all_settled (map (\<lambda>h. exec h event) handlers)) (\<lambda>_.
     Done event))))))"

lemma handlers_of_subscribe:
  "handlers_of ty' (EventBus_subscribe ty h w) =
    (if ty' = ty then handlers_of ty w @ [h] else handlers_of ty' w)"
  by (simp add: handlers_of_def EventBus_subscribe_def update_conv Let_def)

section \<open>Handlers never make a publish fail\<close>

lemma all_settled_returns: "\<exists>w'. run (all_settled ps) w = (Inr (), w')"
proof (induction ps arbitrary: w)
  case (Cons p ps)
  show ?case
  proof (cases "run p w")
    case (Pair r w1)
    with Cons.IH [of w1] show ?thesis by (cases r) (auto simp: run_simps)
  qed
qed (simp add: run_simps)

lemma fst_run_all_settled: "run (all_settled ps) w = (Inr (), snd (run (all_settled ps) w))"
  using all_settled_returns [of ps w] by auto

text \<open>The event a fault-free publish stores, from the ticks of its calls.\<close>

definition published ::
    "env \<Rightarrow> event_type \<Rightarrow> string \<Rightarrow> string \<Rightarrow> event_payload \<Rightarrow> world \<Rightarrow> domain_event" where
  "published E ty a aty payload w =
     \<lparr>e_id = uuid E (w_tick w + 1), e_type = ty, e_aggregateId = a, e_aggregateType = aty,
      e_payload = payload, e_occurredAt = clock E (w_tick w + 2),
      e_version = latest_version a (w_db w) + 1\<rparr>"

lemma published_simps [simp]:
  "e_id (published E ty a aty payload w) = uuid E (w_tick w + 1)"
  "e_type (published E ty a aty payload w) = ty"
  "e_aggregateId (published E ty a aty payload w) = a"
  "e_payload (published E ty a aty payload w) = payload"
  "e_version (published E ty a aty payload w) = latest_version a (w_db w) + 1"
  by (simp_all add: published_def)

lemma run_publish:
  assumes "reliable E"
  shows "run (EventBus_publish E exec ty a aty payload) w =
    (let ev = published E ty a aty payload w;
         w1 = tick (tick (tick (tick w)))
     in case event_insert ev (sql_now (db_clock E (w_tick w + 3))) (w_db w) of
          Inl e \<Rightarrow> (Inl (SqlErr e), w1)
        | Inr (n, db) \<Rightarrow>
            (Inr ev, snd (run (all_settled (map (\<lambda>h. exec h ev) (handlers_of ty w)))
                            (w1\<lparr>w_db := db\<rparr>))))"
proof -
  let ?ev = "published E ty a aty payload w"
  let ?w1 = "tick (tick (tick (tick w)))"
  have ev: "\<lparr>e_id = uuid E (Suc (w_tick w)), e_type = ty, e_aggregateId = a, e_aggregateType = aty,
      e_payload = payload, e_occurredAt = clock E (Suc (Suc (w_tick w))),
      e_version = latest_version a (w_db w) + 1\<rparr> = ?ev"
    by (simp add: published_def)
  show ?thesis
  proof (cases "event_insert ?ev (sql_now (db_clock E (w_tick w + 3))) (w_db w)")
    case (Inl e)
    with assms show ?thesis
      by (simp add: EventBus_publish_def repository_defs run_simps Let_def ev
          eval_nat_numeral)
  next
    case (Inr x)
    obtain n db where x: "x = (n, db)" by (cases x)
    have h: "handlers_of ty (?w1\<lparr>w_db := db\<rparr>) = handlers_of ty w" by (simp add: handlers_of_def)
    obtain w2 where
      w2: "run (all_settled (map (\<lambda>h. exec h ?ev) (handlers_of ty w))) (?w1\<lparr>w_db := db\<rparr>) = (Inr (), w2)"
      using all_settled_returns by blast
    from assms Inr x w2 show ?thesis
      by (simp add: EventBus_publish_def repository_defs run_simps Let_def ev h
          eval_nat_numeral)
  qed
qed

end
