(* ===== verification/Projector.thy ===== *)
theory Projector
  imports EventBus
begin

text \<open>
  \<open>workers/PaymentSummaryProjector.ts\<close>: the read model \<open>payment_summary\<close>, one row per day,
  kept by \<open>INSERT ... ON DUPLICATE KEY UPDATE\<close> statements in the handlers of three event
  types. A payload is read as the interface the handler casts it to; another payload leaves the
  statement's parameters undefined, which the driver refuses.
\<close>

section \<open>The upsert\<close>

definition summary_zero :: "int \<Rightarrow> date \<Rightarrow> summary_row" where
  "summary_zero d now = \<lparr>sm_date = d, sm_totalRevenue = 0, sm_totalTransactions = 0,
     sm_successfulTransactions = 0, sm_failedTransactions = 0, sm_totalRefunds = 0,
     sm_refundCount = 0, sm_updatedAt = now\<rparr>"

definition summary_fits :: "summary_row \<Rightarrow> bool" where
  "summary_fits r \<longleftrightarrow> decimal_ok 15 (sm_totalRevenue r) \<and> decimal_ok 15 (sm_totalRefunds r)
     \<and> int_ok (sm_totalTransactions r) \<and> int_ok (sm_successfulTransactions r)
     \<and> int_ok (sm_failedTransactions r) \<and> int_ok (sm_refundCount r)"

definition summary_store :: "summary_row \<Rightarrow> sql_error + summary_row" where
  "summary_store r =
     (if summary_fits r then Inr r else Inl (ER_WARN_DATA_OUT_OF_RANGE ''payment_summary''))"

text \<open>\<open>ins\<close> is the row of the \<open>VALUES\<close> clause, \<open>upd\<close> the \<open>UPDATE\<close> part.\<close>

definition summary_upsert :: "summary_row \<Rightarrow> (summary_row \<Rightarrow> summary_row) \<Rightarrow> unit stmt" where
  "summary_upsert ins upd now db =
     (case summary_store ins of
        Inl e \<Rightarrow> Inl e
      | Inr r \<Rightarrow>
          (if find_row sm_date (sm_date r) (payment_summary db) = None
           then Inr ((), db\<lparr>payment_summary := payment_summary db @ [r]\<rparr>)
           else (case update_where (\<lambda>x. sm_date x = sm_date r)
                       (\<lambda>x. summary_store ((upd x)\<lparr>sm_updatedAt := now\<rparr>)) (payment_summary db) of
                   Inl e \<Rightarrow> Inl e
                 | Inr rows \<Rightarrow> Inr ((), db\<lparr>payment_summary := rows\<rparr>))))"

definition completed_insert :: "int \<Rightarrow> money \<Rightarrow> date \<Rightarrow> summary_row" where
  "completed_insert d amount now = (summary_zero d now)\<lparr>sm_totalRevenue := amount,
     sm_totalTransactions := 1, sm_successfulTransactions := 1\<rparr>"

definition completed_update :: "money \<Rightarrow> summary_row \<Rightarrow> summary_row" where
  "completed_update amount r = r\<lparr>sm_totalRevenue := sm_totalRevenue r + amount,
     sm_totalTransactions := sm_totalTransactions r + 1,
     sm_successfulTransactions := sm_successfulTransactions r + 1\<rparr>"

definition refunded_insert :: "int \<Rightarrow> money \<Rightarrow> date \<Rightarrow> summary_row" where
  "refunded_insert d amount now = (summary_zero d now)\<lparr>sm_totalRefunds := amount, sm_refundCount := 1\<rparr>"

definition refunded_update :: "money \<Rightarrow> summary_row \<Rightarrow> summary_row" where
  "refunded_update amount r = r\<lparr>sm_totalRefunds := sm_totalRefunds r + amount,
     sm_refundCount := sm_refundCount r + 1\<rparr>"

definition failed_insert :: "int \<Rightarrow> date \<Rightarrow> summary_row" where
  "failed_insert d now = (summary_zero d now)\<lparr>sm_failedTransactions := 1\<rparr>"

definition failed_update :: "summary_row \<Rightarrow> summary_row" where
  "failed_update r = r\<lparr>sm_failedTransactions := sm_failedTransactions r + 1,
     sm_totalTransactions := sm_totalTransactions r + 1\<rparr>"

definition upsert_completed :: "int \<Rightarrow> money \<Rightarrow> unit stmt" where
  "upsert_completed d amount now =
     summary_upsert (completed_insert d amount now) (completed_update amount) now"

definition upsert_refunded :: "int \<Rightarrow> money \<Rightarrow> unit stmt" where
  "upsert_refunded d amount now =
     summary_upsert (refunded_insert d amount now) (refunded_update amount) now"

text \<open>The failure handler passes its day as a string.\<close>

definition upsert_failed :: "string \<Rightarrow> unit stmt" where
  "upsert_failed today now db =
     (case sql_parse_date today of
        None \<Rightarrow> Inl (ER_WRONG_VALUE ''date'')
      | Some d \<Rightarrow> summary_upsert (failed_insert d now) failed_update now db)"

section \<open>The handlers\<close>

text \<open>
  The payload of another event, or one without the amount, has \<open>undefined\<close> where the statement
  takes its parameters.
\<close>

definition onPaymentCompleted :: "env \<Rightarrow> domain_event \<Rightarrow> unit io" where
  "onPaymentCompleted E event =
     (case e_payload event of
        PaymentCompletedPayload on tid paidAmount paidAt \<Rightarrow>
          sql E (\<lambda>_. upsert_completed (sql_date (tz E) paidAt) paidAmount)
      | _ \<Rightarrow> unbound E)"

definition onPaymentRefunded :: "env \<Rightarrow> domain_event \<Rightarrow> unit io" where
  "onPaymentRefunded E event =
     (case e_payload event of
        PaymentRefundedPayload on refundAmount reason refundedAt \<Rightarrow>
          sql E (\<lambda>_. upsert_refunded (sql_date (tz E) refundedAt) refundAmount)
      | _ \<Rightarrow> unbound E)"

definition onPaymentFailed :: "env \<Rightarrow> domain_event \<Rightarrow> unit io" where
  "onPaymentFailed E event =
     seq (new_date E) (\<lambda>now.
     let today = split_first CHR ''T'' (to_iso_string now) in
     sql E (\<lambda>_. upsert_failed today))"

fun projector_exec :: "env \<Rightarrow> handler_ref \<Rightarrow> domain_event \<Rightarrow> unit io" where
  "projector_exec E OnPaymentCompleted e = onPaymentCompleted E e"
| "projector_exec E OnPaymentRefunded e = onPaymentRefunded E e"
| "projector_exec E OnPaymentFailed e = onPaymentFailed E e"

definition Projector_register :: "world \<Rightarrow> world" where
  "Projector_register w =
     EventBus_subscribe PAYMENT_FAILED OnPaymentFailed
       (EventBus_subscribe PAYMENT_REFUNDED OnPaymentRefunded
         (EventBus_subscribe PAYMENT_COMPLETED OnPaymentCompleted w))"

abbreviation publish ::
    "env \<Rightarrow> event_type \<Rightarrow> string \<Rightarrow> string \<Rightarrow> event_payload \<Rightarrow> domain_event io" where
  "publish E \<equiv> EventBus_publish E (projector_exec E)"

section \<open>Queries\<close>

text \<open>A missing bound is sent as \<open>NULL\<close>, with which no row compares.\<close>

definition getDailySummary :: "env \<Rightarrow> string option \<Rightarrow> string option \<Rightarrow> summary_row list io" where
  "getDailySummary E startDate endDate =
     sql E (\<lambda>_. reading_page (\<lambda>db.
       case (map_option sql_parse_date startDate, map_option sql_parse_date endDate) of
         (Some (Some a), Some (Some b)) \<Rightarrow>
           Inr (sort_key (\<lambda>r. - sm_date r)
                 (filter (\<lambda>r. a \<le> sm_date r \<and> sm_date r \<le> b) (payment_summary db)))
       | (Some None, _) \<Rightarrow> Inl (ER_WRONG_VALUE ''date'')
       | (_, Some None) \<Rightarrow> Inl (ER_WRONG_VALUE ''date'')
       | _ \<Rightarrow> Inr []))"

record total_stats =
  ts_totalRevenue :: "money option"
  ts_totalTransactions :: "int option"
  ts_successfulTransactions :: "int option"
  ts_failedTransactions :: "int option"
  ts_totalRefunds :: "money option"
  ts_refundCount :: "int option"

text \<open>\<open>SUM\<close> over no rows is \<open>NULL\<close>.\<close>

definition sql_sum :: "('r \<Rightarrow> int) \<Rightarrow> 'r list \<Rightarrow> int option" where
  "sql_sum f rows = (if rows = [] then None else Some (sum_list (map f rows)))"

definition total_stats_of :: "database \<Rightarrow> total_stats" where
  "total_stats_of db =
     (let rows = payment_summary db
      in \<lparr>ts_totalRevenue = sql_sum sm_totalRevenue rows,
          ts_totalTransactions = sql_sum sm_totalTransactions rows,
          ts_successfulTransactions = sql_sum sm_successfulTransactions rows,
          ts_failedTransactions = sql_sum sm_failedTransactions rows,
          ts_totalRefunds = sql_sum sm_totalRefunds rows,
          ts_refundCount = sql_sum sm_refundCount rows\<rparr>)"

definition getTotalStats :: "env \<Rightarrow> total_stats io" where
  "getTotalStats E = sql E (\<lambda>_. reading total_stats_of)"

section \<open>What an upsert does\<close>

lemma registered_handlers:
  "handlers_of ty (Projector_register w) = handlers_of ty w @
    (case ty of PAYMENT_COMPLETED \<Rightarrow> [OnPaymentCompleted] | PAYMENT_REFUNDED \<Rightarrow> [OnPaymentRefunded]
     | PAYMENT_FAILED \<Rightarrow> [OnPaymentFailed] | _ \<Rightarrow> [])"
  by (cases ty) (simp_all add: Projector_register_def handlers_of_subscribe)

definition summary_of :: "int \<Rightarrow> database \<Rightarrow> summary_row option" where
  "summary_of d db = find_row sm_date d (payment_summary db)"

lemma summary_upsert_frame:
  assumes "summary_upsert ins upd now db = Inr (u, db')"
  shows "payments db' = payments db" "subscriptions db' = subscriptions db"
    "event_store db' = event_store db"
  using assms by (auto simp: summary_upsert_def split: sum.splits if_splits)

lemma summary_upsert_of:
  assumes "summary_upsert ins upd now db = Inr (u, db')" "\<And>r. sm_date (upd r) = sm_date r"
  shows "summary_of d db' =
    (if d = sm_date ins
     then Some (case summary_of d db of None \<Rightarrow> ins | Some r \<Rightarrow> (upd r)\<lparr>sm_updatedAt := now\<rparr>)
     else summary_of d db)"
proof -
  from assms(1) have ins: "summary_store ins = Inr ins"
    by (auto simp: summary_upsert_def summary_store_def split: if_splits)
  show ?thesis
  proof (cases "find_row sm_date (sm_date ins) (payment_summary db)")
    case None
    with assms(1) ins have "db' = db\<lparr>payment_summary := payment_summary db @ [ins]\<rparr>"
      by (simp add: summary_upsert_def)
    with None show ?thesis
      by (auto simp: summary_of_def find_row_append split: option.splits)
  next
    case (Some r)
    let ?f = "\<lambda>x. summary_store ((upd x)\<lparr>sm_updatedAt := now\<rparr>)"
    from Some assms(1) ins obtain rows where
      rows: "update_where (\<lambda>x. sm_date x = sm_date ins) ?f (payment_summary db) = Inr rows"
        "db' = db\<lparr>payment_summary := rows\<rparr>"
      by (auto simp: summary_upsert_def split: sum.splits)
    have key: "sm_date r' = sm_date ins" if "sm_date x = sm_date ins" "?f x = Inr r'" for x r'
      using that assms(2) by (auto simp: summary_store_def split: if_splits)
    have eq: "find_row sm_date (sm_date ins) rows =
        (case ?f r of Inl e \<Rightarrow> None | Inr r' \<Rightarrow> Some r')"
      using find_row_update_where [OF rows(1) key, where k' = "sm_date ins"] Some by simp
    have ne: "find_row sm_date (sm_date ins) rows \<noteq> None"
    proof -
      have "map sm_date rows = map sm_date (payment_summary db)"
      proof (rule update_where_keys [OF rows(1)])
        fix x r' assume x: "sm_date x = sm_date ins" "?f x = Inr r'"
        from key [OF x] x(1) show "sm_date r' = sm_date x" by simp
      qed
      then have "sm_date ` set rows = sm_date ` set (payment_summary db)" by (metis set_map)
      with Some find_row_None [of sm_date "sm_date ins" rows]
        find_row_None [of sm_date "sm_date ins" "payment_summary db"] show ?thesis by simp
    qed
    from eq ne obtain r' where r': "?f r = Inr r'" by (cases "?f r") simp_all
    then have "r' = (upd r)\<lparr>sm_updatedAt := now\<rparr>"
      by (simp add: summary_store_def split: if_splits)
    with eq r' have day: "find_row sm_date (sm_date ins) rows = Some ((upd r)\<lparr>sm_updatedAt := now\<rparr>)"
      by simp
    show ?thesis
    proof (cases "d = sm_date ins")
      case True
      with day Some rows(2) show ?thesis by (simp add: summary_of_def)
    next
      case False
      with find_row_update_where [OF rows(1) key, where k' = d] rows(2)
      show ?thesis by (simp add: summary_of_def)
    qed
  qed
qed

lemma upsert_dates [simp]:
  "sm_date (completed_insert d a now) = d" "sm_date (refunded_insert d a now) = d"
  "sm_date (failed_insert d now) = d" "sm_date (completed_update a r) = sm_date r"
  "sm_date (refunded_update a r) = sm_date r" "sm_date (failed_update r) = sm_date r"
  by (simp_all add: completed_insert_def refunded_insert_def failed_insert_def summary_zero_def
      completed_update_def refunded_update_def failed_update_def)

lemmas upsert_defs = completed_insert_def refunded_insert_def failed_insert_def summary_zero_def
  completed_update_def refunded_update_def failed_update_def

end
