(* ===== verification/PaymentHandler.thy ===== *)
theory PaymentHandler
  imports Projector
begin

text \<open>
  \<open>handlers/PaymentHandler.ts\<close>: the operations on payments, each with its remote calls in the
  order the code makes them, and how each runs alone when no call fails.
\<close>

section \<open>The operations\<close>

definition IDEMPOTENCY_TTL :: int where
  "IDEMPOTENCY_TTL = 3600"

definition idempotency_key :: "string \<Rightarrow> string \<Rightarrow> string" where
  "idempotency_key userId productId =
     ''payment:idempotency:'' @ userId @ '':'' @ productId"

definition order_number :: "date \<Rightarrow> string \<Rightarrow> string" where
  "order_number now u = ''ORD-'' @ show_int now @ ''-'' @ take 8 u"

text \<open>\<open>request.currency || 'KRW'\<close>\<close>

definition currency_of :: "create_payment_request \<Rightarrow> string" where
  "currency_of req = (case cp_currency req of Some c \<Rightarrow> (if c = '''' then ''KRW'' else c) | None \<Rightarrow> ''KRW'')"

definition new_payment :: "string \<Rightarrow> create_payment_request \<Rightarrow> payment_data" where
  "new_payment orderNumber req =
     \<lparr>p_orderNumber = orderNumber, p_userId = cp_userId req, p_productId = cp_productId req,
      p_amount = cp_amount req, p_currency = currency_of req, p_status = PENDING,
      p_transactionId = None, p_paidAt = None, p_refundedAt = None, p_refundAmount = None,
      p_refundReason = None\<rparr>"

definition created_payload :: "string \<Rightarrow> create_payment_request \<Rightarrow> event_payload" where
  "created_payload orderNumber req =
     PaymentCreatedPayload orderNumber (cp_userId req) (cp_productId req) (cp_amount req)
       (currency_of req)"

definition payment_job :: "string \<Rightarrow> create_payment_request \<Rightarrow> job_data" where
  "payment_job orderNumber req = PaymentJob
     \<lparr>pj_orderNumber = orderNumber, pj_userId = cp_userId req, pj_productId = cp_productId req,
      pj_amount = cp_amount req, pj_currency = currency_of req\<rparr>"

definition payment_job_options :: job_options where
  "payment_job_options = no_options\<lparr>jo_attempts := Some 3, jo_backoff := Some 2000\<rparr>"

definition createPayment :: "env \<Rightarrow> create_payment_request \<Rightarrow> string io" where
  "createPayment E req =
     seq (new_date E) (\<lambda>now.
     seq (uuidv4 E) (\<lambda>u.
     let orderNumber = order_number now u;
         key = idempotency_key (cp_userId req) (cp_productId req) in
     seq (RedisClient_get E key) (\<lambda>existing.
     if existing \<noteq> None \<and> existing \<noteq> Some '''' then Fail (DuplicatePaymentError (the existing)) else
     seq (PaymentRepository_create E (new_payment orderNumber req)) (\<lambda>_.
     seq (RedisClient_set E key orderNumber (Some IDEMPOTENCY_TTL)) (\<lambda>_.
     seq (publish E PAYMENT_CREATED orderNumber ''Payment'' (created_payload orderNumber req)) (\<lambda>_.
     seq (getOrCreateQueue PAYMENT_PROCESSING) (\<lambda>queue.
     seq (queue_add E queue ''process-payment'' (payment_job orderNumber req) payment_job_options) (\<lambda>_.
     Done orderNumber))))))))"

definition completePayment :: "env \<Rightarrow> complete_payment_request \<Rightarrow> unit io" where
  "completePayment E req =
     seq (PaymentRepository_findByOrderNumber E (co_orderNumber req)) (\<lambda>payment.
     case payment of
       None \<Rightarrow> Fail (NotFoundError ''Payment'' (co_orderNumber req))
     | Some p \<Rightarrow>
         if p_status p \<noteq> PENDING then Fail (DuplicatePaymentError (co_orderNumber req)) else
         seq (new_date E) (\<lambda>now.
         seq (PaymentRepository_updateStatus E (co_orderNumber req) COMPLETED
               [(''transactionId'', VStr (co_transactionId req)), (''paidAt'', VDate now)]) (\<lambda>_.
         seq (new_date E) (\<lambda>paidAt.
         seq (publish E PAYMENT_COMPLETED (co_orderNumber req) ''Payment''
               (PaymentCompletedPayload (co_orderNumber req) (co_transactionId req)
                  (co_paidAmount req) paidAt)) (\<lambda>_.
         Done ())))))"

definition failPayment :: "env \<Rightarrow> string \<Rightarrow> string \<Rightarrow> unit io" where
  "failPayment E orderNumber reason =
     seq (PaymentRepository_findByOrderNumber E orderNumber) (\<lambda>payment.
     case payment of
       None \<Rightarrow> Fail (NotFoundError ''Payment'' orderNumber)
     | Some p \<Rightarrow>
         seq (PaymentRepository_updateStatus E orderNumber FAILED []) (\<lambda>_.
         seq (new_date E) (\<lambda>failedAt.
         seq (publish E PAYMENT_FAILED orderNumber ''Payment''
               (PaymentFailedPayload orderNumber reason failedAt)) (\<lambda>_.
         Done ()))))"

definition refundPayment :: "env \<Rightarrow> refund_payment_request \<Rightarrow> unit io" where
  "refundPayment E req =
     seq (PaymentRepository_findByOrderNumber E (rf_orderNumber req)) (\<lambda>payment.
     case payment of
       None \<Rightarrow> Fail (NotFoundError ''Payment'' (rf_orderNumber req))
     | Some p \<Rightarrow>
         if p_status p \<noteq> COMPLETED
         then Fail (PlainError (''Cannot refund payment in '' @ payment_status_str (p_status p) @ '' status''))
         else
         seq (new_date E) (\<lambda>now.
         seq (PaymentRepository_updateStatus E (rf_orderNumber req) REFUNDED
               [(''refundAmount'', VNum (rf_refundAmount req)),
                (''refundReason'', VStr (rf_reason req)), (''refundedAt'', VDate now)]) (\<lambda>_.
         seq (new_date E) (\<lambda>refundedAt.
         seq (publish E PAYMENT_REFUNDED (rf_orderNumber req) ''Payment''
               (PaymentRefundedPayload (rf_orderNumber req) (rf_refundAmount req)
                  (rf_reason req) refundedAt)) (\<lambda>_.
         Done ())))))"

definition getPayment :: "env \<Rightarrow> string \<Rightarrow> payment io" where
  "getPayment E orderNumber =
     seq (PaymentRepository_findByOrderNumber E orderNumber) (\<lambda>payment.
     case payment of
       None \<Rightarrow> Fail (NotFoundError ''Payment'' orderNumber)
     | Some p \<Rightarrow> Done p)"

definition getUserPayments :: "env \<Rightarrow> string \<Rightarrow> int option \<Rightarrow> int option \<Rightarrow> payment list io" where
  "getUserPayments E userId limit offset = PaymentRepository_findByUserId E userId limit offset"

end
