(* ===== verification/SubscriptionHandler.thy ===== *)
theory SubscriptionHandler
  imports Projector
begin

text \<open>
  \<open>handlers/SubscriptionHandler.ts\<close>: creating, cancelling and reading subscriptions, and the
  end date of a plan.
\<close>

section \<open>The operations\<close>

text \<open>Any plan but \<open>MONTHLY\<close> takes the \<open>else\<close> branch.\<close>

definition calculateEndDate :: "int \<Rightarrow> date \<Rightarrow> string \<Rightarrow> date" where
  "calculateEndDate z startDate plan =
     (if plan = plan_str MONTHLY
      then set_month z startDate (get_month z startDate + 1)
      else set_full_year z startDate (get_full_year z startDate + 1))"

definition subscription_id :: "string \<Rightarrow> string" where
  "subscription_id u = ''SUB-'' @ take 12 u"

definition new_subscription ::
    "string \<Rightarrow> create_subscription_request \<Rightarrow> date \<Rightarrow> date \<Rightarrow> subscription_data" where
  "new_subscription subscriptionId req startDate endDate =
     \<lparr>ns_subscriptionId = subscriptionId, ns_userId = cs_userId req, ns_planId = cs_planId req,
      ns_plan = cs_plan req, ns_status = ACTIVE, ns_startDate = startDate, ns_endDate = endDate,
      ns_cancelledAt = None, ns_cancelReason = None, ns_autoRenew = True\<rparr>"

definition createSubscription :: "env \<Rightarrow> create_subscription_request \<Rightarrow> string io" where
  "createSubscription E req =
     seq (SubscriptionRepository_findActiveByUserId E (cs_userId req)) (\<lambda>existing.
     if existing \<noteq> None
     then Fail (ConflictError (''User '' @ cs_userId req @ '' already has an active subscription''))
     else
     seq (uuidv4 E) (\<lambda>u.
     let subscriptionId = subscription_id u in
     seq (new_date E) (\<lambda>startDate.
     let endDate = calculateEndDate (tz E) startDate (cs_plan req) in
     seq (SubscriptionRepository_create E (new_subscription subscriptionId req startDate endDate)) (\<lambda>_.
     seq (publish E SUBSCRIPTION_CREATED subscriptionId ''Subscription''
           (SubscriptionCreatedPayload subscriptionId (cs_userId req) (cs_planId req)
              startDate endDate)) (\<lambda>_.
     Done subscriptionId)))))"

definition cancelSubscription :: "env \<Rightarrow> string \<Rightarrow> string \<Rightarrow> unit io" where
  "cancelSubscription E subscriptionId reason =
     seq (SubscriptionRepository_findBySubscriptionId E subscriptionId) (\<lambda>sub.
     case sub of
       None \<Rightarrow> Fail (NotFoundError ''Subscription'' subscriptionId)
     | Some s \<Rightarrow>
         if s_status s \<noteq> ACTIVE
         then Fail (ConflictError (''Subscription '' @ subscriptionId @ '' is not active''))
         else
         seq (new_date E) (\<lambda>now.
         seq (SubscriptionRepository_updateStatus E subscriptionId SUB_CANCELLED
               [(''cancelledAt'', VDate now), (''cancelReason'', VStr reason),
                (''autoRenew'', VBool False)]) (\<lambda>_.
         seq (new_date E) (\<lambda>cancelledAt.
         seq (publish E SUBSCRIPTION_CANCELLED subscriptionId ''Subscription''
               (SubscriptionCancelledPayload subscriptionId cancelledAt reason)) (\<lambda>_.
         Done ())))))"

definition getSubscription :: "env \<Rightarrow> string \<Rightarrow> subscription io" where
  "getSubscription E subscriptionId =
     seq (SubscriptionRepository_findBySubscriptionId E subscriptionId) (\<lambda>sub.
     case sub of
       None \<Rightarrow> Fail (NotFoundError ''Subscription'' subscriptionId)
     | Some s \<Rightarrow> Done s)"

definition getActiveSubscription :: "env \<Rightarrow> string \<Rightarrow> subscription option io" where
  "getActiveSubscription E userId = SubscriptionRepository_findActiveByUserId E userId"

end
