(* ===== verification/AutopayWorker.thy ===== *)
theory AutopayWorker
  imports PaymentHandler SubscriptionHandler
begin

text \<open>
  \<open>workers/AutopayWorker.ts\<close>: the renewal worker. A job is what BullMQ hands to the processor;
  BullMQ's own part (keeping jobs, calling the processor again after a failure) is outside.
\<close>

record job =
  job_id :: string
  job_name :: string
  job_data :: renewal_job_data
  job_attemptsMade :: nat
  job_attempts :: "nat option"

section \<open>The operations\<close>

definition calculateNewEndDate :: "int \<Rightarrow> date \<Rightarrow> string \<Rightarrow> date" where
  "calculateNewEndDate z currentEndDate plan =
     (if plan = plan_str MONTHLY
      then set_month z currentEndDate (get_month z currentEndDate + 1)
      else set_full_year z currentEndDate (get_full_year z currentEndDate + 1))"

definition won :: "int \<Rightarrow> money" where
  "won n = 100 * n"

definition renewal_amount :: "string \<Rightarrow> money" where
  "renewal_amount plan = (if plan = plan_str ANNUAL then won 99000 else won 9900)"

definition renew_job_options :: "string \<Rightarrow> job_options" where
  "renew_job_options jobId =
     no_options\<lparr>jo_attempts := Some 3, jo_backoff := Some 5000, jo_jobId := Some jobId\<rparr>"

definition renewal_job :: "subscription \<Rightarrow> job_data" where
  "renewal_job sub = RenewalJob
     \<lparr>rj_subscriptionId = s_subscriptionId sub, rj_userId = s_userId sub,
      rj_planId = s_planId sub, rj_plan = plan_str (s_plan sub)\<rparr>"

primrec enqueue_renewals :: "env \<Rightarrow> queue \<Rightarrow> subscription list \<Rightarrow> unit io" where
  "enqueue_renewals E queue [] = Done ()"
| "enqueue_renewals E queue (sub # subs) =
     seq (new_date E) (\<lambda>now.
     seq (queue_add E queue ''renew'' (renewal_job sub)
           (renew_job_options (''renew-'' @ s_subscriptionId sub @ ''-'' @ show_int now))) (\<lambda>_.
     enqueue_renewals E queue subs))"

definition scanAndEnqueueExpired :: "env \<Rightarrow> unit io" where
  "scanAndEnqueueExpired E =
     seq (SubscriptionRepository_findExpiredForRenewal E (Some 50)) (\<lambda>expired.
     seq (getOrCreateQueue SUBSCRIPTION_RENEWAL) (\<lambda>queue.
     enqueue_renewals E queue expired))"

text \<open>The body of the \<open>try\<close>: charge, complete, extend, publish.\<close>

definition renewal_request :: "renewal_job_data \<Rightarrow> create_payment_request" where
  "renewal_request d = \<lparr>cp_userId = rj_userId d, cp_productId = rj_planId d,
     cp_amount = renewal_amount (rj_plan d), cp_currency = Some ''KRW''\<rparr>"

definition renew_body :: "env \<Rightarrow> renewal_job_data \<Rightarrow> subscription \<Rightarrow> unit io" where
  "renew_body E d subscription =
     seq (createPayment E (renewal_request d)) (\<lambda>orderNumber.
     seq (new_date E) (\<lambda>now.
     seq (completePayment E \<lparr>co_orderNumber = orderNumber,
            co_transactionId = ''TXN-RENEW-'' @ show_int now,
            co_paidAmount = renewal_amount (rj_plan d)\<rparr>) (\<lambda>_.
     let newEndDate = calculateNewEndDate (tz E) (s_endDate subscription) (rj_plan d) in
     seq (SubscriptionRepository_renewSubscription E (rj_subscriptionId d) newEndDate) (\<lambda>_.
     seq (publish E SUBSCRIPTION_RENEWED (rj_subscriptionId d) ''Subscription''
           (SubscriptionRenewedPayload (rj_subscriptionId d) orderNumber newEndDate)) (\<lambda>_.
     Done ())))))"

text \<open>The \<open>catch\<close>: the dead letter on the last attempt, then the error again.\<close>

definition last_attempt :: "job \<Rightarrow> bool" where
  "last_attempt job \<longleftrightarrow>
     (case job_attempts job of Some n \<Rightarrow> (if n = 0 then 3 else n) | None \<Rightarrow> 3) - 1
       \<le> job_attemptsMade job"

definition dead_letter :: "env \<Rightarrow> job \<Rightarrow> js_error \<Rightarrow> date \<Rightarrow> job_data" where
  "dead_letter E job e now = DeadLetterJob
     \<lparr>dl_originalQueue = queue_name_str SUBSCRIPTION_RENEWAL, dl_originalJobId = job_id job,
      dl_data = job_data job, dl_failedReason = message_of E e,
      dl_attemptsMade = job_attemptsMade job + 1, dl_failedAt = now\<rparr>"

definition on_renewal_error :: "env \<Rightarrow> job \<Rightarrow> js_error \<Rightarrow> unit io" where
  "on_renewal_error E job e =
     (if last_attempt job then
        seq (getOrCreateQueue DEAD_LETTER) (\<lambda>dlq.
        seq (new_date E) (\<lambda>now.
        seq (queue_add E dlq ''failed-renewal'' (dead_letter E job e now) no_options) (\<lambda>_.
        Fail e)))
      else Fail e)"

definition processRenewal :: "env \<Rightarrow> job \<Rightarrow> unit io" where
  "processRenewal E job =
     (if job_name job = ''scan-expired'' then scanAndEnqueueExpired E
      else
        let d = job_data job in
        seq (SubscriptionRepository_findBySubscriptionId E (rj_subscriptionId d)) (\<lambda>found.
        case found of
          None \<Rightarrow> Done ()
        | Some subscription \<Rightarrow>
            if s_status subscription \<noteq> ACTIVE then Done ()
            else if \<not> s_autoRenew subscription then
              seq (SubscriptionRepository_updateStatus E (rj_subscriptionId d) EXPIRED []) (\<lambda>_.
              seq (new_date E) (\<lambda>expiredAt.
              seq (publish E SUBSCRIPTION_EXPIRED (rj_subscriptionId d) ''Subscription''
                    (SubscriptionExpiredPayload (rj_subscriptionId d) expiredAt)) (\<lambda>_.
              Done ())))
            else catch (renew_body E d subscription) (on_renewal_error E job)))"

text \<open>The dead letter processor only writes a log line.\<close>

definition processDeadLetter :: "dead_letter_job_data \<Rightarrow> unit io" where
  "processDeadLetter d = Done ()"

definition scan_options :: job_options where
  "scan_options = no_options\<lparr>jo_repeatEvery := Some (5 * 60 * 1000),
     jo_jobId := Some ''scan-expired-subscriptions''\<rparr>"

definition Autopay_start :: "env \<Rightarrow> unit io" where
  "Autopay_start E =
     seq (createWorker SUBSCRIPTION_RENEWAL ProcessRenewal (Some 5)) (\<lambda>_.
     seq (getOrCreateQueue SUBSCRIPTION_RENEWAL) (\<lambda>queue.
     seq (queue_add E queue ''scan-expired'' ScanJob scan_options) (\<lambda>_.
     seq (createWorker DEAD_LETTER ProcessDeadLetter (Some 1)) (\<lambda>_.
     Done ()))))"

end
