(* ===== verification/Invariants.thy ===== *)
theory Invariants
  imports AutopayWorker
begin

text \<open>
  The invariant of the whole system and the changes it allows. \<open>world_inv\<close> says that the keys
  of every table are unique, the event log is gapless, each payment and subscription row is
  one its status allows, every event belongs to a row and every payment job to a payment; \<open>world_grows\<close> that the event log, the jobs and the Redis commands
  are only appended to, no row is removed, and what a payment was ordered for never changes.
  Each statement keeps them, so by the rules of the locale \<open>rely\<close> each operation is
  \<open>safe\<close>: the invariant holds for every interleaving of any operations, whatever calls fail.
\<close>

section \<open>The invariant\<close>

definition payment_ok :: "payment \<Rightarrow> bool" where
  "payment_ok p =
     (case p_status p of
        PENDING \<Rightarrow> p_transactionId p = None \<and> p_paidAt p = None \<and> p_refundedAt p = None
          \<and> p_refundAmount p = None \<and> p_refundReason p = None
      | COMPLETED \<Rightarrow> p_transactionId p \<noteq> None \<and> p_paidAt p \<noteq> None
      | FAILED \<Rightarrow> True
      | REFUNDED \<Rightarrow> p_refundedAt p \<noteq> None \<and> p_refundAmount p \<noteq> None \<and> p_refundReason p \<noteq> None
      | PAY_CANCELLED \<Rightarrow> False)"

definition subscription_ok :: "subscription \<Rightarrow> bool" where
  "subscription_ok s =
     (case s_status s of
        SUB_CANCELLED \<Rightarrow> s_cancelledAt s \<noteq> None \<and> s_cancelReason s \<noteq> None \<and> \<not> s_autoRenew s
      | PENDING_RENEWAL \<Rightarrow> False
      | _ \<Rightarrow> True)"

definition log_gapless :: "database \<Rightarrow> bool" where
  "log_gapless db \<longleftrightarrow> (\<forall>a. versions_of a db = map int [1..<Suc (length (versions_of a db))])"

lemma log_gapless_cong: "event_store db' = event_store db \<Longrightarrow> log_gapless db' = log_gapless db"
  unfolding log_gapless_def versions_of_def events_of_def by (erule ssubst) (rule refl)

lemma log_gapless_tables [simp]:
  "log_gapless (db\<lparr>payments := ps\<rparr>) = log_gapless db"
  "log_gapless (db\<lparr>subscriptions := ss\<rparr>) = log_gapless db"
  "log_gapless (db\<lparr>payment_summary := rs\<rparr>) = log_gapless db"
  by (rule log_gapless_cong, simp)+

text \<open>Every event belongs to a row: one with the aggregate type \<open>Payment\<close> to a payment, and so on.\<close>

definition has_root :: "string \<Rightarrow> string \<Rightarrow> database \<Rightarrow> bool" where
  "has_root aty a db \<longleftrightarrow> aty = ''Payment'' \<and> a \<in> p_orderNumber ` set (payments db) \<or>
     aty = ''Subscription'' \<and> a \<in> s_subscriptionId ` set (subscriptions db)"

definition rooted :: "database \<Rightarrow> bool" where
  "rooted db \<longleftrightarrow> (\<forall>r \<in> set (event_store db). has_root (se_aggregateType r) (se_aggregateId r) db)"

definition db_inv :: "database \<Rightarrow> bool" where
  "db_inv db \<longleftrightarrow>
     distinct (map p_orderNumber (payments db)) \<and>
     distinct (map s_subscriptionId (subscriptions db)) \<and>
     distinct (map se_eventId (event_store db)) \<and>
     distinct (map sm_date (payment_summary db)) \<and>
     log_gapless db \<and> rooted db \<and>
     (\<forall>p \<in> set (payments db). payment_ok p) \<and>
     (\<forall>s \<in> set (subscriptions db). subscription_ok s)"

definition ordered_terms :: "payment \<Rightarrow> string \<times> string \<times> string \<times> money \<times> string" where
  "ordered_terms p = (p_orderNumber p, p_userId p, p_productId p, p_amount p, p_currency p)"

definition owner_of :: "subscription \<Rightarrow> string \<times> string \<times> string \<times> subscription_plan" where
  "owner_of s = (s_subscriptionId s, s_userId s, s_planId s, s_plan s)"

definition db_grows :: "database \<Rightarrow> database \<Rightarrow> bool" where
  "db_grows db db' \<longleftrightarrow>
     prefix (event_store db) (event_store db') \<and>
     prefix (map ordered_terms (payments db)) (map ordered_terms (payments db')) \<and>
     prefix (map owner_of (subscriptions db)) (map owner_of (subscriptions db')) \<and>
     prefix (map sm_date (payment_summary db)) (map sm_date (payment_summary db'))"

lemma has_root_grows: "has_root aty a db \<Longrightarrow> db_grows db db' \<Longrightarrow> has_root aty a db'"
proof -
  assume root: "has_root aty a db" and grow: "db_grows db db'"
  have keys: "set (map ordered_terms (payments db)) \<subseteq> set (map ordered_terms (payments db'))"
    "set (map owner_of (subscriptions db)) \<subseteq> set (map owner_of (subscriptions db'))"
    using grow unfolding db_grows_def by (blast dest: set_mono_prefix)+
  have fst: "p_orderNumber ` set (payments db) = fst ` set (map ordered_terms (payments db))"
    "s_subscriptionId ` set (subscriptions db) = fst ` set (map owner_of (subscriptions db))" for db
    by (simp_all add: image_image ordered_terms_def owner_of_def)
  have "p_orderNumber ` set (payments db) \<subseteq> p_orderNumber ` set (payments db')"
    "s_subscriptionId ` set (subscriptions db) \<subseteq> s_subscriptionId ` set (subscriptions db')"
    unfolding fst by (rule image_mono, rule keys)+
  with root show ?thesis unfolding has_root_def by blast
qed

lemma rooted_later: "rooted db \<Longrightarrow> db_grows db db' \<Longrightarrow> event_store db' = event_store db \<Longrightarrow> rooted db'"
  unfolding rooted_def using has_root_grows by auto

text \<open>
  Every job is on the queue of its kind, a payment job has its payment and the event of its
  creation, and a dead letter comes from the renewal queue, after an attempt.
\<close>

definition job_ok :: "database \<Rightarrow> job_call \<Rightarrow> bool" where
  "job_ok db c = (case jc_data c of
     PaymentJob pj \<Rightarrow> q_name (jc_queue c) = PAYMENT_PROCESSING \<and>
       (pj_orderNumber pj, pj_userId pj, pj_productId pj, pj_amount pj, pj_currency pj) \<in> ordered_terms ` set (payments db) \<and>
       (\<exists>r \<in> set (event_store db). se_eventType r = event_type_str PAYMENT_CREATED \<and> se_aggregateId r = pj_orderNumber pj)
   | RenewalJob d \<Rightarrow> q_name (jc_queue c) = SUBSCRIPTION_RENEWAL
   | ScanJob \<Rightarrow> q_name (jc_queue c) = SUBSCRIPTION_RENEWAL
   | DeadLetterJob dl \<Rightarrow> q_name (jc_queue c) = DEAD_LETTER \<and>
       dl_originalQueue dl = queue_name_str SUBSCRIPTION_RENEWAL \<and> 0 < dl_attemptsMade dl)"

lemma job_ok_grows: "job_ok db c \<Longrightarrow> db_grows db db' \<Longrightarrow> job_ok db' c"
proof -
  assume job: "job_ok db c" and grow: "db_grows db db'"
  have "set (map ordered_terms (payments db)) \<subseteq> set (map ordered_terms (payments db'))"
    "set (event_store db) \<subseteq> set (event_store db')"
    using grow unfolding db_grows_def by (blast dest: set_mono_prefix)+
  then have mono: "ordered_terms ` set (payments db) \<subseteq> ordered_terms ` set (payments db')"
    "set (event_store db) \<subseteq> set (event_store db')" by simp_all
  show ?thesis
  proof (cases "jc_data c")
    case (PaymentJob pj)
    with job mono show ?thesis unfolding job_ok_def by simp blast
  qed (use job in \<open>simp_all add: job_ok_def\<close>)
qed

definition world_inv :: "world \<Rightarrow> bool" where
  "world_inv w \<longleftrightarrow> db_inv (w_db w) \<and> registry_ok w \<and> (\<forall>c \<in> set (w_jobs w). job_ok (w_db w) c)"

definition world_grows :: "world \<Rightarrow> world \<Rightarrow> bool" where
  "world_grows w w' \<longleftrightarrow> w_tick w \<le> w_tick w' \<and> db_grows (w_db w) (w_db w')
     \<and> prefix (w_jobs w) (w_jobs w') \<and> prefix (w_redis w) (w_redis w')"

lemma db_grows_refl [simp]: "db_grows db db"
  by (simp add: db_grows_def)

lemma db_grows_trans: "db_grows a b \<Longrightarrow> db_grows b c \<Longrightarrow> db_grows a c"
  unfolding db_grows_def by (blast intro: prefix_order.trans)

lemma world_grows_refl [simp]: "world_grows w w"
  by (simp add: world_grows_def)

lemma world_grows_trans: "world_grows a b \<Longrightarrow> world_grows b c \<Longrightarrow> world_grows a c"
  unfolding world_grows_def by (blast intro: db_grows_trans prefix_order.trans order.trans)

interpretation sys: rely world_inv world_grows
  by unfold_locales (auto intro: world_grows_trans)

abbreviation ok :: "world \<Rightarrow> 'a io \<Rightarrow> bool" where
  "ok w p \<equiv> safe world_inv world_grows (\<lambda>_ _. True) (\<lambda>_ _. True) w p"

section \<open>The statements keep it\<close>

definition stmt_ok :: "database \<Rightarrow> 'a stmt \<Rightarrow> bool" where
  "stmt_ok db0 st \<longleftrightarrow>
     (\<forall>now db x db'. db_inv db \<longrightarrow> db_grows db0 db \<longrightarrow> st now db = Inr (x, db') \<longrightarrow>
        db_inv db' \<and> db_grows db db')"

lemma stmt_ok_reading [simp]: "stmt_ok db0 (reading q)"
  by (auto simp: stmt_ok_def reading_def)

lemma stmt_ok_reading_page [simp]: "stmt_ok db0 (reading_page q)"
  by (auto simp: stmt_ok_def reading_page_def split: sum.splits)

lemma payment_insert_ok:
  assumes "p_status d = PENDING" "p_transactionId d = None" "p_paidAt d = None"
  shows "stmt_ok db0 (payment_insert d)"
  unfolding stmt_ok_def
proof (intro allI impI)
  fix now db n db'
  assume inv: "db_inv db" and ins: "payment_insert d now db = Inr (n, db')"
  from ins obtain r where db': "db' = db\<lparr>payments := payments db @ [r]\<rparr>"
    and r: "payment_ok r" "p_orderNumber r = p_orderNumber d"
    using assms by (auto simp: payment_insert_Inr payment_ok_def payment_data.extend_def)
  have "distinct (map p_orderNumber (payments db'))"
    using payment_table.unique_insert [OF ins] inv by (simp add: db_inv_def)
  moreover have grow: "db_grows db db'" by (simp add: db' db_grows_def)
  moreover have "rooted db'" by (rule rooted_later [OF _ grow]) (use inv db' in \<open>simp_all add: db_inv_def\<close>)
  ultimately show "db_inv db' \<and> db_grows db db'" using inv r(1) db' by (simp add: db_inv_def)
qed

lemma subscription_insert_ok:
  assumes "ns_status d = ACTIVE"
  shows "stmt_ok db0 (subscription_insert d)"
  unfolding stmt_ok_def
proof (intro allI impI)
  fix now db n db'
  assume inv: "db_inv db" and ins: "subscription_insert d now db = Inr (n, db')"
  from ins obtain r where db': "db' = db\<lparr>subscriptions := subscriptions db @ [r]\<rparr>"
    and r: "subscription_ok r"
    using assms by (auto simp: subscription_insert_Inr subscription_ok_def)
  have "distinct (map s_subscriptionId (subscriptions db'))"
    using subscription_table.unique_insert [OF ins] inv by (simp add: db_inv_def)
  moreover have grow: "db_grows db db'" by (simp add: db' db_grows_def)
  moreover have "rooted db'" by (rule rooted_later [OF _ grow]) (use inv db' in \<open>simp_all add: db_inv_def\<close>)
  ultimately show "db_inv db' \<and> db_grows db db'" using inv r(1) db' by (simp add: db_inv_def)
qed

text \<open>Updates: the key and the terms stay, and the row is one the new status allows.\<close>

lemma map_eq_key: "map f xs = map f ys \<Longrightarrow> (\<And>x y. f x = f y \<Longrightarrow> g x = g y) \<Longrightarrow> map g xs = map g ys"
proof -
  assume eq: "map f xs = map f ys" and fg: "\<And>x y. f x = f y \<Longrightarrow> g x = g y"
  have "list_all2 (=) (map f xs) (map f ys)" unfolding eq by (rule list.rel_refl) (rule refl)
  then have "list_all2 (\<lambda>x y. f x = f y) xs ys" by (simp only: list.rel_map)
  then have "list_all2 (\<lambda>x y. g x = g y) xs ys" by (rule list_all2_mono) (rule fg)
  then have "list_all2 (=) (map g xs) (map g ys)" by (simp only: list.rel_map)
  then show ?thesis by (simp only: list.rel_eq)
qed

lemma payment_rows_ok:
  assumes inv: "db_inv db" and rows: "map ordered_terms rows = map ordered_terms (payments db)"
    and ok: "\<forall>p \<in> set rows. payment_ok p"
  shows "db_inv (db\<lparr>payments := rows\<rparr>) \<and> db_grows db (db\<lparr>payments := rows\<rparr>)"
proof -
  have "map p_orderNumber rows = map p_orderNumber (payments db)"
    using rows by (rule map_eq_key) (simp add: ordered_terms_def)
  moreover have grow: "db_grows db (db\<lparr>payments := rows\<rparr>)" using rows by (simp add: db_grows_def)
  moreover have "rooted (db\<lparr>payments := rows\<rparr>)" by (rule rooted_later [OF _ grow]) (use inv in \<open>simp_all add: db_inv_def\<close>)
  ultimately show ?thesis using inv ok by (simp add: db_inv_def)
qed

lemma subscription_rows_ok:
  assumes inv: "db_inv db" and rows: "map owner_of rows = map owner_of (subscriptions db)"
    and ok: "\<forall>s \<in> set rows. subscription_ok s"
  shows "db_inv (db\<lparr>subscriptions := rows\<rparr>) \<and> db_grows db (db\<lparr>subscriptions := rows\<rparr>)"
proof -
  have "map s_subscriptionId rows = map s_subscriptionId (subscriptions db)"
    using rows by (rule map_eq_key) (simp add: owner_of_def)
  moreover have grow: "db_grows db (db\<lparr>subscriptions := rows\<rparr>)" using rows by (simp add: db_grows_def)
  moreover have "rooted (db\<lparr>subscriptions := rows\<rparr>)" by (rule rooted_later [OF _ grow]) (use inv in \<open>simp_all add: db_inv_def\<close>)
  ultimately show ?thesis using inv ok by (simp add: db_inv_def)
qed

definition payment_sets_ok :: "payment_status \<Rightarrow> (string \<times> sql_value) list \<Rightarrow> bool" where
  "payment_sets_ok st extra \<longleftrightarrow>
     (\<forall>now r r'. payment_set_row st (map (\<lambda>(k, v). (column_name k, v)) extra) now r = Inr r' \<longrightarrow>
        ordered_terms r' = ordered_terms r \<and> payment_ok r')"

lemma payment_update_ok:
  assumes "payment_sets_ok st extra"
  shows "stmt_ok db0 (payment_update on st extra)"
  unfolding stmt_ok_def
proof (intro allI impI)
  fix now db x db'
  assume inv: "db_inv db" and "payment_update on st extra now db = Inr (x, db')"
  from this(2) obtain rows where db': "db' = db\<lparr>payments := rows\<rparr>" and rows: "update_where
      (\<lambda>r. p_orderNumber r = on) (payment_set_row st (map (\<lambda>(k, v). (column_name k, v)) extra) now)
      (payments db) = Inr rows" by (rule payment_update_Inr)
  have "map ordered_terms rows = map ordered_terms (payments db)"
    using rows by (rule update_where_keys) (use assms in \<open>simp add: payment_sets_ok_def\<close>)
  moreover have "\<forall>p \<in> set rows. payment_ok p"
    using rows by (rule update_where_all_rows)
      (use assms inv in \<open>auto simp: payment_sets_ok_def db_inv_def\<close>)
  ultimately show "db_inv db' \<and> db_grows db db'"
    unfolding db' by (rule payment_rows_ok [OF inv])
qed

definition subscription_sets_ok :: "subscription_status \<Rightarrow> (string \<times> sql_value) list \<Rightarrow> bool" where
  "subscription_sets_ok st extra \<longleftrightarrow>
     (\<forall>now r r'. subscription_set_row st (map (\<lambda>(k, v). (column_name k, v)) extra) now r = Inr r' \<longrightarrow>
        owner_of r' = owner_of r \<and> subscription_ok r')"

lemma subscription_update_ok:
  assumes "subscription_sets_ok st extra"
  shows "stmt_ok db0 (subscription_update sid st extra)"
  unfolding stmt_ok_def
proof (intro allI impI)
  fix now db x db'
  assume inv: "db_inv db" and "subscription_update sid st extra now db = Inr (x, db')"
  from this(2) obtain rows where db': "db' = db\<lparr>subscriptions := rows\<rparr>" and rows: "update_where
      (\<lambda>r. s_subscriptionId r = sid)
      (subscription_set_row st (map (\<lambda>(k, v). (column_name k, v)) extra) now)
      (subscriptions db) = Inr rows" by (rule subscription_update_Inr)
  have "map owner_of rows = map owner_of (subscriptions db)"
    using rows by (rule update_where_keys) (use assms in \<open>simp add: subscription_sets_ok_def\<close>)
  moreover have "\<forall>s \<in> set rows. subscription_ok s"
    using rows by (rule update_where_all_rows)
      (use assms inv in \<open>auto simp: subscription_sets_ok_def db_inv_def\<close>)
  ultimately show "db_inv db' \<and> db_grows db db'"
    unfolding db' by (rule subscription_rows_ok [OF inv])
qed

lemma subscription_renew_ok: "stmt_ok db0 (subscription_renew sid newEnd)"
  unfolding stmt_ok_def
proof (intro allI impI)
  fix now db x db'
  assume inv: "db_inv db" and "subscription_renew sid newEnd now db = Inr (x, db')"
  from this(2) obtain rows where db': "db' = db\<lparr>subscriptions := rows\<rparr>" and rows: "update_where
      (\<lambda>r. s_subscriptionId r = sid) (\<lambda>r. Inr (renew_row newEnd now r)) (subscriptions db) = Inr rows"
    by (auto simp: subscription_renew_def split: sum.splits)
  have "map owner_of rows = map owner_of (subscriptions db)"
    using rows by (rule update_where_keys) (auto simp: owner_of_def renew_row_def)
  moreover have "\<forall>s \<in> set rows. subscription_ok s"
    using rows by (rule update_where_all_rows)
      (use inv in \<open>auto simp: subscription_ok_def db_inv_def renew_row_def\<close>)
  ultimately show "db_inv db' \<and> db_grows db db'"
    unfolding db' by (rule subscription_rows_ok [OF inv])
qed

text \<open>
  An insert into the log with a version one above what was the latest when it was read: by now
  the latest may be higher, and then the unique index refuses it.
\<close>

lemma event_insert_ok:
  assumes "e_version ev = latest_version (e_aggregateId ev) db0 + 1"
    "0 \<le> latest_version (e_aggregateId ev) db0" "has_root (e_aggregateType ev) (e_aggregateId ev) db0"
  shows "stmt_ok db0 (event_insert ev)"
  unfolding stmt_ok_def
proof (intro allI impI)
  fix now db n db'
  assume inv: "db_inv db" and grow: "db_grows db0 db" and ins: "event_insert ev now db = Inr (n, db')"
  from inv have gapless: "\<And>a. versions_of a db = map int [1..<Suc (length (versions_of a db))]"
    by (simp add: db_inv_def log_gapless_def)
  have "latest_version (e_aggregateId ev) db0 \<le> latest_version (e_aggregateId ev) db"
    using grow event_log.set_gapless [OF gapless]
    by (intro latest_version_mono) (auto simp: db_grows_def)
  then have "log_gapless db'"
    unfolding log_gapless_def using event_log.append_gapless [OF ins gapless] assms(1,2) by simp
  moreover have "distinct (map se_eventId (event_store db'))"
    using event_table.unique_insert [OF ins] inv by (simp add: db_inv_def)
  moreover have grow': "db_grows db db'" using ins by (auto simp: db_grows_def event_insert_Inr)
  moreover have "rooted db'"
  proof -
    from ins have rows: "set (event_store db') = insert (stored_row ev now n) (set (event_store db))"
      by (auto simp: event_insert_Inr)
    have "has_root (e_aggregateType ev) (e_aggregateId ev) db'"
      using assms(3) grow grow' by (blast intro: has_root_grows)
    moreover have "\<forall>r \<in> set (event_store db). has_root (se_aggregateType r) (se_aggregateId r) db'"
      using inv grow' by (auto simp: db_inv_def rooted_def intro: has_root_grows)
    ultimately show ?thesis unfolding rooted_def rows by (simp add: stored_row_def)
  qed
  ultimately show "db_inv db' \<and> db_grows db db'"
    using ins inv by (simp add: db_inv_def event_insert_Inr)
qed

lemma summary_upsert_ok:
  assumes "\<And>r. sm_date (upd r) = sm_date r"
  shows "summary_upsert ins upd now db = Inr (x, db') \<Longrightarrow> db_inv db \<Longrightarrow> db_inv db' \<and> db_grows db db'"
proof -
  assume up: "summary_upsert ins upd now db = Inr (x, db')" and inv: "db_inv db"
  have frame: "payments db' = payments db" "subscriptions db' = subscriptions db"
    "event_store db' = event_store db" using summary_upsert_frame [OF up] by auto
  have "distinct (map sm_date (payment_summary db')) \<and>
      prefix (map sm_date (payment_summary db)) (map sm_date (payment_summary db'))"
  proof (cases "find_row sm_date (sm_date ins) (payment_summary db)")
    case None
    with up have "payment_summary db' = payment_summary db @ [ins]"
      by (auto simp: summary_upsert_def summary_store_def split: if_splits)
    with None inv show ?thesis by (auto simp: find_row_None db_inv_def)
  next
    case (Some r)
    with up obtain rows where rows: "update_where (\<lambda>x. sm_date x = sm_date ins)
        (\<lambda>x. summary_store ((upd x)\<lparr>sm_updatedAt := now\<rparr>)) (payment_summary db) = Inr rows"
        "db' = db\<lparr>payment_summary := rows\<rparr>"
      by (auto simp: summary_upsert_def summary_store_def split: sum.splits if_splits)
    have "map sm_date rows = map sm_date (payment_summary db)"
      using rows(1) by (rule update_where_keys) (auto simp: assms summary_store_def split: if_splits)
    with rows(2) inv show ?thesis by (simp add: db_inv_def)
  qed
  moreover from this frame have grow: "db_grows db db'" by (simp add: db_grows_def)
  moreover have "rooted db'" by (rule rooted_later [OF _ grow frame(3)]) (use inv in \<open>simp add: db_inv_def\<close>)
  ultimately show ?thesis using inv frame log_gapless_cong [OF frame(3)] by (simp add: db_inv_def)
qed

lemma upserts_ok [simp]:
  "stmt_ok db0 (upsert_completed d a)" "stmt_ok db0 (upsert_refunded d a)" "stmt_ok db0 (upsert_failed s)"
  unfolding stmt_ok_def upsert_completed_def upsert_refunded_def upsert_failed_def
  by (auto dest: summary_upsert_ok [rotated] split: option.splits)

end
