(* ===== verification/Safety.thy ===== *)
theory Safety
  imports Invariants
begin

text \<open>
  Every operation of the handlers and workers is \<open>safe\<close>: between any two of its awaits other
  requests may run, any remote call may fail before or after it took effect, and still the
  invariant of \<open>Invariants\<close> holds and nothing stored is lost. The rules are one per action
  (\<open>to_remote\<close>, \<open>to_sql\<close> and so on); an operation's lemma follows its code. Where an
  operation returns, its lemma also says what is then stored, a fact that later changes keep.
\<close>

section \<open>Facts that stay true\<close>

definition has_order :: "string \<times> string \<times> string \<times> money \<times> string \<Rightarrow> world \<Rightarrow> bool" where
  "has_order t w \<longleftrightarrow> t \<in> ordered_terms ` set (payments (w_db w))"

definition has_subscription :: "string \<times> string \<times> string \<times> subscription_plan \<Rightarrow> world \<Rightarrow> bool" where
  "has_subscription t w \<longleftrightarrow> t \<in> owner_of ` set (subscriptions (w_db w))"

definition has_event :: "event_type \<Rightarrow> string \<Rightarrow> event_payload \<Rightarrow> world \<Rightarrow> bool" where
  "has_event ty a payload w \<longleftrightarrow>
     (\<exists>r \<in> set (event_store (w_db w)). se_eventType r = event_type_str ty \<and> se_aggregateId r = a
        \<and> se_payload r = json_of_payload payload)"

definition has_job :: "queue_name \<Rightarrow> job_data \<Rightarrow> world \<Rightarrow> bool" where
  "has_job q d w \<longleftrightarrow> (\<exists>j \<in> set (w_jobs w). q_name (jc_queue j) = q \<and> jc_data j = d)"

lemma set_prefix: "prefix xs ys \<Longrightarrow> x \<in> set xs \<Longrightarrow> x \<in> set ys"
  by (auto elim: prefixE)

lemma has_order_stays: "has_order t w \<Longrightarrow> world_grows w w' \<Longrightarrow> has_order t w'"
  unfolding has_order_def world_grows_def db_grows_def by (metis set_map set_prefix)

lemma has_subscription_stays: "has_subscription t w \<Longrightarrow> world_grows w w' \<Longrightarrow> has_subscription t w'"
  unfolding has_subscription_def world_grows_def db_grows_def by (metis set_map set_prefix)

lemma has_event_stays: "has_event ty a p w \<Longrightarrow> world_grows w w' \<Longrightarrow> has_event ty a p w'"
  unfolding has_event_def world_grows_def db_grows_def by (meson set_prefix)

lemma has_job_stays: "has_job q d w \<Longrightarrow> world_grows w w' \<Longrightarrow> has_job q d w'"
  unfolding has_job_def world_grows_def by (meson set_prefix)

lemma has_root_stays: "has_root aty a (w_db w) \<Longrightarrow> world_grows w w' \<Longrightarrow> has_root aty a (w_db w')"
  unfolding world_grows_def by (blast intro: has_root_grows)

lemmas stays = has_root_stays has_order_stays has_subscription_stays has_event_stays has_job_stays

section \<open>Rules for the actions\<close>

abbreviation safe_to :: "world \<Rightarrow> ('a \<Rightarrow> world \<Rightarrow> bool) \<Rightarrow> 'a io \<Rightarrow> bool" where
  "safe_to w Q p \<equiv> safe world_inv world_grows Q (\<lambda>_ _. True) w p"

lemmas to_seq = sys.safe_seq [where E = "\<lambda>_ _. True"]
lemmas to_weaken = sys.safe_weaken [where E = "\<lambda>_ _. True"]

lemma ok_seq: "ok w m \<Longrightarrow> (\<And>x w'. world_grows w w' \<Longrightarrow> safe_to w' Q (f x)) \<Longrightarrow> safe_to w Q (seq m f)"
  by (rule to_seq) auto

lemma ok_catch:
  "safe_to w Q m \<Longrightarrow> (\<And>e w'. world_grows w w' \<Longrightarrow> safe_to w' Q (h e)) \<Longrightarrow> safe_to w Q (catch m h)"
  by (rule sys.safe_catch) auto

lemma to_Done: "Q x w \<Longrightarrow> safe_to w Q (Done x)"
  by (rule safe.returns)

lemma to_Fail: "safe_to w Q (Fail e)"
  by (rule safe.throws) simp

lemma ok_weaken: "safe_to w Q p \<Longrightarrow> ok w p"
  by (rule sys.safe_weaken_True)

lemma world_inv_tick [simp]: "world_inv (tick w) = world_inv w"
  by (simp add: world_inv_def registry_ok_def)

lemma world_grows_tick [simp]: "world_grows w (tick w)"
  by (simp add: world_grows_def)

lemma world_grows_tick_trans: "world_grows w w' \<Longrightarrow> world_grows w (tick w')"
  using world_grows_tick world_grows_trans by blast

lemma to_remote:
  assumes "\<And>n w' r w''. world_grows w w' \<Longrightarrow> world_inv w' \<Longrightarrow> f n w' = (r, w'') \<Longrightarrow>
      world_inv w'' \<and> world_grows w' w'' \<and> (\<forall>x. r = Inr x \<longrightarrow> Q x w'')"
  shows "safe_to w Q (remote E f)"
  unfolding remote_def
proof (rule safe_act)
  fix v r v'
  assume v: "world_grows w v" "world_inv v" and step: "(case fault E (w_tick v) of
      NoFault \<Rightarrow> f (w_tick v) (tick v)
    | NotApplied m \<Rightarrow> (Inl (Unavailable m), tick v)
    | AppliedButLost m \<Rightarrow> (Inl (Unavailable m), snd (f (w_tick v) (tick v)))) = (r, v')"
  obtain r1 v1 where f: "f (w_tick v) (tick v) = (r1, v1)" by fastforce
  from v have "world_grows w (tick v)" "world_inv (tick v)" by (simp_all add: world_grows_tick_trans)
  from assms [OF this f] have f': "world_inv v1" "world_grows v v1" "\<forall>x. r1 = Inr x \<longrightarrow> Q x v1"
    using world_grows_tick world_grows_trans by blast+
  show "world_inv v' \<and> world_grows v v' \<and> (case r of Inl e \<Rightarrow> True | Inr x \<Rightarrow> Q x v')"
  proof (cases "fault E (w_tick v)")
    case NoFault
    with step f f' show ?thesis by (auto split: sum.split)
  next
    case (NotApplied m)
    with step v show ?thesis by auto
  next
    case (AppliedButLost m)
    with step f f' show ?thesis by auto
  qed
qed

lemma to_sql:
  assumes "\<And>n. stmt_ok (w_db w) (st n)"
    "\<And>n now db x db'. db_inv db \<Longrightarrow> db_grows (w_db w) db \<Longrightarrow> st n now db = Inr (x, db') \<Longrightarrow>
       db_inv db' \<Longrightarrow> Q x db'"
  shows "safe_to w (\<lambda>x w'. Q x (w_db w')) (sql E st)"
  unfolding sql_def
proof (rule to_remote)
  fix n w' r w''
  assume w': "world_grows w w'" "world_inv w'"
    and step: "sql_effect (st n) (sql_now (db_clock E n)) w' = (r, w'')"
  from w' have db: "db_inv (w_db w')" "db_grows (w_db w) (w_db w')"
    by (simp_all add: world_inv_def world_grows_def)
  show "world_inv w'' \<and> world_grows w' w'' \<and> (\<forall>x. r = Inr x \<longrightarrow> Q x (w_db w''))"
  proof (cases "st n (sql_now (db_clock E n)) (w_db w')")
    case (Inl e)
    with step w' show ?thesis by (auto simp: sql_effect_def)
  next
    case (Inr y)
    obtain x db' where y: "y = (x, db')" by (cases y)
    from assms(1) [of n] db Inr y have grown: "db_inv db' \<and> db_grows (w_db w') db'"
      unfolding stmt_ok_def by blast
    moreover from this assms(2) [OF db Inr [unfolded y]] have "Q x db'" by simp
    moreover have "\<forall>c \<in> set (w_jobs w'). job_ok db' c"
      using grown w'(2) by (auto simp: world_inv_def intro: job_ok_grows)
    ultimately show ?thesis using step w' Inr y
      by (auto simp: sql_effect_def world_inv_def world_grows_def registry_ok_def)
  qed
qed

lemma ok_sql: "(\<And>n. stmt_ok (w_db w) (st n)) \<Longrightarrow> ok w (sql E st)"
  by (rule to_sql [where Q = "\<lambda>_ _. True"]) simp_all

lemma ok_new_date: "ok w (new_date E)" and ok_uuidv4: "ok w (uuidv4 E)"
  unfolding new_date_def uuidv4_def by (rule safe_act; auto)+

lemma to_unbound: "safe_to w Q (unbound E)"
  unfolding unbound_def by (rule to_remote) auto

lemma ok_redis_get: "ok w (RedisClient_get E key)"
  unfolding RedisClient_get_def by (rule to_remote) auto

lemma ok_redis_set: "ok w (RedisClient_set E key v ttl)"
  unfolding RedisClient_set_def
  by (rule to_remote) (auto simp: world_inv_def world_grows_def registry_ok_def)

lemma to_queue_add:
  assumes "job_ok (w_db w) \<lparr>jc_queue = q, jc_name = name, jc_data = d, jc_options = opts\<rparr>"
  shows "safe_to w (\<lambda>_ w'. has_job (q_name q) d w') (queue_add E q name d opts)"
  unfolding queue_add_def
  by (rule to_remote) (use assms in \<open>auto simp: world_inv_def world_grows_def registry_ok_def has_job_def
      intro: job_ok_grows\<close>)

lemma safe_act_run:
  assumes "\<And>w' r w''. G w w' \<Longrightarrow> I w' \<Longrightarrow> run (act f) w' = (r, w'') \<Longrightarrow>
      I w'' \<and> G w' w'' \<and> (case r of Inl e \<Rightarrow> E e w'' | Inr x \<Rightarrow> Q x w'')"
  shows "safe I G Q E w (act f)"
  using assms by (intro safe_act) (simp add: run_act)

lemma map_of_queues: "registry_ok w \<Longrightarrow> map_of (w_queues w) name = Some q \<Longrightarrow> q_name q = name"
  by (auto simp: registry_ok_def dest!: map_of_SomeD)

lemma to_getOrCreateQueue: "safe_to w (\<lambda>q _. q_name q = name) (getOrCreateQueue name)"
  unfolding getOrCreateQueue_def
proof (rule safe_act_run)
  fix v v' and r :: "js_error + queue"
  assume v: "world_inv v" and "run (act (\<lambda>w. case map_of (w_queues w) name of
       Some q \<Rightarrow> (Inr q, w)
     | None \<Rightarrow>
         let q = \<lparr>q_name = name, q_handle = w_created w\<rparr>
         in (Inr q, w\<lparr>w_queues := AList.update name q (w_queues w), w_created := Suc (w_created w)\<rparr>))) v
     = (r, v')"
  then have step: "run (getOrCreateQueue name) v = (r, v')" unfolding getOrCreateQueue_def by simp
  from v have reg: "registry_ok v" by (simp add: world_inv_def)
  from reg step have "registry_ok v'" by (rule registry_ok_getOrCreateQueue)
  moreover have "\<exists>q. r = Inr q \<and> q_name q = name"
    using step map_of_queues [OF reg, of name] by (auto simp: run_getOrCreateQueue split: option.splits)
  ultimately show "world_inv v' \<and> world_grows v v' \<and> (case r of Inl e \<Rightarrow> True | Inr q \<Rightarrow> q_name q = name)"
    using v getOrCreateQueue_frame [OF step] by (auto simp: world_inv_def world_grows_def)
qed

section \<open>Publishing\<close>

text \<open>
  A publish may run while others append to the same aggregate: the version it read may be stale
  when it stores its event, and then the unique index refuses the event.
\<close>

lemma to_latest_version:
  "safe_to w (\<lambda>v w'. v = latest_version a (w_db w') \<and> 0 \<le> v) (EventStoreRepository_getLatestVersion E a)"
  unfolding EventStoreRepository_getLatestVersion_def
proof (rule to_sql)
  fix n now db x db'
  assume inv: "db_inv db'" and read: "reading (latest_version a) now db = Inr (x, db')"
  from inv have "versions_of a db' = map int [1..<Suc (length (versions_of a db'))]"
    unfolding db_inv_def log_gapless_def by blast
  from event_log.latest_nonneg [OF this] read show "x = latest_version a db' \<and> 0 \<le> x"
    by (auto simp: reading_def)
qed simp

lemma stmt_ok_later: "stmt_ok db0 st \<Longrightarrow> db_grows db0 db1 \<Longrightarrow> stmt_ok db1 st"
  unfolding stmt_ok_def using db_grows_trans by blast

lemma to_append:
  assumes "stmt_ok (w_db w) (event_insert ev)"
  shows "safe_to w (\<lambda>_. has_event (e_type ev) (e_aggregateId ev) (e_payload ev)) (EventStoreRepository_append E ev)"
  unfolding EventStoreRepository_append_def has_event_def
  by (rule to_sql) (auto simp: assms event_insert_Inr)

lemma ok_all_settled: "(\<And>p w'. p \<in> set ps \<Longrightarrow> world_grows w w' \<Longrightarrow> ok w' p) \<Longrightarrow> ok w (all_settled ps)"
proof (induction ps arbitrary: w)
  case Nil
  show ?case by (simp add: to_Done)
next
  case (Cons p ps)
  show ?case unfolding all_settled.simps
  proof (intro ok_seq ok_catch to_Done)
    show "ok w p" by (rule Cons.prems) simp_all
    show "ok w' (all_settled ps)" if "world_grows w w'" for w'
      using that Cons.prems world_grows_trans by (intro Cons.IH) auto
  qed simp
qed

lemma to_publish:
  assumes "\<And>h ev w. ok w (exec h ev)" "has_root aty a (w_db w)"
  shows "safe_to w (\<lambda>_. has_event ty a payload) (EventBus_publish E exec ty a aty payload)"
  unfolding EventBus_publish_def Let_def
proof (rule to_seq [OF to_latest_version], rule ok_seq [OF ok_uuidv4], rule ok_seq [OF ok_new_date])
  fix v w1 eid w2 now w3
  assume v: "v = latest_version a (w_db w1) \<and> 0 \<le> v" and "world_grows w w1"
    and grow: "world_grows w1 w2" "world_grows w2 w3"
  let ?ev = "\<lparr>e_id = eid, e_type = ty, e_aggregateId = a, e_aggregateType = aty,
    e_payload = payload, e_occurredAt = now, e_version = v + 1\<rparr>"
  let ?P = "has_event ty a payload"
  have "stmt_ok (w_db w1) (event_insert ?ev)" using v has_root_stays [OF assms(2) \<open>world_grows w w1\<close>] by (intro event_insert_ok) simp_all
  moreover have "db_grows (w_db w1) (w_db w3)"
    using world_grows_trans [OF grow] by (simp add: world_grows_def)
  ultimately have "stmt_ok (w_db w3) (event_insert ?ev)" by (rule stmt_ok_later)
  from to_append [OF this, of E]
  show "safe_to w3 (\<lambda>_. ?P) (seq (EventStoreRepository_append E ?ev) (\<lambda>_.
      seq (act (\<lambda>w. (Inr (handlers_of ty w), w))) (\<lambda>handlers.
      seq (all_settled (map (\<lambda>h. exec h ?ev) handlers)) (\<lambda>_. Done ?ev))))"
  proof (rule to_seq, simp, intro ok_seq to_Done)
    fix w4 assume "?P w4"
    show "ok w4 (act (\<lambda>w. (Inr (handlers_of ty w), w)))" by (rule safe_act) auto
    show "ok w5 (all_settled (map (\<lambda>h. exec h ?ev) hs))" for w5 hs
      by (rule ok_all_settled) (auto intro: assms(1))
    fix w5 w6 assume "world_grows w4 w5" "world_grows w5 w6"
    with \<open>?P w4\<close> show "?P w6" by (blast intro: has_event_stays)
  qed
qed

lemma ok_projector: "ok w (projector_exec E h ev)"
proof (cases h)
  case OnPaymentCompleted
  then show ?thesis
    by (auto simp: onPaymentCompleted_def intro!: ok_sql to_unbound split: event_payload.split)
next
  case OnPaymentRefunded
  then show ?thesis
    by (auto simp: onPaymentRefunded_def intro!: ok_sql to_unbound split: event_payload.split)
next
  case OnPaymentFailed
  then show ?thesis
    by (auto simp: onPaymentFailed_def Let_def intro!: ok_seq ok_new_date ok_sql)
qed

lemmas to_published = to_publish [OF ok_projector]

end
