(* ===== verification/Requests.thy ===== *)
theory Requests
  imports PaymentHandler SubscriptionHandler
begin

text \<open>
  The bodies of the five \<open>POST\<close> requests. The controllers destructure \<open>req.body\<close> without looking at
  it, so every member of it may be missing, and the handlers then run with \<open>undefined\<close> in the
  place of a value. A template literal prints it as the text \<open>undefined\<close>; \<open>query\<close> sends it to the
  database as \<open>NULL\<close>, with which no row compares; \<open>execute\<close> refuses it, once it has a connection and
  before it sends anything (\<open>unbound\<close>). A body with all members runs the operation of the handler;
  otherwise the operations below take its steps as far as they go.
\<close>

section \<open>Bodies\<close>

record request_fields =
  rq_userId :: "string option"
  rq_productId :: "string option"
  rq_amount :: "money option"
  rq_currency :: "string option"
  rq_orderNumber :: "string option"
  rq_transactionId :: "string option"
  rq_paidAmount :: "money option"
  rq_refundAmount :: "money option"
  rq_reason :: "string option"
  rq_planId :: "string option"
  rq_plan :: "string option"

definition no_fields :: request_fields where
  "no_fields = \<lparr>rq_userId = None, rq_productId = None, rq_amount = None, rq_currency = None,
     rq_orderNumber = None, rq_transactionId = None, rq_paidAmount = None, rq_refundAmount = None,
     rq_reason = None, rq_planId = None, rq_plan = None\<rparr>"

definition js_text :: "string option \<Rightarrow> string" where
  "js_text s = (case s of None \<Rightarrow> ''undefined'' | Some t \<Rightarrow> t)"

definition no_row :: "env \<Rightarrow> 'a option io" where
  "no_row E = sql E (\<lambda>_. reading (\<lambda>_. None))"

section \<open>Payments\<close>

definition create_request :: "request_fields \<Rightarrow> create_payment_request option" where
  "create_request f =
     (case (rq_userId f, rq_productId f, rq_amount f) of
        (Some u, Some p, Some a) \<Rightarrow>
          Some \<lparr>cp_userId = u, cp_productId = p, cp_amount = a, cp_currency = rq_currency f\<rparr>
      | _ \<Rightarrow> None)"

definition createPayment_fields :: "env \<Rightarrow> request_fields \<Rightarrow> string io" where
  "createPayment_fields E f =
     (case create_request f of
        Some req \<Rightarrow> createPayment E req
      | None \<Rightarrow>
          seq (new_date E) (\<lambda>now.
          seq (uuidv4 E) (\<lambda>u.
          seq (RedisClient_get E (idempotency_key (js_text (rq_userId f)) (js_text (rq_productId f)))) (\<lambda>existing.
          if existing \<noteq> None \<and> existing \<noteq> Some '''' then Fail (DuplicatePaymentError (the existing))
          else unbound E))))"

text \<open>
  A missing amount is the one gap that no statement notices: the payload of the event has no
  \<open>paidAmount\<close>.
\<close>

definition completePayment_fields :: "env \<Rightarrow> request_fields \<Rightarrow> unit io" where
  "completePayment_fields E f =
     (case rq_orderNumber f of
        None \<Rightarrow> seq (no_row E) (\<lambda>payment :: payment option. Fail (NotFoundError ''Payment'' (js_text None)))
      | Some orderNumber \<Rightarrow>
          case (rq_transactionId f, rq_paidAmount f) of
            (Some tid, Some amount) \<Rightarrow>
              completePayment E \<lparr>co_orderNumber = orderNumber, co_transactionId = tid, co_paidAmount = amount\<rparr>
          | (transactionId, paidAmount) \<Rightarrow>
              seq (PaymentRepository_findByOrderNumber E orderNumber) (\<lambda>payment.
              case payment of
                None \<Rightarrow> Fail (NotFoundError ''Payment'' orderNumber)
              | Some p \<Rightarrow>
                  if p_status p \<noteq> PENDING then Fail (DuplicatePaymentError orderNumber) else
                  seq (new_date E) (\<lambda>now.
                  case transactionId of
                    None \<Rightarrow> unbound E
                  | Some tid \<Rightarrow>
                      seq (PaymentRepository_updateStatus E orderNumber COMPLETED
                            [(''transactionId'', VStr tid), (''paidAt'', VDate now)]) (\<lambda>_.
                      seq (new_date E) (\<lambda>paidAt.
                      seq (publish E PAYMENT_COMPLETED orderNumber ''Payment''
                            (UnpricedCompletedPayload orderNumber tid paidAt)) (\<lambda>_.
                      Done ()))))))"

definition refundPayment_fields :: "env \<Rightarrow> string \<Rightarrow> request_fields \<Rightarrow> unit io" where
  "refundPayment_fields E orderNumber f =
     (case (rq_refundAmount f, rq_reason f) of
        (Some amount, Some reason) \<Rightarrow>
          refundPayment E \<lparr>rf_orderNumber = orderNumber, rf_refundAmount = amount, rf_reason = reason\<rparr>
      | _ \<Rightarrow>
          seq (PaymentRepository_findByOrderNumber E orderNumber) (\<lambda>payment.
          case payment of
            None \<Rightarrow> Fail (NotFoundError ''Payment'' orderNumber)
          | Some p \<Rightarrow>
              if p_status p \<noteq> COMPLETED
              then Fail (PlainError (''Cannot refund payment in '' @ payment_status_str (p_status p) @ '' status''))
              else seq (new_date E) (\<lambda>now. unbound E)))"

section \<open>Subscriptions\<close>

definition subscription_request :: "request_fields \<Rightarrow> create_subscription_request option" where
  "subscription_request f =
     (case (rq_userId f, rq_planId f, rq_plan f) of
        (Some u, Some i, Some p) \<Rightarrow> Some \<lparr>cs_userId = u, cs_planId = i, cs_plan = p\<rparr>
      | _ \<Rightarrow> None)"

definition createSubscription_fields :: "env \<Rightarrow> request_fields \<Rightarrow> string io" where
  "createSubscription_fields E f =
     (case subscription_request f of
        Some req \<Rightarrow> createSubscription E req
      | None \<Rightarrow>
          seq (case rq_userId f of
                 None \<Rightarrow> no_row E
               | Some userId \<Rightarrow> SubscriptionRepository_findActiveByUserId E userId) (\<lambda>existing.
          if existing \<noteq> None
          then Fail (ConflictError (''User '' @ js_text (rq_userId f) @ '' already has an active subscription''))
          else
          seq (uuidv4 E) (\<lambda>u.
          seq (new_date E) (\<lambda>startDate. unbound E))))"

definition cancelSubscription_fields :: "env \<Rightarrow> string \<Rightarrow> request_fields \<Rightarrow> unit io" where
  "cancelSubscription_fields E subscriptionId f =
     (case rq_reason f of
        Some reason \<Rightarrow> cancelSubscription E subscriptionId reason
      | None \<Rightarrow>
          seq (SubscriptionRepository_findBySubscriptionId E subscriptionId) (\<lambda>sub.
          case sub of
            None \<Rightarrow> Fail (NotFoundError ''Subscription'' subscriptionId)
          | Some s \<Rightarrow>
              if s_status s \<noteq> ACTIVE
              then Fail (ConflictError (''Subscription '' @ subscriptionId @ '' is not active''))
              else seq (new_date E) (\<lambda>now. unbound E)))"

section \<open>Complete bodies\<close>

definition create_fields :: "create_payment_request \<Rightarrow> request_fields" where
  "create_fields req = no_fields\<lparr>rq_userId := Some (cp_userId req), rq_productId := Some (cp_productId req),
     rq_amount := Some (cp_amount req), rq_currency := cp_currency req\<rparr>"

definition complete_fields :: "complete_payment_request \<Rightarrow> request_fields" where
  "complete_fields req = no_fields\<lparr>rq_orderNumber := Some (co_orderNumber req),
     rq_transactionId := Some (co_transactionId req), rq_paidAmount := Some (co_paidAmount req)\<rparr>"

definition refund_fields :: "money \<Rightarrow> string \<Rightarrow> request_fields" where
  "refund_fields refundAmount reason =
     no_fields\<lparr>rq_refundAmount := Some refundAmount, rq_reason := Some reason\<rparr>"

definition subscribe_fields :: "create_subscription_request \<Rightarrow> request_fields" where
  "subscribe_fields req = no_fields\<lparr>rq_userId := Some (cs_userId req), rq_planId := Some (cs_planId req),
     rq_plan := Some (cs_plan req)\<rparr>"

definition cancel_fields :: "string \<Rightarrow> request_fields" where
  "cancel_fields reason = no_fields\<lparr>rq_reason := Some reason\<rparr>"

lemmas fields_defs = no_fields_def create_fields_def complete_fields_def refund_fields_def
  subscribe_fields_def cancel_fields_def

lemma requests_of_fields [simp]:
  "create_request (create_fields creq) = Some creq"
  "subscription_request (subscribe_fields sreq) = Some sreq"
  by (simp_all add: create_request_def subscription_request_def fields_defs)

lemma completion_eta [simp]: "\<lparr>co_orderNumber = co_orderNumber req,
    co_transactionId = co_transactionId req, co_paidAmount = co_paidAmount req\<rparr> = req"
  by (cases req) simp

text \<open>A body with every member is the request of the handler.\<close>

lemma complete_bodies [simp]:
  "createPayment_fields E (create_fields creq) = createPayment E creq"
  "completePayment_fields E (complete_fields req) = completePayment E req"
  "refundPayment_fields E on (refund_fields amount reason) =
     refundPayment E \<lparr>rf_orderNumber = on, rf_refundAmount = amount, rf_reason = reason\<rparr>"
  "createSubscription_fields E (subscribe_fields sreq) = createSubscription E sreq"
  "cancelSubscription_fields E sid (cancel_fields reason) = cancelSubscription E sid reason"
  by (simp_all add: createPayment_fields_def completePayment_fields_def refundPayment_fields_def
      createSubscription_fields_def cancelSubscription_fields_def)
     (simp_all add: fields_defs)

lemmas request_defs = createPayment_fields_def completePayment_fields_def refundPayment_fields_def
  createSubscription_fields_def cancelSubscription_fields_def

end
