(* ===== verification/Http.thy ===== *)
theory Http
  imports AutopayWorker Requests
begin

text \<open>
  \<open>routes/index.ts\<close>, the three controllers and the error handler of \<open>app.ts\<close>: from a
  request to its response. A request is its method, the segments of its path, its query
  parameters and its body: none, or a JSON object any of whose members may be missing; the
  segments of a path are what stands between its slashes, without percent escapes. A controller method
  catches every error of its handler and passes it to the error handler, so it always answers: a
  response is never a thrown error.
\<close>

section \<open>Responses\<close>

datatype response_data =
    NoData
  | OrderNumberData string
  | SubscriptionIdData string
  | PaymentData payment
  | PaymentsData "payment list"
  | SubscriptionData subscription
  | ActiveSubscriptionData "subscription option"
  | EventsData "stored_event list"
  | SummaryData "summary_row list"
  | StatsData total_stats
  | HealthData string

datatype response_body =
    Success response_data
  | Failure "string option" string

record response =
  rs_status :: nat
  rs_body :: response_body

definition error_response :: "js_error \<Rightarrow> response" where
  "error_response e =
     (case e of
        AppErr a \<Rightarrow> \<lparr>rs_status = err_statusCode a, rs_body = Failure (err_code a) (err_message a)\<rparr>
      | _ \<Rightarrow> \<lparr>rs_status = 500,
               rs_body = Failure (Some ''INTERNAL_ERROR'') ''An unexpected error occurred''\<rparr>)"

text \<open>\<open>try { ... } catch (error) { next(error); }\<close> and the error handler behind it.\<close>

definition or_next :: "response io \<Rightarrow> response io" where
  "or_next m = catch m (\<lambda>e. Done (error_response e))"

definition reply :: "nat \<Rightarrow> response_data \<Rightarrow> response io" where
  "reply status d = Done \<lparr>rs_status = status, rs_body = Success d\<rparr>"

text \<open>\<open>parseInt(s) || d\<close>: a missing value and 0 both give the default.\<close>

definition int_param :: "int \<Rightarrow> string option \<Rightarrow> int" where
  "int_param d s =
     (case s of None \<Rightarrow> d
      | Some t \<Rightarrow> (case parse_int t of None \<Rightarrow> d | Some n \<Rightarrow> (if n = 0 then d else n)))"

text \<open>
  The parsed body. Without one, \<open>req.body\<close> is \<open>undefined\<close>, and taking a member of it is a
  \<open>TypeError\<close>; an array has none of the members. A member that is \<open>null\<close> or has another JSON type
  than the one the interfaces of \<open>common/types\<close> give it is not modelled.
\<close>

datatype request_body =
    NoBody
  | JsonBody request_fields

definition body_fields :: "request_body \<Rightarrow> request_fields io" where
  "body_fields b =
     (case b of
        NoBody \<Rightarrow> Fail (PlainError ''Cannot destructure property of undefined'')
      | JsonBody f \<Rightarrow> Done f)"

section \<open>PaymentController\<close>

definition PaymentController_createPayment ::
    "env \<Rightarrow> request_body \<Rightarrow> response io" where
  "PaymentController_createPayment E b = or_next (
     seq (body_fields b) (\<lambda>f.
     seq (createPayment_fields E f) (\<lambda>orderNumber. reply 201 (OrderNumberData orderNumber))))"

definition PaymentController_completePayment ::
    "env \<Rightarrow> request_body \<Rightarrow> response io" where
  "PaymentController_completePayment E b = or_next (
     seq (body_fields b) (\<lambda>f.
     seq (completePayment_fields E f) (\<lambda>_. reply 200 NoData)))"

definition PaymentController_refundPayment ::
    "env \<Rightarrow> string \<Rightarrow> request_body \<Rightarrow> response io" where
  "PaymentController_refundPayment E orderNumber b = or_next (
     seq (body_fields b) (\<lambda>f.
     seq (refundPayment_fields E orderNumber f) (\<lambda>_. reply 200 NoData)))"

definition PaymentController_getPayment :: "env \<Rightarrow> string \<Rightarrow> response io" where
  "PaymentController_getPayment E orderNumber = or_next (
     seq (getPayment E orderNumber) (\<lambda>payment. reply 200 (PaymentData payment)))"

definition PaymentController_getUserPayments ::
    "env \<Rightarrow> string \<Rightarrow> string option \<Rightarrow> string option \<Rightarrow> response io" where
  "PaymentController_getUserPayments E userId limit offset = or_next (
     seq (getUserPayments E userId (Some (int_param 20 limit)) (Some (int_param 0 offset)))
       (\<lambda>payments. reply 200 (PaymentsData payments)))"

section \<open>SubscriptionController\<close>

definition SubscriptionController_createSubscription ::
    "env \<Rightarrow> request_body \<Rightarrow> response io" where
  "SubscriptionController_createSubscription E b = or_next (
     seq (body_fields b) (\<lambda>f.
     seq (createSubscription_fields E f) (\<lambda>subscriptionId. reply 201 (SubscriptionIdData subscriptionId))))"

definition SubscriptionController_cancelSubscription ::
    "env \<Rightarrow> string \<Rightarrow> request_body \<Rightarrow> response io" where
  "SubscriptionController_cancelSubscription E subscriptionId b = or_next (
     seq (body_fields b) (\<lambda>f.
     seq (cancelSubscription_fields E subscriptionId f) (\<lambda>_. reply 200 NoData)))"

definition SubscriptionController_getSubscription :: "env \<Rightarrow> string \<Rightarrow> response io" where
  "SubscriptionController_getSubscription E subscriptionId = or_next (
     seq (getSubscription E subscriptionId) (\<lambda>sub. reply 200 (SubscriptionData sub)))"

definition SubscriptionController_getActiveSubscription :: "env \<Rightarrow> string \<Rightarrow> response io" where
  "SubscriptionController_getActiveSubscription E userId = or_next (
     seq (getActiveSubscription E userId) (\<lambda>sub. reply 200 (ActiveSubscriptionData sub)))"

section \<open>EventController\<close>

definition EventController_getEventsByAggregate :: "env \<Rightarrow> string \<Rightarrow> response io" where
  "EventController_getEventsByAggregate E aggregateId = or_next (
     seq (EventStoreRepository_findByAggregateId E aggregateId) (\<lambda>events. reply 200 (EventsData events)))"

definition EventController_getRecentEvents :: "env \<Rightarrow> string option \<Rightarrow> response io" where
  "EventController_getRecentEvents E limit = or_next (
     seq (EventStoreRepository_findRecent E (Some (int_param 100 limit)))
       (\<lambda>events. reply 200 (EventsData events)))"

definition EventController_getEventsByType ::
    "env \<Rightarrow> string \<Rightarrow> string option \<Rightarrow> string option \<Rightarrow> response io" where
  "EventController_getEventsByType E eventType limit offset = or_next (
     seq (EventStoreRepository_findByType E eventType (Some (int_param 50 limit)) (Some (int_param 0 offset)))
       (\<lambda>events. reply 200 (EventsData events)))"

definition EventController_getDailySummary ::
    "env \<Rightarrow> string option \<Rightarrow> string option \<Rightarrow> response io" where
  "EventController_getDailySummary E startDate endDate = or_next (
     seq (getDailySummary E startDate endDate) (\<lambda>summary. reply 200 (SummaryData summary)))"

definition EventController_getTotalStats :: "env \<Rightarrow> response io" where
  "EventController_getTotalStats E = or_next (
     seq (getTotalStats E) (\<lambda>stats. reply 200 (StatsData stats)))"

section \<open>Routing\<close>

datatype http_method = GET | POST

datatype endpoint =
    EP_createPayment
  | EP_completePayment
  | EP_refundPayment string
  | EP_getPayment string
  | EP_getUserPayments string
  | EP_createSubscription
  | EP_cancelSubscription string
  | EP_getSubscription string
  | EP_getActiveSubscription string
  | EP_recentEvents
  | EP_eventsByType string
  | EP_eventsByAggregate string
  | EP_dailySummary
  | EP_totalStats
  | EP_health

text \<open>
  The router: the calls of \<open>createRouter\<close> in their order, each with its method, the segments of its
  pattern (a segment that begins with a colon is a parameter) and the controller method it is bound to.
\<close>

type_synonym route_table = "(http_method \<times> string list \<times> (string list \<Rightarrow> endpoint)) list"

definition routes :: route_table where
  "routes =
    [(POST, [''api'', ''v1'', ''payments''], \<lambda>_. EP_createPayment),
     (POST, [''api'', ''v1'', ''payments'', ''complete''], \<lambda>_. EP_completePayment),
     (POST, [''api'', ''v1'', ''payments'', '':orderNumber'', ''refund''], \<lambda>ps. EP_refundPayment (hd ps)),
     (GET, [''api'', ''v1'', ''payments'', '':orderNumber''], \<lambda>ps. EP_getPayment (hd ps)),
     (GET, [''api'', ''v1'', ''users'', '':userId'', ''payments''], \<lambda>ps. EP_getUserPayments (hd ps)),
     (POST, [''api'', ''v1'', ''subscriptions''], \<lambda>_. EP_createSubscription),
     (POST, [''api'', ''v1'', ''subscriptions'', '':subscriptionId'', ''cancel''], \<lambda>ps. EP_cancelSubscription (hd ps)),
     (GET, [''api'', ''v1'', ''subscriptions'', '':subscriptionId''], \<lambda>ps. EP_getSubscription (hd ps)),
     (GET, [''api'', ''v1'', ''users'', '':userId'', ''subscription''], \<lambda>ps. EP_getActiveSubscription (hd ps)),
     (GET, [''api'', ''v1'', ''events'', ''recent''], \<lambda>_. EP_recentEvents),
     (GET, [''api'', ''v1'', ''events'', ''type'', '':type''], \<lambda>ps. EP_eventsByType (hd ps)),
     (GET, [''api'', ''v1'', ''events'', ''aggregate'', '':aggregateId''], \<lambda>ps. EP_eventsByAggregate (hd ps)),
     (GET, [''api'', ''v1'', ''stats'', ''daily''], \<lambda>_. EP_dailySummary),
     (GET, [''api'', ''v1'', ''stats'', ''total''], \<lambda>_. EP_totalStats),
     (GET, [''health''], \<lambda>_. EP_health)]"

text \<open>
  Express's documented matching, with the default options the program leaves: the first route of
  the method whose pattern fits the whole path. A fixed segment is compared without regard to case, a
  parameter takes any segment that is not empty, and one slash at the end is ignored (it makes an
  empty last segment).
\<close>

definition is_param :: "string \<Rightarrow> bool" where
  "is_param p \<longleftrightarrow> p \<noteq> '''' \<and> hd p = CHR '':''"

fun match_path :: "string list \<Rightarrow> string list \<Rightarrow> string list option" where
  "match_path [] [] = Some []"
| "match_path [] (s # ss) = (if s = '''' \<and> ss = [] then Some [] else None)"
| "match_path (p # ps) [] = None"
| "match_path (p # ps) (s # ss) =
     (if is_param p then (if s = '''' then None else map_option ((#) s) (match_path ps ss))
      else if to_lower s = to_lower p then match_path ps ss else None)"

fun first_match :: "route_table \<Rightarrow> http_method \<Rightarrow> string list \<Rightarrow> endpoint option" where
  "first_match [] m path = None"
| "first_match ((m', pattern, f) # rs) m path =
     (case (if m' = m then match_path pattern path else None) of
        Some ps \<Rightarrow> Some (f ps)
      | None \<Rightarrow> first_match rs m path)"

definition route :: "http_method \<Rightarrow> string list \<Rightarrow> endpoint option" where
  "route m path = first_match routes m path"

type_synonym query = "string \<Rightarrow> string option"

fun serve :: "env \<Rightarrow> endpoint \<Rightarrow> query \<Rightarrow> request_body \<Rightarrow> response io" where
  "serve E EP_createPayment q b = PaymentController_createPayment E b"
| "serve E EP_completePayment q b = PaymentController_completePayment E b"
| "serve E (EP_refundPayment on) q b = PaymentController_refundPayment E on b"
| "serve E (EP_getPayment on) q b = PaymentController_getPayment E on"
| "serve E (EP_getUserPayments uid) q b =
     PaymentController_getUserPayments E uid (q ''limit'') (q ''offset'')"
| "serve E EP_createSubscription q b = SubscriptionController_createSubscription E b"
| "serve E (EP_cancelSubscription sid) q b = SubscriptionController_cancelSubscription E sid b"
| "serve E (EP_getSubscription sid) q b = SubscriptionController_getSubscription E sid"
| "serve E (EP_getActiveSubscription uid) q b = SubscriptionController_getActiveSubscription E uid"
| "serve E EP_recentEvents q b = EventController_getRecentEvents E (q ''limit'')"
| "serve E (EP_eventsByType ty) q b =
     EventController_getEventsByType E ty (q ''limit'') (q ''offset'')"
| "serve E (EP_eventsByAggregate a) q b = EventController_getEventsByAggregate E a"
| "serve E EP_dailySummary q b =
     EventController_getDailySummary E (q ''startDate'') (q ''endDate'')"
| "serve E EP_totalStats q b = EventController_getTotalStats E"
| "serve E EP_health q b =
     seq (new_date E) (\<lambda>now. reply 200 (HealthData (to_iso_string now)))"

section \<open>Start-up\<close>

text \<open>\<open>startServer\<close>: register the projector, start the worker; then requests are served.\<close>

definition startServer :: "env \<Rightarrow> unit io" where
  "startServer E =
     seq (act (\<lambda>w. (Inr (), Projector_register w))) (\<lambda>_. Autopay_start E)"

lemma or_next_answers: "\<exists>rs w'. run (or_next m) w = (Inr rs, w')"
  by (cases "run m w"; cases "fst (run m w)") (auto simp: or_next_def run_simps)

lemma run_or_next:
  "run (or_next m) w =
    (case run m w of (Inl e, w') \<Rightarrow> (Inr (error_response e), w') | (Inr x, w') \<Rightarrow> (Inr x, w'))"
  by (simp add: or_next_def run_simps split: prod.split sum.split)

lemma run_reply [run_simps]: "run (reply status d) w = (Inr \<lparr>rs_status = status, rs_body = Success d\<rparr>, w)"
  by (simp add: reply_def run_simps)

lemmas writer_defs = body_fields_def
  PaymentController_createPayment_def PaymentController_completePayment_def
  PaymentController_refundPayment_def SubscriptionController_createSubscription_def
  SubscriptionController_cancelSubscription_def

lemmas reader_defs =
  PaymentController_getPayment_def PaymentController_getUserPayments_def
  SubscriptionController_getSubscription_def
  SubscriptionController_getActiveSubscription_def EventController_getEventsByAggregate_def
  EventController_getRecentEvents_def EventController_getEventsByType_def
  EventController_getDailySummary_def EventController_getTotalStats_def

section \<open>Complete bodies\<close>

definition CreatePaymentBody :: "create_payment_request \<Rightarrow> request_body" where
  "CreatePaymentBody req = JsonBody (create_fields req)"

definition CompletePaymentBody :: "complete_payment_request \<Rightarrow> request_body" where
  "CompletePaymentBody req = JsonBody (complete_fields req)"

definition RefundBody :: "money \<Rightarrow> string \<Rightarrow> request_body" where
  "RefundBody refundAmount reason = JsonBody (refund_fields refundAmount reason)"

definition CreateSubscriptionBody :: "create_subscription_request \<Rightarrow> request_body" where
  "CreateSubscriptionBody req = JsonBody (subscribe_fields req)"

definition CancelBody :: "string \<Rightarrow> request_body" where
  "CancelBody reason = JsonBody (cancel_fields reason)"

lemmas body_defs = CreatePaymentBody_def CompletePaymentBody_def RefundBody_def
  CreateSubscriptionBody_def CancelBody_def

text \<open>A controller that is sent a complete body runs the operation of its handler.\<close>

lemma complete_controllers:
  "PaymentController_createPayment E (CreatePaymentBody creq) =
     or_next (seq (createPayment E creq) (\<lambda>orderNumber. reply 201 (OrderNumberData orderNumber)))"
  "PaymentController_completePayment E (CompletePaymentBody req) =
     or_next (seq (completePayment E req) (\<lambda>_. reply 200 NoData))"
  "PaymentController_refundPayment E on (RefundBody amount reason) =
     or_next (seq (refundPayment E \<lparr>rf_orderNumber = on, rf_refundAmount = amount, rf_reason = reason\<rparr>)
       (\<lambda>_. reply 200 NoData))"
  "SubscriptionController_createSubscription E (CreateSubscriptionBody sreq) =
     or_next (seq (createSubscription E sreq) (\<lambda>sid. reply 201 (SubscriptionIdData sid)))"
  "SubscriptionController_cancelSubscription E sid (CancelBody reason) =
     or_next (seq (cancelSubscription E sid reason) (\<lambda>_. reply 200 NoData))"
  by (simp_all add: writer_defs body_defs)

end
