(* ===== verification/Operations.thy ===== *)
theory Operations
  imports Safety Http
begin

text \<open>
  The operations under interleaving: each is \<open>safe\<close>, and where it returns, what it has stored
  by then. \<open>activity\<close> names everything that can be going on in the process at the same time,
  and \<open>pool\<close> is the process: the world after start-up and any list of activities.
\<close>

section \<open>The updates of the handlers\<close>

lemma payment_sets:
  "payment_sets_ok COMPLETED [(''transactionId'', VStr tid), (''paidAt'', VDate t)]"
  "payment_sets_ok FAILED []"
  "payment_sets_ok REFUNDED [(''refundAmount'', VNum a), (''refundReason'', VStr s), (''refundedAt'', VDate t)]"
  by (auto simp: payment_sets_ok_def payment_set_row_def set_payment_column_def column_defs
      column_name_values ordered_terms_def payment_ok_def split: if_splits)

lemma subscription_sets:
  "subscription_sets_ok SUB_CANCELLED [(''cancelledAt'', VDate t), (''cancelReason'', VStr s), (''autoRenew'', VBool False)]"
  "subscription_sets_ok EXPIRED []"
  by (auto simp: subscription_sets_ok_def subscription_set_row_def set_subscription_column_def column_defs
      column_name_values owner_of_def subscription_ok_def split: if_splits)

lemmas updates_ok = payment_sets [THEN payment_update_ok] subscription_sets [THEN subscription_update_ok]
  subscription_renew_ok

lemma stmt_ok_reading_page_now [simp]: "stmt_ok db0 (\<lambda>now. reading_page (q now) now)"
  by (auto simp: stmt_ok_def reading_page_def split: sum.splits)

lemma ok_repositories:
  "ok w (PaymentRepository_findByOrderNumber E on)"
  "ok w (SubscriptionRepository_findBySubscriptionId E sid)"
  "ok w (SubscriptionRepository_findActiveByUserId E uid)"
  "ok w (SubscriptionRepository_findExpiredForRenewal E b)"
  "ok w (SubscriptionRepository_renewSubscription E sid t)"
  "ok w (PaymentRepository_findByUserId E uid l off)"
  "ok w (EventStoreRepository_findByAggregateId E sid)"
  "ok w (EventStoreRepository_findByType E uid l off)"
  "ok w (EventStoreRepository_findRecent E l)"
  "ok w (getDailySummary E from_day to_day)" "ok w (getTotalStats E)"
  unfolding repository_defs PaymentRepository_findByUserId_def EventStoreRepository_findByType_def
    EventStoreRepository_findRecent_def getDailySummary_def getTotalStats_def
  by (rule ok_sql; simp add: updates_ok)+

lemma ok_payment_update:
  "payment_sets_ok st extra \<Longrightarrow> ok w (PaymentRepository_updateStatus E on st extra)"
  unfolding PaymentRepository_updateStatus_def by (intro ok_sql payment_update_ok)

lemma ok_subscription_update:
  "subscription_sets_ok st extra \<Longrightarrow> ok w (SubscriptionRepository_updateStatus E sid st extra)"
  unfolding SubscriptionRepository_updateStatus_def by (intro ok_sql subscription_update_ok)

lemma to_payment_create:
  assumes "p_status d = PENDING" "p_transactionId d = None" "p_paidAt d = None"
  shows "safe_to w (\<lambda>_. has_order (p_orderNumber d, p_userId d, p_productId d, p_amount d, p_currency d))
    (PaymentRepository_create E d)"
  unfolding PaymentRepository_create_def has_order_def
proof (rule to_sql)
  show "stmt_ok (w_db w) (payment_insert d)" by (rule payment_insert_ok [OF assms])
qed (auto simp: payment_insert_Inr payment_data.extend_def ordered_terms_def)

lemma to_subscription_create:
  assumes "ns_status d = ACTIVE"
  shows "safe_to w (\<lambda>_ w'. plan_of_str (ns_plan d) \<noteq> None \<and>
      has_subscription (ns_subscriptionId d, ns_userId d, ns_planId d, the (plan_of_str (ns_plan d))) w')
    (SubscriptionRepository_create E d)"
  unfolding SubscriptionRepository_create_def has_subscription_def
proof (rule to_sql)
  show "stmt_ok (w_db w) (subscription_insert d)" by (rule subscription_insert_ok [OF assms])
qed (auto simp: subscription_insert_Inr owner_of_def)

text \<open>A row that was found or created is a root for its events.\<close>

lemma to_find_payment:
  "safe_to w (\<lambda>r w'. r \<noteq> None \<longrightarrow> has_root ''Payment'' on (w_db w')) (PaymentRepository_findByOrderNumber E on)"
  unfolding PaymentRepository_findByOrderNumber_def
  by (rule to_sql, simp) (auto simp: reading_def payment_select_def has_root_def dest: find_row_Some)

lemma to_find_subscription:
  "safe_to w (\<lambda>r w'. r \<noteq> None \<longrightarrow> has_root ''Subscription'' sid (w_db w'))
    (SubscriptionRepository_findBySubscriptionId E sid)"
  unfolding SubscriptionRepository_findBySubscriptionId_def
  by (rule to_sql, simp) (auto simp: reading_def subscription_select_def has_root_def dest: find_row_Some)

lemma row_roots:
  "has_order (on, t) w \<Longrightarrow> has_root ''Payment'' on (w_db w)"
  "has_subscription (sid, u) w \<Longrightarrow> has_root ''Subscription'' sid (w_db w)"
  by (auto simp: has_order_def has_subscription_def has_root_def ordered_terms_def owner_of_def)

text \<open>The tail that the operations share: the row is updated, then the event is published.\<close>

lemma to_event:
  assumes "has_root aty a (w_db w)" "\<And>at w'. has_event ty a (payload at) w' \<Longrightarrow> Q () w'"
  shows "safe_to w Q (seq (new_date E) (\<lambda>at. seq (publish E ty a aty (payload at)) (\<lambda>_. Done ())))"
proof (rule ok_seq [OF ok_new_date], rule to_seq [OF to_published])
  show "has_root aty a (w_db w')" if "world_grows w w'" for w' using assms(1) that by (rule has_root_stays)
qed (auto intro: to_Done assms(2))

lemma to_payment_event:
  assumes "payment_sets_ok st extra" "has_root ''Payment'' on (w_db w)" "\<And>at w'. has_event ty on (payload at) w' \<Longrightarrow> Q () w'"
  shows "safe_to w Q (seq (PaymentRepository_updateStatus E on st extra) (\<lambda>_.
    seq (new_date E) (\<lambda>at. seq (publish E ty on ''Payment'' (payload at)) (\<lambda>_. Done ()))))"
  by (rule ok_seq [OF ok_payment_update [OF assms(1)]], rule to_event, rule has_root_stays [OF assms(2)], assumption, rule assms(3))

lemma to_subscription_event:
  assumes "subscription_sets_ok st extra" "has_root ''Subscription'' sid (w_db w)"
    "\<And>at w'. has_event ty sid (payload at) w' \<Longrightarrow> Q () w'"
  shows "safe_to w Q (seq (SubscriptionRepository_updateStatus E sid st extra) (\<lambda>_.
    seq (new_date E) (\<lambda>at. seq (publish E ty sid ''Subscription'' (payload at)) (\<lambda>_. Done ()))))"
  by (rule ok_seq [OF ok_subscription_update [OF assms(1)]], rule to_event, rule has_root_stays [OF assms(2)], assumption, rule assms(3))

section \<open>Payments\<close>

definition order_of :: "create_payment_request \<Rightarrow> string \<Rightarrow> string \<times> string \<times> string \<times> money \<times> string" where
  "order_of req on = (on, cp_userId req, cp_productId req, cp_amount req, currency_of req)"

definition payment_recorded :: "create_payment_request \<Rightarrow> string \<Rightarrow> world \<Rightarrow> bool" where
  "payment_recorded req on w \<longleftrightarrow> has_order (order_of req on) w
     \<and> has_event PAYMENT_CREATED on (created_payload on req) w
     \<and> has_job PAYMENT_PROCESSING (payment_job on req) w"

lemma order_root: "has_order (order_of req on) w \<Longrightarrow> has_root ''Payment'' on (w_db w)"
  unfolding order_of_def by (rule row_roots(1))

lemma payment_job_ok:
  "has_order (order_of req on) w \<Longrightarrow> has_event PAYMENT_CREATED on p w \<Longrightarrow> q_name q = PAYMENT_PROCESSING \<Longrightarrow>
    job_ok (w_db w) \<lparr>jc_queue = q, jc_name = nm, jc_data = payment_job on req, jc_options = opts\<rparr>"
  by (auto simp: job_ok_def payment_job_def has_order_def order_of_def has_event_def)

lemma to_createPayment: "safe_to w (payment_recorded req) (createPayment E req)"
  unfolding createPayment_def Let_def
proof (rule ok_seq [OF ok_new_date], rule ok_seq [OF ok_uuidv4], rule ok_seq [OF ok_redis_get])
  fix now u existing w1
  let ?on = "order_number now u"
  let ?d = "new_payment ?on req"
  have create: "safe_to w1 (\<lambda>_. has_order (order_of req ?on)) (PaymentRepository_create E ?d)"
    using to_payment_create [of ?d] by (simp add: new_payment_def order_of_def)
  show "safe_to w1 (payment_recorded req)
     (if existing \<noteq> None \<and> existing \<noteq> Some '''' then Fail (DuplicatePaymentError (the existing)) else
      seq (PaymentRepository_create E ?d) (\<lambda>_.
      seq (RedisClient_set E (idempotency_key (cp_userId req) (cp_productId req)) ?on (Some IDEMPOTENCY_TTL)) (\<lambda>_.
      seq (publish E PAYMENT_CREATED ?on ''Payment'' (created_payload ?on req)) (\<lambda>_.
      seq (getOrCreateQueue PAYMENT_PROCESSING) (\<lambda>queue.
      seq (queue_add E queue ''process-payment'' (payment_job ?on req) payment_job_options) (\<lambda>_.
      Done ?on))))))"
    apply (split if_split, intro conjI impI)
     apply (rule to_Fail)
    apply (rule to_seq [OF create])
    apply (rule ok_seq [OF ok_redis_set])
    apply (rule to_seq [OF to_published])
     apply (blast intro: order_root has_root_stays)
    apply (rule to_seq [OF to_getOrCreateQueue])
    apply (rule to_seq [OF to_queue_add])
     apply (rule payment_job_ok; blast intro: stays)
    apply (rule to_Done)
    apply (auto simp: payment_recorded_def intro: stays world_grows_trans)
    done
qed

definition completion_recorded :: "complete_payment_request \<Rightarrow> world \<Rightarrow> bool" where
  "completion_recorded req w \<longleftrightarrow> (\<exists>paidAt. has_event PAYMENT_COMPLETED (co_orderNumber req)
     (PaymentCompletedPayload (co_orderNumber req) (co_transactionId req) (co_paidAmount req) paidAt) w)"

lemma to_completePayment: "safe_to w (\<lambda>_. completion_recorded req) (completePayment E req)"
  unfolding completePayment_def
  by (rule to_seq [OF to_find_payment], split option.split, intro conjI impI allI,
    rule to_Fail, split if_split, intro conjI impI, rule to_Fail,
    rule ok_seq [OF ok_new_date], rule to_payment_event [OF payment_sets(1)], simp add: has_root_stays)
    (auto simp: completion_recorded_def)

lemma to_failPayment:
  "safe_to w (\<lambda>_ w'. \<exists>at. has_event PAYMENT_FAILED on (PaymentFailedPayload on reason at) w')
    (failPayment E on reason)"
  unfolding failPayment_def
  by (rule to_seq [OF to_find_payment], split option.split, intro conjI impI allI,
    rule to_Fail, rule to_payment_event [OF payment_sets(2)]) auto

lemma to_refundPayment:
  "safe_to w (\<lambda>_ w'. \<exists>at. has_event PAYMENT_REFUNDED (rf_orderNumber req)
      (PaymentRefundedPayload (rf_orderNumber req) (rf_refundAmount req) (rf_reason req) at) w')
    (refundPayment E req)"
  unfolding refundPayment_def
  by (rule to_seq [OF to_find_payment], split option.split, intro conjI impI allI,
    rule to_Fail, split if_split, intro conjI impI, rule to_Fail,
    rule ok_seq [OF ok_new_date], rule to_payment_event [OF payment_sets(3)], simp add: has_root_stays) auto

text \<open>
  A body with a gap: what it can record, once the operation has returned.
\<close>

definition completion_fields_recorded :: "request_fields \<Rightarrow> world \<Rightarrow> bool" where
  "completion_fields_recorded f w \<longleftrightarrow> (\<exists>on tid. rq_orderNumber f = Some on \<and> rq_transactionId f = Some tid \<and>
     (case rq_paidAmount f of
        Some a \<Rightarrow> completion_recorded \<lparr>co_orderNumber = on, co_transactionId = tid, co_paidAmount = a\<rparr> w
      | None \<Rightarrow> \<exists>at. has_event PAYMENT_COMPLETED on (UnpricedCompletedPayload on tid at) w))"

lemma ok_no_row: "ok w (no_row E)"
  unfolding no_row_def by (rule ok_sql) simp

lemma to_createPayment_fields:
  "safe_to w (\<lambda>on w'. \<exists>req. create_request f = Some req \<and> payment_recorded req on w') (createPayment_fields E f)"
proof (cases "create_request f")
  case None
  then show ?thesis
    by (auto simp: createPayment_fields_def intro!: ok_seq [OF ok_new_date] ok_seq [OF ok_uuidv4]
        ok_seq [OF ok_redis_get] to_Fail to_unbound)
next
  case (Some req)
  then show ?thesis by (simp add: createPayment_fields_def to_createPayment)
qed

lemma to_unpriced:
  assumes "rq_orderNumber f = Some on" "rq_transactionId f = Some tid" "rq_paidAmount f = None"
    "has_root ''Payment'' on (w_db w)"
  shows "safe_to w (\<lambda>_. completion_fields_recorded f) (seq (new_date E) (\<lambda>now.
     seq (PaymentRepository_updateStatus E on COMPLETED [(''transactionId'', VStr tid), (''paidAt'', VDate now)]) (\<lambda>_.
     seq (new_date E) (\<lambda>paidAt.
     seq (publish E PAYMENT_COMPLETED on ''Payment'' (UnpricedCompletedPayload on tid paidAt)) (\<lambda>_. Done ())))))"
  by (rule ok_seq [OF ok_new_date], rule to_payment_event [OF payment_sets(1) has_root_stays [OF assms(4)]], assumption)
    (use assms in \<open>auto simp: completion_fields_recorded_def\<close>)

lemma to_completePayment_fields:
  "safe_to w (\<lambda>_. completion_fields_recorded f) (completePayment_fields E f)"
proof (cases "rq_orderNumber f")
  case None
  then show ?thesis
    by (simp add: completePayment_fields_def) (rule ok_seq [OF ok_no_row], rule to_Fail)
next
  case (Some on)
  show ?thesis
  proof (cases "rq_transactionId f = None")
    case True
    with Some show ?thesis
      by (auto simp: completePayment_fields_def split: option.split
          intro!: ok_seq [OF ok_repositories(1)] ok_seq [OF ok_new_date] to_Fail to_unbound)
  next
    case tid: False
    then obtain tid where tid: "rq_transactionId f = Some tid" by blast
    have unpriced: "safe_to w (\<lambda>_. completion_fields_recorded f) (completePayment_fields E f)" if "rq_paidAmount f = None"
      unfolding completePayment_fields_def Some tid that prod.case option.case
      by (rule to_seq [OF to_find_payment], split option.split, intro conjI impI allI, rule to_Fail,
        split if_split, intro conjI impI, rule to_Fail, rule to_unpriced [OF Some tid that]) simp
    have "safe_to w (\<lambda>_. completion_fields_recorded f) (completePayment_fields E f)" if "rq_paidAmount f \<noteq> None"
      using that tid Some
      by (auto simp: completePayment_fields_def completion_fields_recorded_def
          intro!: to_weaken [OF to_completePayment])
    with unpriced show ?thesis by blast
  qed
qed

lemma to_refundPayment_fields:
  "safe_to w (\<lambda>_ w'. \<exists>a r at. rq_refundAmount f = Some a \<and> rq_reason f = Some r \<and>
      has_event PAYMENT_REFUNDED on (PaymentRefundedPayload on a r at) w')
    (refundPayment_fields E on f)"
proof (cases "rq_refundAmount f = None \<or> rq_reason f = None")
  case True
  then show ?thesis
    by (auto simp: refundPayment_fields_def split: option.split
        intro!: ok_seq [OF ok_repositories(1)] ok_seq [OF ok_new_date] to_Fail to_unbound)
next
  case False
  then obtain a r where f: "rq_refundAmount f = Some a" "rq_reason f = Some r" by auto
  from f to_refundPayment [where w = w and E = E and req = "\<lparr>rf_orderNumber = on, rf_refundAmount = a, rf_reason = r\<rparr>"]
  show ?thesis by (simp add: refundPayment_fields_def)
qed

lemma ok_payment_queries: "ok w (getPayment E on)" "ok w (getUserPayments E uid limit off)"
  unfolding getPayment_def getUserPayments_def
  by (rule ok_seq [OF ok_repositories(1)], auto intro: to_Fail to_Done split: option.split)
     (rule ok_repositories)

section \<open>Subscriptions\<close>

definition subscription_recorded :: "create_subscription_request \<Rightarrow> string \<Rightarrow> world \<Rightarrow> bool" where
  "subscription_recorded req sid w \<longleftrightarrow> plan_of_str (cs_plan req) \<noteq> None
     \<and> has_subscription (sid, cs_userId req, cs_planId req, the (plan_of_str (cs_plan req))) w
     \<and> (\<exists>st en. has_event SUBSCRIPTION_CREATED sid
          (SubscriptionCreatedPayload sid (cs_userId req) (cs_planId req) st en) w)"

lemma to_createSubscription: "safe_to w (subscription_recorded req) (createSubscription E req)"
  unfolding createSubscription_def Let_def
  apply (rule ok_seq [OF ok_repositories(3)])
  apply (split if_split, intro conjI impI)
   apply (rule to_Fail)
  apply (rule ok_seq [OF ok_uuidv4])
  apply (rule ok_seq [OF ok_new_date])
  apply (rule to_seq [OF to_subscription_create])
   apply (simp add: new_subscription_def)
  apply (rule to_seq [OF to_published])
   apply (auto simp: new_subscription_def dest: row_roots(2)) [1]
  apply (rule to_Done)
  apply (auto simp: subscription_recorded_def new_subscription_def intro: stays world_grows_trans)
  done

lemma to_cancelSubscription:
  "safe_to w (\<lambda>_ w'. \<exists>at. has_event SUBSCRIPTION_CANCELLED sid (SubscriptionCancelledPayload sid at reason) w')
    (cancelSubscription E sid reason)"
  unfolding cancelSubscription_def
  by (rule to_seq [OF to_find_subscription], split option.split, intro conjI impI allI,
    rule to_Fail, split if_split, intro conjI impI, rule to_Fail,
    rule ok_seq [OF ok_new_date], rule to_subscription_event [OF subscription_sets(1)], simp add: has_root_stays) auto

lemma to_createSubscription_fields:
  "safe_to w (\<lambda>sid w'. \<exists>req. subscription_request f = Some req \<and> subscription_recorded req sid w')
    (createSubscription_fields E f)"
proof (cases "subscription_request f")
  case None
  have find: "ok w (case rq_userId f of None \<Rightarrow> no_row E | Some u \<Rightarrow> SubscriptionRepository_findActiveByUserId E u)" for w
    by (simp add: ok_no_row ok_repositories split: option.split)
  from None show ?thesis
    by (auto simp: createSubscription_fields_def intro!: ok_seq [OF find] ok_seq [OF ok_new_date]
        ok_seq [OF ok_uuidv4] to_Fail to_unbound)
next
  case (Some req)
  then show ?thesis by (simp add: createSubscription_fields_def to_createSubscription)
qed

lemma to_cancelSubscription_fields:
  "safe_to w (\<lambda>_ w'. \<exists>r at. rq_reason f = Some r \<and>
      has_event SUBSCRIPTION_CANCELLED sid (SubscriptionCancelledPayload sid at r) w')
    (cancelSubscription_fields E sid f)"
proof (cases "rq_reason f")
  case None
  then show ?thesis
    by (auto simp: cancelSubscription_fields_def split: option.split
        intro!: ok_seq [OF ok_repositories(2)] ok_seq [OF ok_new_date] to_Fail to_unbound)
next
  case (Some r)
  then show ?thesis by (simp add: cancelSubscription_fields_def to_cancelSubscription)
qed

lemma ok_subscription_queries: "ok w (getSubscription E sid)" "ok w (getActiveSubscription E uid)"
  unfolding getSubscription_def getActiveSubscription_def
  by (rule ok_seq [OF ok_repositories(2)], auto intro: to_Fail to_Done split: option.split)
     (rule ok_repositories)

section \<open>Renewals\<close>

definition renewal_recorded :: "renewal_job_data \<Rightarrow> world \<Rightarrow> bool" where
  "renewal_recorded d w \<longleftrightarrow> (\<exists>on txn newEnd. payment_recorded (renewal_request d) on w
     \<and> completion_recorded \<lparr>co_orderNumber = on, co_transactionId = txn,
          co_paidAmount = renewal_amount (rj_plan d)\<rparr> w
     \<and> has_event SUBSCRIPTION_RENEWED (rj_subscriptionId d)
          (SubscriptionRenewedPayload (rj_subscriptionId d) on newEnd) w)"

lemma recorded_stays:
  "payment_recorded req on w \<Longrightarrow> world_grows w w' \<Longrightarrow> payment_recorded req on w'"
  "completion_recorded creq w \<Longrightarrow> world_grows w w' \<Longrightarrow> completion_recorded creq w'"
  unfolding payment_recorded_def completion_recorded_def by (blast intro: stays)+

lemma to_renew_body:
  assumes "has_root ''Subscription'' (rj_subscriptionId d) (w_db w)"
  shows "safe_to w (\<lambda>_. renewal_recorded d) (renew_body E d s)"
  unfolding renew_body_def Let_def
  apply (rule to_seq [OF to_createPayment])
  apply (rule ok_seq [OF ok_new_date])
  apply (rule to_seq [OF to_completePayment])
  apply (rule ok_seq [OF ok_repositories(5)])
  apply (rule to_seq [OF to_published])
   apply (blast intro: has_root_stays [OF assms] world_grows_trans)
  apply (rule to_Done)
  unfolding renewal_recorded_def
  apply (blast intro: recorded_stays world_grows_trans)
  done

lemma other_jobs_ok:
  "q_name q = SUBSCRIPTION_RENEWAL \<Longrightarrow> job_ok db \<lparr>jc_queue = q, jc_name = nm, jc_data = renewal_job s, jc_options = opts\<rparr>"
  "q_name q = SUBSCRIPTION_RENEWAL \<Longrightarrow> job_ok db \<lparr>jc_queue = q, jc_name = nm, jc_data = ScanJob, jc_options = opts\<rparr>"
  "q_name q = DEAD_LETTER \<Longrightarrow> job_ok db \<lparr>jc_queue = q, jc_name = nm, jc_data = dead_letter E job e now, jc_options = opts\<rparr>"
  by (simp_all add: job_ok_def renewal_job_def dead_letter_def)

lemma ok_enqueue_renewals:
  assumes "q_name q = SUBSCRIPTION_RENEWAL"
  shows "ok w (enqueue_renewals E q subs)"
proof (induction subs arbitrary: w)
  case Nil
  show ?case by (simp add: to_Done)
next
  case (Cons sub subs)
  show ?case unfolding enqueue_renewals.simps
    by (rule ok_seq [OF ok_new_date], rule ok_seq [OF ok_weaken [OF to_queue_add [OF other_jobs_ok(1) [OF assms]]]], rule Cons.IH)
qed

lemma ok_scan: "ok w (scanAndEnqueueExpired E)"
  unfolding scanAndEnqueueExpired_def
  by (rule ok_seq [OF ok_repositories(4)], rule to_seq [OF to_getOrCreateQueue],
    rule ok_enqueue_renewals)

lemma ok_renewal_error: "safe_to w Q (on_renewal_error E job e)"
  unfolding on_renewal_error_def
  by (split if_split, intro conjI impI, rule to_seq [OF to_getOrCreateQueue],
    rule ok_seq [OF ok_new_date], rule ok_seq [OF ok_weaken [OF to_queue_add [OF other_jobs_ok(3)]]], assumption, (rule to_Fail)+)

lemma ok_processRenewal: "ok w (processRenewal E job)"
proof -
  have renew: "ok w' (catch (renew_body E d s) (on_renewal_error E job))"
    if "has_root ''Subscription'' (rj_subscriptionId d) (w_db w')" for w' d s
    by (rule ok_catch [OF ok_weaken [OF to_renew_body [OF that]] ok_renewal_error])
  show ?thesis unfolding processRenewal_def Let_def
    by (split if_split, intro conjI impI, rule ok_scan, rule to_seq [OF to_find_subscription], split option.split,
        intro conjI impI allI, rule to_Done)
      (auto intro!: to_subscription_event [OF subscription_sets(2)] renew to_Done)
qed

section \<open>The process\<close>

lemma ok_createWorker:
  assumes "name \<noteq> PAYMENT_PROCESSING"
  shows "ok w (createWorker name proc c)"
  unfolding createWorker_def
proof (rule safe_act)
  fix v v' :: world and r :: "js_error + worker"
  let ?k = "\<lparr>wk_name = name, wk_processor = proc,
    wk_concurrency = (case c of None \<Rightarrow> 5 | Some c \<Rightarrow> c), wk_handle = w_created v\<rparr>"
  assume v: "world_inv v" and "(let wk = ?k in (Inr wk, v\<lparr>w_workers := AList.update name wk (w_workers v),
      w_created := Suc (w_created v)\<rparr>)) = (r, v')"
  then have r: "r = Inr ?k" and v': "v' = v\<lparr>w_workers := AList.update name ?k (w_workers v),
      w_created := Suc (w_created v)\<rparr>" by (simp_all add: Let_def)
  from v have reg: "distinct (map fst (w_queues v))" "distinct (map fst (w_workers v))"
    "\<forall>(n, q) \<in> set (w_queues v). q_name q = n \<and> q_handle q < w_created v"
    "\<forall>(n, k) \<in> set (w_workers v). wk_name k = n \<and> wk_handle k < w_created v"
    "PAYMENT_PROCESSING \<notin> fst ` set (w_workers v)" by (simp_all add: world_inv_def registry_ok_def)
  have "\<forall>(n, k) \<in> set (AList.update name ?k (w_workers v)). wk_name k = n \<and> wk_handle k < Suc (w_created v)"
    using reg(4) by (rule ball_update) auto
  moreover have "\<forall>(n, q) \<in> set (w_queues v). q_name q = n \<and> q_handle q < Suc (w_created v)"
    using reg(3) by auto
  ultimately have "registry_ok v'"
    using reg assms unfolding v' by (simp add: registry_ok_def distinct_update dom_update)
  with v v' r show "world_inv v' \<and> world_grows v v' \<and> (case r of Inl e \<Rightarrow> True | Inr k \<Rightarrow> True)"
    by (simp add: world_inv_def world_grows_def)
qed

lemma ok_read: "ok w (act (\<lambda>w. (Inr (f w), w)))"
  by (rule safe_act) auto

lemma ok_close_from: "ok w (close_from E handles i n)"
proof (induction n arbitrary: i w)
  case (Suc n)
  have close: "ok w (close_handle E h)" for w h
    unfolding close_handle_def
    by (rule to_remote) (auto simp: world_inv_def world_grows_def registry_ok_def)
  show ?case unfolding close_from.simps
    by (rule ok_seq [OF ok_read]) (auto simp: to_Done intro: ok_seq [OF close] Suc.IH split: option.split)
qed (simp add: to_Done)

lemma ok_closeAll: "ok w (closeAll E)"
  unfolding closeAll_def by (rule ok_seq [OF ok_close_from]) (rule ok_close_from)

lemma ok_Autopay_start: "ok w (Autopay_start E)"
  unfolding Autopay_start_def
  by (rule ok_seq [OF ok_createWorker], simp, rule to_seq [OF to_getOrCreateQueue],
    rule ok_seq [OF ok_weaken [OF to_queue_add [OF other_jobs_ok(2)]]], assumption, rule ok_seq [OF ok_createWorker])
    (simp_all add: to_Done)

lemma ok_startServer: "ok w (startServer E)"
  unfolding startServer_def
proof (rule ok_seq)
  show "ok w (act (\<lambda>w. (Inr (), Projector_register w)))"
    by (rule safe_act) (auto simp: Projector_register_def EventBus_subscribe_def Let_def
      world_inv_def world_grows_def registry_ok_def)
qed (rule ok_Autopay_start)

text \<open>
  An answer with status 2xx is a promise about what is stored; a handler that threw answers
  with a \<open>Failure\<close> and promises nothing.
\<close>

lemma to_controller:
  assumes "safe_to w Q m" "\<And>x w'. Q x w' \<Longrightarrow> R \<lparr>rs_status = status, rs_body = Success (f x)\<rparr> w'"
    "\<And>e w'. R (error_response e) w'"
  shows "safe_to w R (or_next (seq m (\<lambda>x. reply status (f x))))"
  unfolding or_next_def reply_def
  by (rule ok_catch, rule to_seq [OF assms(1)], rule to_Done, erule assms(2)) (rule to_Done, rule assms(3))

lemma ok_controller: "ok w m \<Longrightarrow> ok w (or_next (seq m (\<lambda>x. reply status (f x))))"
  by (erule to_controller) simp_all

text \<open>Everything that can be under way in the process at one time, and how it ends.\<close>

datatype activity =
    StartServer
  | Request endpoint query request_body
  | FailPayment string string
  | RunRenewalJob job
  | RunDeadLetterJob dead_letter_job_data
  | CloseAll

datatype outcome = Answered response | Finished

definition finishing :: "unit io \<Rightarrow> outcome io" where
  "finishing p = seq p (\<lambda>_. Done Finished)"

fun activity_prog :: "env \<Rightarrow> activity \<Rightarrow> outcome io" where
  "activity_prog E StartServer = finishing (startServer E)"
| "activity_prog E (Request ep q b) =
     seq (serve E ep q b) (\<lambda>r. Done (Answered r))"
| "activity_prog E (FailPayment on reason) = finishing (failPayment E on reason)"
| "activity_prog E (RunRenewalJob job) = finishing (processRenewal E job)"
| "activity_prog E (RunDeadLetterJob d) = finishing (processDeadLetter d)"
| "activity_prog E CloseAll = finishing (closeAll E)"

definition endpoint_promise :: "endpoint \<Rightarrow> request_body \<Rightarrow> response_data \<Rightarrow> world \<Rightarrow> bool" where
  "endpoint_promise ep b d w =
     (case ep of
        EP_createPayment \<Rightarrow> (\<exists>f req on. b = JsonBody f \<and> create_request f = Some req \<and>
          d = OrderNumberData on \<and> payment_recorded req on w)
      | EP_completePayment \<Rightarrow> (\<exists>f. b = JsonBody f \<and> completion_fields_recorded f w)
      | EP_refundPayment on \<Rightarrow> (\<exists>f a r at. b = JsonBody f \<and> rq_refundAmount f = Some a \<and> rq_reason f = Some r \<and>
          has_event PAYMENT_REFUNDED on (PaymentRefundedPayload on a r at) w)
      | EP_createSubscription \<Rightarrow> (\<exists>f req sid. b = JsonBody f \<and> subscription_request f = Some req \<and>
          d = SubscriptionIdData sid \<and> subscription_recorded req sid w)
      | EP_cancelSubscription sid \<Rightarrow> (\<exists>f r at. b = JsonBody f \<and> rq_reason f = Some r \<and>
          has_event SUBSCRIPTION_CANCELLED sid (SubscriptionCancelledPayload sid at r) w)
      | _ \<Rightarrow> True)"

fun promise :: "activity \<Rightarrow> outcome \<Rightarrow> world \<Rightarrow> bool" where
  "promise (Request ep q b) (Answered r) w =
     (case rs_body r of Success d \<Rightarrow> endpoint_promise ep b d w | Failure code msg \<Rightarrow> True)"
| "promise (FailPayment on reason) Finished w =
     (\<exists>at. has_event PAYMENT_FAILED on (PaymentFailedPayload on reason at) w)"
| "promise a x w = True"

lemma subscription_recorded_stays:
  "subscription_recorded req sid w \<Longrightarrow> world_grows w w' \<Longrightarrow> subscription_recorded req sid w'"
  unfolding subscription_recorded_def by (blast intro: stays)

lemma completion_fields_stays:
  "completion_fields_recorded f w \<Longrightarrow> world_grows w w' \<Longrightarrow> completion_fields_recorded f w'"
  unfolding completion_fields_recorded_def
  by (auto split: option.splits intro: recorded_stays stays)

lemma endpoint_promise_stays:
  "endpoint_promise ep b d w \<Longrightarrow> world_grows w w' \<Longrightarrow> endpoint_promise ep b d w'"
  by (cases ep; simp add: endpoint_promise_def)
    (blast intro: recorded_stays subscription_recorded_stays completion_fields_stays stays)+

lemma promise_stays: "promise a x w \<Longrightarrow> world_grows w w' \<Longrightarrow> promise a x w'"
  by (cases a; cases x) (auto intro: endpoint_promise_stays stays split: response_body.splits)

lemma error_promise: "promise (Request ep q b) (Answered (error_response e)) w"
  by (simp add: error_response_def split: js_error.split)

lemma to_writer:
  assumes "\<And>f. b = JsonBody f \<Longrightarrow> safe_to w (Q f) (m f)"
    "\<And>f x w'. b = JsonBody f \<Longrightarrow> Q f x w' \<Longrightarrow> R \<lparr>rs_status = status, rs_body = Success (h x)\<rparr> w'"
    "\<And>e w'. R (error_response e) w'"
  shows "safe_to w R (or_next (seq (body_fields b) (\<lambda>f. seq (m f) (\<lambda>x. reply status (h x)))))"
proof (cases b)
  case NoBody
  with assms(3) show ?thesis by (simp add: body_fields_def or_next_def to_Done)
next
  case (JsonBody f)
  with to_controller [OF assms(1) [OF JsonBody], of R status h] assms(2,3) show ?thesis
    by (simp add: body_fields_def)
qed

lemma to_writes:
  "safe_to w (\<lambda>r. promise (Request EP_createPayment q b) (Answered r)) (PaymentController_createPayment E b)"
  "safe_to w (\<lambda>r. promise (Request EP_completePayment q b) (Answered r)) (PaymentController_completePayment E b)"
  "safe_to w (\<lambda>r. promise (Request (EP_refundPayment on) q b) (Answered r)) (PaymentController_refundPayment E on b)"
  "safe_to w (\<lambda>r. promise (Request EP_createSubscription q b) (Answered r))
     (SubscriptionController_createSubscription E b)"
  "safe_to w (\<lambda>r. promise (Request (EP_cancelSubscription sid) q b) (Answered r))
     (SubscriptionController_cancelSubscription E sid b)"
  unfolding writer_defs(2-)
  by (rule to_writer, rule to_createPayment_fields to_completePayment_fields to_refundPayment_fields
      to_createSubscription_fields to_cancelSubscription_fields, simp add: endpoint_promise_def, rule error_promise)+

lemma to_reads:
  "ok w (PaymentController_getPayment E on)" "ok w (PaymentController_getUserPayments E uid l off)"
  "ok w (SubscriptionController_getSubscription E sid)" "ok w (SubscriptionController_getActiveSubscription E uid)"
  "ok w (EventController_getRecentEvents E l)" "ok w (EventController_getEventsByType E ty l off)"
  "ok w (EventController_getEventsByAggregate E agg)" "ok w (EventController_getDailySummary E from_day to_day)"
  "ok w (EventController_getTotalStats E)"
  unfolding reader_defs
  by (rule ok_controller, rule ok_payment_queries ok_subscription_queries ok_repositories)+

lemma to_read: "ok w p \<Longrightarrow> (\<And>d w'. endpoint_promise ep b d w') \<Longrightarrow>
    safe_to w (\<lambda>r. promise (Request ep q b) (Answered r)) p"
  by (erule to_weaken) (auto split: response_body.split)

lemma to_health: "ok w (seq (new_date E) (\<lambda>now. reply st (HealthData (to_iso_string now))))"
  unfolding reply_def by (rule ok_seq [OF ok_new_date], rule to_Done) simp

lemma to_serve: "safe_to w (\<lambda>r. promise (Request ep q b) (Answered r)) (serve E ep q b)"
  by (cases ep)
    (auto simp del: promise.simps simp: endpoint_promise_def
      intro!: to_writes to_read [OF to_health] to_read to_reads)

lemma to_activity: "safe_to w (promise a) (activity_prog E a)"
proof (cases a)
  case (Request ep q b)
  then show ?thesis
    by (auto intro!: to_seq [OF to_serve] to_Done)
next
  case (FailPayment on reason)
  have "safe_to w (promise (FailPayment on reason)) (seq (failPayment E on reason) (\<lambda>_. Done Finished))"
    by (rule to_seq [OF to_failPayment], rule to_Done) simp
  with FailPayment show ?thesis by (simp add: finishing_def)
qed (auto simp: finishing_def processDeadLetter_def
      intro!: ok_seq [OF ok_startServer] ok_seq [OF ok_processRenewal] ok_seq [OF ok_closeAll] to_Done)

definition pool :: "env \<Rightarrow> activity list \<Rightarrow> world \<times> (world, js_error, outcome) prog list" where
  "pool E as = (init_world, map (activity_prog E) as)"

lemma log_gapless_empty: "log_gapless empty_db"
  by (simp add: log_gapless_def versions_of_def events_of_def empty_db_def)

lemma world_inv_init: "world_inv init_world"
  using log_gapless_empty by (simp add: world_inv_def init_world_def db_inv_def registry_ok_def empty_db_def rooted_def)

lemma pool_safe:
  assumes "pool_step\<^sup>*\<^sup>* (pool E as) (w, ps)"
  shows "world_inv w" "length ps = length as" "\<And>i. i < length as \<Longrightarrow> safe_to w (promise (as ! i)) (ps ! i)"
proof -
  have "world_inv w \<and> world_grows (fst (pool E as)) w \<and> length ps = length (snd (pool E as))
      \<and> (\<forall>i < length ps. safe_to w (promise (as ! i)) (ps ! i))"
    using sys.pool_steps_safe [OF assms, where Q = "\<lambda>i. promise (as ! i)" and E = "\<lambda>_ _ _. True"]
    by (simp add: pool_def world_inv_init to_activity promise_stays)
  then show "world_inv w" "length ps = length as" "\<And>i. i < length as \<Longrightarrow> safe_to w (promise (as ! i)) (ps ! i)"
    by (simp_all add: pool_def)
qed

lemma pool_grows:
  assumes "pool_step\<^sup>*\<^sup>* (pool E as) (w, ps)" "pool_step\<^sup>*\<^sup>* (w, ps) (w', ps')"
  shows "world_grows w w'"
  using sys.pool_steps_safe [OF assms(2), where Q = "\<lambda>i. promise (as ! i)" and E = "\<lambda>_ _ _. True"]
    pool_safe [OF assms(1)] by (simp add: promise_stays)

lemma pool_promise:
  assumes "pool_step\<^sup>*\<^sup>* (pool E as) (w, ps)" "i < length as" "ps ! i = Done x"
  shows "promise (as ! i) x w"
  using pool_safe(3) [OF assms(1,2)] assms(3) by (auto simp: safe_simps)

end
