(* ===== verification/Samples.thy ===== *)
theory Samples
  imports AutopayWorker
begin

text \<open>
  A small environment and a few worlds, for the instances that show the hypotheses of the
  properties can be met: a clock that stands still, a fresh id per tick, and databases with one
  row in each status.
\<close>

definition sample_env :: "(nat \<Rightarrow> fault) \<Rightarrow> env" where
  "sample_env flt = \<lparr>clock = (\<lambda>_. 0), db_clock = (\<lambda>_. 0), uuid = (\<lambda>n. replicate n CHR ''u''),
     fault = flt, redis_reply = ttl_reply (\<lambda>_. 0), payment_order = (\<lambda>_ rs. rs),
     subscription_order = (\<lambda>_ rs. rs), event_order = (\<lambda>_ rs. rs),
     driver_message = (\<lambda>_. ''SQL error''), tz = 0\<rparr>"

definition calm :: env where
  "calm = sample_env (\<lambda>_. NoFault)"

lemma sample_env_simps [simp]:
  "clock (sample_env flt) n = 0" "db_clock (sample_env flt) n = 0"
  "uuid (sample_env flt) n = replicate n CHR ''u''" "fault (sample_env flt) = flt"
  "redis_reply (sample_env flt) = ttl_reply (\<lambda>_. 0)" "tz (sample_env flt) = 0"
  "subscription_order (sample_env flt) n ss = ss" "payment_order (sample_env flt) n ps = ps"
  "event_order (sample_env flt) n es = es"
  by (simp_all add: sample_env_def)

lemma calm_simps [simp]:
  "clock calm n = 0" "db_clock calm n = 0" "uuid calm n = replicate n CHR ''u''"
  "fault calm n = NoFault" "redis_reply calm = ttl_reply (\<lambda>_. 0)" "tz calm = 0"
  "subscription_order calm n ss = ss" "payment_order calm n ps = ps" "event_order calm n es = es"
  by (simp_all add: calm_def)

lemma calm_reliable [simp]: "reliable calm"
  by (simp add: reliable_def)

lemma calm_redis_ok [simp]: "redis_ok calm"
  by (simp add: redis_ok_def ttl_reply_def last_call_append last_call_none)

lemma show_int_zero [simp]: "show_int 0 = ''0''"
  by (simp add: show_int_def int_digits.simps digit_char_def char_of_def)

lemma sql_clock_zero [simp]: "sql_now 0 = 0" "sql_datetime 0 = 0"
  by (simp_all add: sql_now_def sql_datetime_def)

definition sample_request :: create_payment_request where
  "sample_request = \<lparr>cp_userId = ''alice'', cp_productId = ''gems'', cp_amount = 500, cp_currency = None\<rparr>"

definition sample_completion :: complete_payment_request where
  "sample_completion = \<lparr>co_orderNumber = ''O1'', co_transactionId = ''T1'', co_paidAmount = 500\<rparr>"

definition sample_refund :: refund_payment_request where
  "sample_refund = \<lparr>rf_orderNumber = ''O1'', rf_refundAmount = 500, rf_reason = ''changed my mind''\<rparr>"

definition sample_payment :: "payment_status \<Rightarrow> payment" where
  "sample_payment st = \<lparr>p_orderNumber = ''O1'', p_userId = ''alice'', p_productId = ''gems'',
     p_amount = 500, p_currency = ''KRW'', p_status = st, p_transactionId = None, p_paidAt = None,
     p_refundedAt = None, p_refundAmount = None, p_refundReason = None, p_id = 1, p_createdAt = 0,
     p_updatedAt = 0\<rparr>"

definition sample_plan_request :: "string \<Rightarrow> create_subscription_request" where
  "sample_plan_request plan = \<lparr>cs_userId = ''alice'', cs_planId = ''gold'', cs_plan = plan\<rparr>"

definition sample_subscription :: "subscription_status \<Rightarrow> bool \<Rightarrow> subscription" where
  "sample_subscription st renew = \<lparr>s_id = 1, s_subscriptionId = ''S1'', s_userId = ''alice'',
     s_planId = ''gold'', s_plan = MONTHLY, s_status = st, s_startDate = 0, s_endDate = 0,
     s_cancelledAt = None, s_cancelReason = None, s_autoRenew = renew, s_createdAt = 0, s_updatedAt = 0\<rparr>"

definition sample_job :: "nat \<Rightarrow> job" where
  "sample_job n = \<lparr>job_id = ''J1'', job_name = ''renew'',
     job_data = \<lparr>rj_subscriptionId = ''S1'', rj_userId = ''alice'', rj_planId = ''gold'', rj_plan = ''MONTHLY''\<rparr>,
     job_attemptsMade = n, job_attempts = Some 3\<rparr>"

definition booted :: world where
  "booted = Projector_register init_world"

lemma booted_simps [simp]:
  "w_tick booted = 0" "w_db booted = empty_db" "w_redis booted = []" "w_queues booted = []" "w_jobs booted = []"
  by (simp_all add: booted_def Projector_register_def EventBus_subscribe_def Let_def init_world_def)

lemma booted_handlers:
  "handlers_of ty booted = (case ty of PAYMENT_COMPLETED \<Rightarrow> [OnPaymentCompleted]
     | PAYMENT_REFUNDED \<Rightarrow> [OnPaymentRefunded] | PAYMENT_FAILED \<Rightarrow> [OnPaymentFailed] | _ \<Rightarrow> [])"
proof -
  have "handlers_of ty init_world = []" by (simp add: handlers_of_def init_world_def)
  then show ?thesis by (simp add: booted_def registered_handlers split: event_type.split)
qed

definition with_payment :: "payment_status \<Rightarrow> world" where
  "with_payment st = booted\<lparr>w_db := empty_db\<lparr>payments := [sample_payment st]\<rparr>\<rparr>"

definition with_subscription :: "subscription_status \<Rightarrow> bool \<Rightarrow> world" where
  "with_subscription st renew = booted\<lparr>w_db := empty_db\<lparr>subscriptions := [sample_subscription st renew]\<rparr>\<rparr>"

lemma with_payment_simps [simp]:
  "w_tick (with_payment st) = 0" "w_db (with_payment st) = empty_db\<lparr>payments := [sample_payment st]\<rparr>"
  "handlers_of ty (with_payment st) = handlers_of ty booted" "w_redis (with_payment st) = []"
  by (simp_all add: with_payment_def handlers_of_def)

lemma with_subscription_simps [simp]:
  "w_tick (with_subscription st b) = 0" "w_redis (with_subscription st b) = []"
  "w_db (with_subscription st b) = empty_db\<lparr>subscriptions := [sample_subscription st b]\<rparr>"
  "handlers_of ty (with_subscription st b) = handlers_of ty booted"
  by (simp_all add: with_subscription_def handlers_of_def)

lemma empty_db_simps [simp]:
  "payments empty_db = []" "subscriptions empty_db = []" "event_store empty_db = []" "payment_summary empty_db = []"
  "latest_version a empty_db = 0" "events_of a empty_db = []"
  by (simp_all add: empty_db_def latest_version_def events_of_def)

lemma empty_db_events [simp]:
  "events_of a (empty_db\<lparr>payments := ps\<rparr>) = []" "events_of a (empty_db\<lparr>subscriptions := ss\<rparr>) = []"
  by (simp_all add: events_of_def)

lemma sample_select [simp]:
  "payment_select ''O1'' (empty_db\<lparr>payments := [sample_payment st]\<rparr>) = Some (sample_payment st)"
  "subscription_select ''S1'' (empty_db\<lparr>subscriptions := [sample_subscription ss b]\<rparr>) = Some (sample_subscription ss b)"
  by (simp_all add: payment_select_def subscription_select_def sample_payment_def sample_subscription_def)

lemma sample_status [simp]:
  "p_status (sample_payment st) = st" "s_status (sample_subscription ss b) = ss"
  "s_autoRenew (sample_subscription ss b) = b" "s_userId (sample_subscription ss b) = ''alice''"
  "s_endDate (sample_subscription ss b) = 0"
  by (simp_all add: sample_payment_def sample_subscription_def)

text \<open>A clock on which an hour passes with every action.\<close>

definition hourly :: env where
  "hourly = calm\<lparr>clock := (\<lambda>n. 3600000 * int n), redis_reply := ttl_reply (\<lambda>n. 3600000 * int n)\<rparr>"

lemma hourly_simps [simp]:
  "reliable hourly" "redis_ok hourly" "clock hourly n = 3600000 * int n" "db_clock hourly n = 0"
  "uuid hourly n = replicate n CHR ''u''" "redis_reply hourly = ttl_reply (\<lambda>n. 3600000 * int n)" "tz hourly = 0"
  by (simp_all add: hourly_def reliable_def redis_ok_def ttl_reply_def last_call_append last_call_none)

end
