(* ===== verification/HttpLaws.thy ===== *)
theory HttpLaws
  imports Http Samples
begin

text \<open>
  Requests and responses: which errors the handlers throw, that every request that is served is
  answered, with one of the status and code pairs the error handler knows, and the reading of
  paths and of the \<open>limit\<close> and \<open>offset\<close> parameters. \<open>ends\<close> bounds how a program can end,
  whatever the world does between its actions, so what it shows holds of every interleaving.
\<close>

section \<open>How a program can end\<close>

primrec ends :: "('a \<Rightarrow> bool) \<Rightarrow> ('e \<Rightarrow> bool) \<Rightarrow> ('w, 'e, 'a) prog \<Rightarrow> bool" where
  "ends Q P (Done x) = Q x"
| "ends Q P (Fail e) = P e"
| "ends Q P (Act g k) = (\<forall>w. ends Q P (k w))"

abbreviation "throws \<equiv> ends (\<lambda>_. True)"

lemma ends_act: "(\<And>w. case fst (f w) of Inl e \<Rightarrow> P e | Inr x \<Rightarrow> Q x) \<Longrightarrow> ends Q P (act f)"
  by (auto simp: act_def split: sum.split) (metis sum.case)+

lemma ends_seq: "ends Q' P m \<Longrightarrow> (\<And>x. Q' x \<Longrightarrow> ends Q P (f x)) \<Longrightarrow> ends Q P (seq m f)"
  by (induction m) auto

lemma ends_catch: "ends Q P' m \<Longrightarrow> (\<And>e. P' e \<Longrightarrow> ends Q P (h e)) \<Longrightarrow> ends Q P (catch m h)"
  by (induction m) auto

lemma ends_weaken:
  "ends Q P p \<Longrightarrow> (\<And>x. Q x \<Longrightarrow> Q' x) \<Longrightarrow> (\<And>e. P e \<Longrightarrow> P' e) \<Longrightarrow> ends Q' P' p"
  by (induction p) auto

lemma ends_any: "ends (\<lambda>_. True) (\<lambda>_. True) p"
  by (induction p) auto

lemma ends_run: "ends Q P p \<Longrightarrow> run p w = (r, w') \<Longrightarrow> case r of Inl e \<Rightarrow> P e | Inr x \<Rightarrow> Q x"
proof (induction p arbitrary: w)
  case (Act g k)
  from Act.prems have "ends Q P (k w)" "run (k w) (g w) = (r, w')" by simp_all
  then show ?case using Act.IH [of "k w"] by blast
qed auto

lemma ends_step:
  "pool_step (w, ps) (w', ps') \<Longrightarrow> \<forall>i < length ps. ends (Q i) (P i) (ps ! i) \<Longrightarrow>
    length ps' = length ps \<and> (\<forall>i < length ps. ends (Q i) (P i) (ps' ! i))"
  by (erule pool_stepE) (metis ends.simps(3) length_list_update nth_list_update_eq nth_list_update_neq)

lemma ends_steps:
  "pool_step\<^sup>*\<^sup>* c c' \<Longrightarrow> \<forall>i < length (snd c). ends (Q i) (P i) (snd c ! i) \<Longrightarrow>
    length (snd c') = length (snd c) \<and> (\<forall>i < length (snd c). ends (Q i) (P i) (snd c' ! i))"
proof (induction rule: rtranclp_induct)
  case (step c' c'')
  then have IH: "length (snd c') = length (snd c)" "\<forall>i < length (snd c'). ends (Q i) (P i) (snd c' ! i)" by auto
  from step.hyps(2) have "pool_step (fst c', snd c') (fst c'', snd c'')" by simp
  from ends_step [OF this IH(2)] IH(1) show ?case by simp
qed simp

section \<open>The errors of the handlers\<close>

text \<open>The errors a handler throws: three kinds with a status of their own, and the rest.\<close>

definition known_error :: "js_error \<Rightarrow> bool" where
  "known_error e = (case e of
     AppErr a \<Rightarrow> (err_statusCode a, err_code a) \<in>
       {(404, Some ''NOT_FOUND''), (409, Some ''CONFLICT''), (409, Some ''DUPLICATE_PAYMENT'')}
   | _ \<Rightarrow> True)"

lemma known_errors [simp]:
  "known_error (NotFoundError resource i)" "known_error (ConflictError m)" "known_error (DuplicatePaymentError on)"
  "known_error (PlainError m)" "known_error (SqlErr s)" "known_error (Unavailable m)"
  by (simp_all add: known_error_def error_defs)

lemma throws_remote:
  assumes "\<And>n w. case fst (f n w) of Inl e \<Rightarrow> known_error e | Inr x \<Rightarrow> True"
  shows "throws known_error (remote E f)"
  unfolding remote_def by (rule ends_act) (use assms in \<open>simp split: fault.split\<close>)

lemma throws_sql: "throws known_error (sql E st)"
  unfolding sql_def by (rule throws_remote) (simp add: sql_effect_def split: sum.split)

lemma throws_services:
  "throws P (new_date E)" "throws P (uuidv4 E)" "throws P (getOrCreateQueue qn)"
  "throws known_error (RedisClient_get E key)" "throws known_error (RedisClient_set E key v ttl)"
  "throws known_error (queue_add E q name d opts)"
  unfolding new_date_def uuidv4_def getOrCreateQueue_def RedisClient_get_def RedisClient_set_def queue_add_def
  by (rule ends_act throws_remote; simp add: Let_def split: option.split)+

lemma throws_repositories:
  "throws known_error (PaymentRepository_create E d)" "throws known_error (PaymentRepository_findByOrderNumber E on)"
  "throws known_error (PaymentRepository_findByUserId E uid l off)"
  "throws known_error (PaymentRepository_updateStatus E on st extra)"
  "throws known_error (SubscriptionRepository_create E sd)"
  "throws known_error (SubscriptionRepository_findBySubscriptionId E sid)"
  "throws known_error (SubscriptionRepository_findActiveByUserId E uid)"
  "throws known_error (SubscriptionRepository_updateStatus E sid ss extra)"
  "throws known_error (EventStoreRepository_append E ev)"
  "throws known_error (EventStoreRepository_getLatestVersion E a)"
  "throws known_error (EventStoreRepository_findByAggregateId E a)"
  "throws known_error (EventStoreRepository_findByType E ty l off)"
  "throws known_error (EventStoreRepository_findRecent E l)"
  "throws known_error (getDailySummary E from_day to_day)" "throws known_error (getTotalStats E)"
  unfolding repository_defs PaymentRepository_findByUserId_def EventStoreRepository_findByType_def
    EventStoreRepository_findRecent_def getDailySummary_def getTotalStats_def
  by (rule throws_sql)+

lemma throws_all_settled: "throws known_error (all_settled ps)"
proof (induction ps)
  case (Cons p ps)
  have "throws known_error (catch p (\<lambda>_. Done ()))"
    by (rule ends_catch [where P' = "\<lambda>_. True"]) (induction p; simp)+
  with Cons show ?case by (simp add: ends_seq [where Q' = "\<lambda>_. True"])
qed simp

lemma throws_seq: "throws P m \<Longrightarrow> (\<And>x. ends Q P (f x)) \<Longrightarrow> ends Q P (seq m f)"
  by (rule ends_seq)

lemma throws_read: "throws P (act (\<lambda>w. (Inr (f w), w)))"
  by (rule ends_act) simp

lemma throws_publish: "throws known_error (EventBus_publish E exec ty a aty payload)"
  unfolding EventBus_publish_def Let_def
  by (intro throws_seq throws_repositories throws_services throws_read throws_all_settled) simp

lemmas throws_rules = throws_seq throws_repositories throws_services throws_publish

lemma throws_payments:
  "throws known_error (createPayment E creq)" "throws known_error (completePayment E req)"
  "throws known_error (refundPayment E rreq)" "throws known_error (getPayment E on)"
  "throws known_error (getUserPayments E uid l off)"
  unfolding createPayment_def completePayment_def refundPayment_def getPayment_def getUserPayments_def Let_def
  by (auto intro!: throws_rules split: option.split)

lemma throws_subscriptions:
  "throws known_error (createSubscription E sreq)" "throws known_error (cancelSubscription E sid reason)"
  "throws known_error (getSubscription E sid)" "throws known_error (getActiveSubscription E uid)"
  unfolding createSubscription_def cancelSubscription_def getSubscription_def getActiveSubscription_def Let_def
  by (auto intro!: throws_rules split: option.split)

lemma throws_requests: "throws known_error (unbound E)" "throws known_error (no_row E)"
  unfolding unbound_def no_row_def
  by (rule throws_remote, simp add: undefined_parameter_def) (rule throws_sql)

lemma throws_fields:
  "throws known_error (createPayment_fields E f)" "throws known_error (completePayment_fields E f)"
  "throws known_error (refundPayment_fields E on f)" "throws known_error (createSubscription_fields E f)"
  "throws known_error (cancelSubscription_fields E sid f)" "throws known_error (body_fields b)"
  unfolding request_defs body_fields_def
  by (auto intro!: throws_payments throws_subscriptions throws_requests throws_rules
      split: option.split request_body.split)

section \<open>Every request is answered\<close>

definition response_ok :: "response \<Rightarrow> bool" where
  "response_ok rs = (case rs_body rs of
     Success d \<Rightarrow> rs_status rs \<in> {200, 201}
   | Failure code msg \<Rightarrow> (rs_status rs, code) \<in> {(404, Some ''NOT_FOUND''), (409, Some ''CONFLICT''),
       (409, Some ''DUPLICATE_PAYMENT''), (500, Some ''INTERNAL_ERROR'')})"

lemma error_response_ok: "known_error e \<Longrightarrow> response_ok (error_response e)"
  by (auto simp: known_error_def response_ok_def error_response_def split: js_error.splits)

lemma ends_controller:
  assumes "throws known_error m" "status \<in> {200, 201}"
  shows "ends response_ok P (or_next (seq m (\<lambda>x. reply status (f x))))"
  unfolding or_next_def reply_def
proof (rule ends_catch)
  show "ends response_ok known_error (seq m (\<lambda>x. Done \<lparr>rs_status = status, rs_body = Success (f x)\<rparr>))"
    using assms by (intro throws_seq) (simp_all add: response_ok_def)
qed (simp add: error_response_ok)

lemma ends_writer:
  assumes "\<And>f. throws known_error (m f)" "status \<in> {200, 201}"
  shows "ends response_ok P (or_next (seq (body_fields b) (\<lambda>f. seq (m f) (\<lambda>x. reply status (h x)))))"
  unfolding seq_assoc [symmetric] by (rule ends_controller) (intro throws_seq throws_fields assms)+

lemma serve_ends: "ends response_ok (\<lambda>_. False) (serve E ep q b)"
proof (cases ep)
  case EP_health
  have "ends response_ok (\<lambda>_. False) (seq (new_date E) (\<lambda>now. reply 200 (HealthData (to_iso_string now))))"
    by (intro throws_seq throws_services) (simp add: reply_def response_ok_def)
  with EP_health show ?thesis by simp
qed (auto simp: writer_defs(2-) reader_defs
    intro!: ends_writer ends_controller throws_fields throws_payments throws_subscriptions throws_repositories)

text \<open>
  C39: Every request is answered, whatever its body lacks and whichever of its remote calls fail:
  the controller's program always ends with a well-formed response and never with a thrown error.
\<close>

theorem every_request_answered:
  "\<exists>rs w'. run (serve E ep q b) w = (Inr rs, w') \<and> response_ok rs"
proof -
  obtain r w' where r: "run (serve E ep q b) w = (r, w')" by fastforce
  from ends_run [OF serve_ends r] show ?thesis by (cases r) (auto simp: r)
qed

section \<open>Paths and parameters\<close>

text \<open>The path of an endpoint: fixed words (\<open>Inl\<close>, in lower case) and values (\<open>Inr\<close>).\<close>

fun endpoint_path :: "endpoint \<Rightarrow> http_method \<times> (string + string) list" where
  "endpoint_path EP_createPayment = (POST, map Inl [''api'', ''v1'', ''payments''])"
| "endpoint_path EP_completePayment = (POST, map Inl [''api'', ''v1'', ''payments'', ''complete''])"
| "endpoint_path (EP_refundPayment on) = (POST, map Inl [''api'', ''v1'', ''payments''] @ [Inr on, Inl ''refund''])"
| "endpoint_path (EP_getPayment on) = (GET, map Inl [''api'', ''v1'', ''payments''] @ [Inr on])"
| "endpoint_path (EP_getUserPayments uid) = (GET, map Inl [''api'', ''v1'', ''users''] @ [Inr uid, Inl ''payments''])"
| "endpoint_path EP_createSubscription = (POST, map Inl [''api'', ''v1'', ''subscriptions''])"
| "endpoint_path (EP_cancelSubscription sid) = (POST, map Inl [''api'', ''v1'', ''subscriptions''] @ [Inr sid, Inl ''cancel''])"
| "endpoint_path (EP_getSubscription sid) = (GET, map Inl [''api'', ''v1'', ''subscriptions''] @ [Inr sid])"
| "endpoint_path (EP_getActiveSubscription uid) = (GET, map Inl [''api'', ''v1'', ''users''] @ [Inr uid, Inl ''subscription''])"
| "endpoint_path EP_recentEvents = (GET, map Inl [''api'', ''v1'', ''events'', ''recent''])"
| "endpoint_path (EP_eventsByType ty) = (GET, map Inl [''api'', ''v1'', ''events'', ''type''] @ [Inr ty])"
| "endpoint_path (EP_eventsByAggregate a) = (GET, map Inl [''api'', ''v1'', ''events'', ''aggregate''] @ [Inr a])"
| "endpoint_path EP_dailySummary = (GET, map Inl [''api'', ''v1'', ''stats'', ''daily''])"
| "endpoint_path EP_totalStats = (GET, map Inl [''api'', ''v1'', ''stats'', ''total''])"
| "endpoint_path EP_health = (GET, [Inl ''health''])"

definition spelled :: "string + string \<Rightarrow> string \<Rightarrow> bool" where
  "spelled part s = (case part of Inl word \<Rightarrow> to_lower s = word | Inr v \<Rightarrow> s = v \<and> v \<noteq> '''')"

definition spells :: "http_method \<Rightarrow> string list \<Rightarrow> endpoint \<Rightarrow> bool" where
  "spells m path ep \<longleftrightarrow> (\<exists>parts segs. endpoint_path ep = (m, parts) \<and> list_all2 spelled parts segs \<and>
     (path = segs \<or> path = segs @ ['''']))"

text \<open>What a pattern matches.\<close>

definition seg_fits :: "string \<Rightarrow> string \<Rightarrow> bool" where
  "seg_fits p s \<longleftrightarrow> (if is_param p then s \<noteq> '''' else to_lower s = to_lower p)"

fun param_values :: "string list \<Rightarrow> string list \<Rightarrow> string list" where
  "param_values (p # ps) (s # ss) = (if is_param p then s # param_values ps ss else param_values ps ss)"
| "param_values ps ss = []"

lemma match_path_iff:
  "match_path pattern path = Some vs \<longleftrightarrow> (\<exists>segs. list_all2 seg_fits pattern segs \<and>
     (path = segs \<or> path = segs @ ['''']) \<and> vs = param_values pattern segs)"
proof (induction pattern path arbitrary: vs rule: match_path.induct)
  case (4 p ps s ss)
  have unroll: "(\<exists>segs. list_all2 seg_fits (p # ps) segs \<and> P segs) \<longleftrightarrow>
      (\<exists>z zs. seg_fits p z \<and> list_all2 seg_fits ps zs \<and> P (z # zs))" for P
    by (auto simp: list_all2_Cons1)
  show ?case unfolding unroll using 4 by (cases "is_param p") (auto simp: seg_fits_def [of p])
qed auto

lemma first_match_Some: "first_match rs m path = Some ep \<Longrightarrow>
    \<exists>pattern f vs. (m, pattern, f) \<in> set rs \<and> match_path pattern path = Some vs \<and> ep = f vs"
  by (induction rs m path rule: first_match.induct) (auto split: option.splits if_splits)

lemma first_match_None: "first_match rs m path = None \<Longrightarrow> (m, pattern, f) \<in> set rs \<Longrightarrow> match_path pattern path = None"
  by (induction rs m path rule: first_match.induct) (auto split: option.splits if_splits)

lemma to_lower_words [simp]:
  "to_lower ''api'' = ''api''" "to_lower ''v1'' = ''v1''" "to_lower ''payments'' = ''payments''"
  "to_lower ''complete'' = ''complete''" "to_lower ''refund'' = ''refund''" "to_lower ''users'' = ''users''"
  "to_lower ''subscriptions'' = ''subscriptions''" "to_lower ''subscription'' = ''subscription''"
  "to_lower ''cancel'' = ''cancel''" "to_lower ''events'' = ''events''" "to_lower ''recent'' = ''recent''"
  "to_lower ''type'' = ''type''" "to_lower ''aggregate'' = ''aggregate''" "to_lower ''stats'' = ''stats''"
  "to_lower ''daily'' = ''daily''" "to_lower ''total'' = ''total''" "to_lower ''health'' = ''health''"
  by (simp_all add: to_lower_def lower_char_def is_upper_def)

lemma is_param_words [simp]:
  "\<not> is_param ''api''" "\<not> is_param ''v1''" "\<not> is_param ''payments''" "\<not> is_param ''complete''" "\<not> is_param ''refund''"
  "\<not> is_param ''users''" "\<not> is_param ''subscriptions''" "\<not> is_param ''subscription''" "\<not> is_param ''cancel''"
  "\<not> is_param ''events''" "\<not> is_param ''recent''" "\<not> is_param ''type''" "\<not> is_param ''aggregate''" "\<not> is_param ''stats''"
  "\<not> is_param ''daily''" "\<not> is_param ''total''" "\<not> is_param ''health''"
  "is_param '':orderNumber''" "is_param '':userId''" "is_param '':subscriptionId''" "is_param '':type''" "is_param '':aggregateId''"
  by (simp_all add: is_param_def)

text \<open>A route leads to the endpoints whose path its pattern describes, and only to them.\<close>

lemma route_spells:
  assumes "(m, pattern, f) \<in> set routes" "match_path pattern path = Some vs"
  shows "spells m path (f vs)"
proof -
  from assms(2) obtain segs where segs: "list_all2 seg_fits pattern segs" "path = segs \<or> path = segs @ ['''']"
    "vs = param_values pattern segs" unfolding match_path_iff by blast
  have "\<exists>parts. endpoint_path (f (param_values pattern segs)) = (m, parts) \<and> list_all2 spelled parts segs"
    using assms(1) segs(1) by (auto simp: routes_def list_all2_Cons1 seg_fits_def spelled_def)
  with segs show ?thesis unfolding spells_def by blast
qed

lemma spells_route:
  assumes "spells m path ep"
  shows "\<exists>(m', pattern, f) \<in> set routes. m' = m \<and> (\<exists>vs. match_path pattern path = Some vs \<and> f vs = ep)"
proof -
  from assms obtain parts segs where path: "endpoint_path ep = (m, parts)" "list_all2 spelled parts segs"
    "path = segs \<or> path = segs @ ['''']" unfolding spells_def by blast
  have matches: "\<exists>vs. match_path pattern path = Some vs \<and> f vs = ep"
    if "list_all2 seg_fits pattern segs" "f (param_values pattern segs) = ep" for pattern f
    using that path(3) unfolding match_path_iff by blast
  have "\<exists>(m', pattern, f) \<in> set routes. m' = m \<and> list_all2 seg_fits pattern segs \<and> f (param_values pattern segs) = ep"
    using path(1,2) by (cases ep) (auto simp: routes_def list_all2_Cons1 seg_fits_def spelled_def)
  then show ?thesis using matches by fastforce
qed

text \<open>No request has two routes: no two patterns of a method overlap.\<close>

definition overlap :: "string list \<Rightarrow> string list \<Rightarrow> bool" where
  "overlap ps qs \<longleftrightarrow> list_all2 (\<lambda>p q. is_param p \<or> is_param q \<or> to_lower p = to_lower q) ps qs"

lemma fitting_overlap: "list_all2 seg_fits ps segs \<Longrightarrow> list_all2 seg_fits qs segs \<Longrightarrow> overlap ps qs"
  by (induction ps segs arbitrary: qs rule: list_all2_induct)
    (auto simp: overlap_def list_all2_Cons2 seg_fits_def split: if_splits)

lemma fits_nonempty: "list_all2 seg_fits ps segs \<Longrightarrow> '''' \<notin> set ps \<Longrightarrow> '''' \<notin> set segs"
  by (induction ps segs rule: list_all2_induct) (auto simp: seg_fits_def to_lower_def split: if_splits)

lemma matching_overlap:
  assumes "match_path ps path = Some vs" "match_path qs path = Some vs'" "'''' \<notin> set ps" "'''' \<notin> set qs"
  shows "overlap ps qs"
proof -
  from assms(1) obtain segs where p: "list_all2 seg_fits ps segs" "path = segs \<or> path = segs @ ['''']"
    unfolding match_path_iff by blast
  from assms(2) obtain segs' where q: "list_all2 seg_fits qs segs'" "path = segs' \<or> path = segs' @ ['''']"
    unfolding match_path_iff by blast
  from p(2) q(2) fits_nonempty [OF p(1) assms(3)] fits_nonempty [OF q(1) assms(4)] have "segs = segs'" by auto
  with p(1) q(1) show ?thesis by (auto intro: fitting_overlap)
qed

lemma routes_apart: "sorted_wrt (\<lambda>(m, ps, f) (m', qs, g). m = m' \<longrightarrow> \<not> overlap ps qs) routes"
  by (simp add: routes_def overlap_def)

lemma route_words: "(m, ps, f) \<in> set routes \<Longrightarrow> '''' \<notin> set ps"
  by (auto simp: routes_def)

lemma sorted_wrt_either: "sorted_wrt R xs \<Longrightarrow> x \<in> set xs \<Longrightarrow> y \<in> set xs \<Longrightarrow> x = y \<or> R x y \<or> R y x"
  by (induction xs) auto

lemma one_route:
  assumes "(m, ps, f) \<in> set routes" "match_path ps path = Some vs" "(m, qs, g) \<in> set routes" "match_path qs path = Some vs'"
  shows "f vs = g vs'"
proof -
  note words = route_words [OF assms(1)] route_words [OF assms(3)]
  from sorted_wrt_either [OF routes_apart assms(1,3)]
    matching_overlap [OF assms(2,4) words] matching_overlap [OF assms(4,2) words(2,1)]
  have "ps = qs \<and> f = g" by auto
  with assms(2,4) show ?thesis by simp
qed

lemma first_match_spells:
  assumes "set table = set routes"
  shows "first_match table m path = Some ep \<longleftrightarrow> spells m path ep"
proof
  assume "first_match table m path = Some ep"
  from first_match_Some [OF this] assms show "spells m path ep" using route_spells by auto
next
  assume "spells m path ep"
  from spells_route [OF this] obtain ps f vs where r: "(m, ps, f) \<in> set routes" "match_path ps path = Some vs" "f vs = ep"
    by blast
  then obtain ep' where found: "first_match table m path = Some ep'"
    using first_match_None [of table m path ps f] assms by (cases "first_match table m path") auto
  from first_match_Some [OF found] obtain qs g vs' where "(m, qs, g) \<in> set routes" "match_path qs path = Some vs'" "ep' = g vs'"
    unfolding assms by blast
  with one_route [OF r(1,2)] r(3) found show "first_match table m path = Some ep" by simp
qed

text \<open>
  C40: Which requests the route table leads where. A request with method m, its path split at the
  slashes, reaches an endpoint if and only if it spells the path of that endpoint: the fixed words in
  any letter case, the values exactly as they are and not empty, and at most one slash at the end. So no
  request could go to two endpoints, and this is so for the calls of createRouter in any order:
  no route shadows another.
\<close>

theorem route_iff:
  assumes "mset table = mset routes"
  shows "first_match table m path = Some ep \<longleftrightarrow> (\<exists>parts segs. endpoint_path ep = (m, parts) \<and>
    list_all2 (\<lambda>part s. case part of Inl word \<Rightarrow> to_lower s = word | Inr v \<Rightarrow> s = v \<and> v \<noteq> '''') parts segs \<and>
    (path = segs \<or> path = segs @ ['''']))"
proof -
  have "set table = set routes" using assms by (rule mset_eq_setD)
  from first_match_spells [OF this] show ?thesis unfolding spells_def spelled_def [abs_def] .
qed

lemma route_iff_witness:
  "first_match (rev routes) GET [''API'', ''v1'', ''Users'', ''Bob'', ''payments'', ''''] = Some (EP_getUserPayments ''Bob'')"
proof -
  have rev: "mset (rev routes) = mset routes" by simp
  have "to_lower ''API'' = ''api''" "to_lower ''Users'' = ''users''" by code_simp+
  then show ?thesis unfolding route_iff [OF rev]
    by (intro exI [of _ "snd (endpoint_path (EP_getUserPayments ''Bob''))"]
        exI [of _ "[''API'', ''v1'', ''Users'', ''Bob'', ''payments'']"]) simp
qed

text \<open>The routes of the paths that the dashboard writes.\<close>

lemma route_spelled: "endpoint_path ep = (m, parts) \<Longrightarrow> list_all2 spelled parts path \<Longrightarrow> route m path = Some ep"
  unfolding route_def by (auto simp: first_match_spells spells_def)

lemma routed:
  "route POST [''api'', ''v1'', ''payments''] = Some EP_createPayment"
  "route POST [''api'', ''v1'', ''payments'', ''complete''] = Some EP_completePayment"
  "i \<noteq> '''' \<Longrightarrow> route POST [''api'', ''v1'', ''payments'', i, ''refund''] = Some (EP_refundPayment i)"
  "i \<noteq> '''' \<Longrightarrow> route GET [''api'', ''v1'', ''payments'', i] = Some (EP_getPayment i)"
  "i \<noteq> '''' \<Longrightarrow> route GET [''api'', ''v1'', ''users'', i, ''payments''] = Some (EP_getUserPayments i)"
  "route POST [''api'', ''v1'', ''subscriptions''] = Some EP_createSubscription"
  "i \<noteq> '''' \<Longrightarrow> route POST [''api'', ''v1'', ''subscriptions'', i, ''cancel''] = Some (EP_cancelSubscription i)"
  "i \<noteq> '''' \<Longrightarrow> route GET [''api'', ''v1'', ''subscriptions'', i] = Some (EP_getSubscription i)"
  "i \<noteq> '''' \<Longrightarrow> route GET [''api'', ''v1'', ''users'', i, ''subscription''] = Some (EP_getActiveSubscription i)"
  "route GET [''api'', ''v1'', ''events'', ''recent''] = Some EP_recentEvents"
  "i \<noteq> '''' \<Longrightarrow> route GET [''api'', ''v1'', ''events'', ''aggregate'', i] = Some (EP_eventsByAggregate i)"
  "route GET [''api'', ''v1'', ''stats'', ''daily''] = Some EP_dailySummary"
  "route GET [''api'', ''v1'', ''stats'', ''total''] = Some EP_totalStats"
  by (rule route_spelled, simp, simp add: spelled_def)+

text \<open>
  A limit or offset written in decimal is read back as it is, negative numbers included,
  except that 0 is taken for missing and replaced by the default.
\<close>

lemma int_param_show: "int_param d (Some (show_int n)) = (if n = 0 then d else n)"
  by (simp add: int_param_def parse_int_show)

end
