(* ===== verification/Liveness.thy ===== *)
theory Liveness
  imports Operations HttpLaws
begin

text \<open>
  How long an activity takes. \<open>turns J Q n p\<close> bounds by \<open>n\<close> the actions the program \<open>p\<close> can still do,
  whatever the others do between them as long as they keep \<open>J\<close> of the world, and says \<open>Q\<close> of what it
  returns. Each operation has its number; the numbers of composed programs are the sums of
  those of their parts. So an activity that has had its number of turns has come to its end, however they
  were spread over the run, and no activity can hold up another for longer or for ever.
\<close>

section \<open>Bounded programs\<close>

fun finished :: "('w, 'e, 'a) prog \<Rightarrow> bool" where
  "finished (Done x) = True"
| "finished (Fail e) = True"
| "finished (Act g k) = False"

lemma finished_iff: "finished p \<longleftrightarrow> (\<exists>x. p = Done x) \<or> (\<exists>e. p = Fail e)"
  by (cases p) auto

primrec turns :: "('w \<Rightarrow> bool) \<Rightarrow> ('a \<Rightarrow> bool) \<Rightarrow> nat \<Rightarrow> ('w, 'e, 'a) prog \<Rightarrow> bool" where
  "turns J Q n (Done x) = Q x"
| "turns J Q n (Fail e) = True"
| "turns J Q n (Act g k) = (0 < n \<and> (\<forall>w. J w \<longrightarrow> J (g w) \<and> turns J Q (n - 1) (k w)))"

lemma turns_mono: "turns J Q m p \<Longrightarrow> m \<le> n \<Longrightarrow> turns J Q n p"
proof (induction p arbitrary: m n)
  case (Act g k)
  then have "m - 1 \<le> n - 1" by simp
  with Act show ?case by (simp, blast)
qed simp_all

lemma turns_act:
  "(\<And>w. J w \<Longrightarrow> J (snd (f w)) \<and> (case fst (f w) of Inl e \<Rightarrow> True | Inr x \<Rightarrow> Q x)) \<Longrightarrow> turns J Q 1 (act f)"
  by (auto simp: act_def split: sum.split) (metis sum.case(2))

lemma turns_seq_add:
  "turns J P m p \<Longrightarrow> (\<And>x. P x \<Longrightarrow> turns J Q n (f x)) \<Longrightarrow> turns J Q (m + n) (seq p f)"
proof (induction p arbitrary: m)
  case (Done x)
  then show ?case using turns_mono [of J Q n "f x" "m + n"] by simp
next
  case (Act g k)
  from Act.prems(1) have m: "m - 1 + n = m + n - 1" by simp
  from Act.prems show ?case using Act.IH [of _ "m - 1"] unfolding m by auto
qed simp

lemma turns_catch_add:
  "turns J Q m p \<Longrightarrow> (\<And>e. turns J Q n (h e)) \<Longrightarrow> turns J Q (m + n) (catch p h)"
proof (induction p arbitrary: m)
  case (Fail e)
  then show ?case using turns_mono [of J Q n "h e" "m + n"] by simp
next
  case (Act g k)
  from Act.prems(1) have m: "m - 1 + n = m + n - 1" by simp
  from Act.prems show ?case using Act.IH [of _ "m - 1"] unfolding m by auto
qed simp

lemma turns_seq:
  "turns J P m p \<Longrightarrow> m \<le> n \<Longrightarrow> (\<And>x. P x \<Longrightarrow> turns J Q (n - m) (f x)) \<Longrightarrow> turns J Q n (seq p f)"
  using turns_seq_add [of J P m p Q "n - m" f] by simp

lemma turns_catch:
  "turns J Q m p \<Longrightarrow> m \<le> n \<Longrightarrow> (\<And>e. turns J Q (n - m) (h e)) \<Longrightarrow> turns J Q n (catch p h)"
  using turns_catch_add [of J Q m p "n - m" h] by simp

section \<open>Bounded activities\<close>

text \<open>What a schedule leaves of the bounds.\<close>

lemma turns_finished: "finished p \<Longrightarrow> turns J Q n p \<Longrightarrow> turns J Q m p"
  by (cases p) auto

lemma schedule_turns:
  assumes "J w" "\<forall>i < length ps. turns J (Q i) (ns i) (ps ! i)" "run_schedule s (w, ps) = (w', ps')"
  shows "length ps' = length ps \<and> (\<forall>i < length ps. turns J (Q i) (ns i - count_list s i) (ps' ! i))"
  using assms
proof (induction s arbitrary: w ps ns)
  case (Cons j s)
  let ?ns = "ns(j := ns j - 1)"
  have left: "?ns i - count_list s i = ns i - count_list (j # s) i" for i by simp
  show ?case
  proof (cases "j < length ps \<and> \<not> finished (ps ! j)")
    case True
    then obtain g k where j: "j < length ps" "ps ! j = Act g k" by (cases "ps ! j") auto
    with Cons.prems(1,2) have next': "J (g w)" "turns J (Q j) (ns j - 1) (k w)" by (metis turns.simps(3))+
    have "\<forall>i < length (ps[j := k w]). turns J (Q i) (?ns i) (ps[j := k w] ! i)"
      using Cons.prems(2) next'(2) j(1) by (auto simp: nth_list_update)
    from Cons.IH [OF next'(1) this] Cons.prems(3) j show ?thesis unfolding left by simp
  next
    case False
    then have "run_schedule s (w, ps) = (w', ps')"
      using Cons.prems(3) by (cases "j < length ps"; cases "ps ! j") simp_all
    moreover have "turns J (Q i) (?ns i) (ps ! i)" if i: "i < length ps" for i
    proof (cases "i = j")
      case True
      with False i have fin: "finished (ps ! i)" by simp
      have "turns J (Q i) (ns i) (ps ! i)" using Cons.prems(2) i by simp
      then show ?thesis by (rule turns_finished [OF fin])
    qed (use Cons.prems(2) i in simp)
    ultimately show ?thesis using Cons.IH [OF Cons.prems(1), of ps ?ns] unfolding left by simp
  qed
qed simp

lemma turns_0_finished: "turns J Q 0 p \<Longrightarrow> finished p"
  by (cases p) auto

section \<open>The calls\<close>

text \<open>The handlers as \<open>startServer\<close> registers them; no operation changes them afterwards.\<close>

definition registered :: "world \<Rightarrow> bool" where
  "registered w \<longleftrightarrow> w_handlers w = w_handlers booted"

abbreviation within :: "nat \<Rightarrow> 'a io \<Rightarrow> bool" where
  "within \<equiv> turns registered (\<lambda>_. True)"

lemma registered_simps [simp]:
  "registered (tick w) = registered w" "registered (w\<lparr>w_db := db\<rparr>) = registered w"
  "registered (w\<lparr>w_redis := rs\<rparr>) = registered w" "registered (w\<lparr>w_jobs := js\<rparr>) = registered w"
  "registered (w\<lparr>w_closed := cs\<rparr>) = registered w"
  "registered (w\<lparr>w_queues := qs, w_created := c\<rparr>) = registered w"
  by (simp_all add: registered_def)

lemma turns_remote:
  assumes "\<And>n w. registered (snd (f n w)) = registered w" "\<And>n w x. fst (f n w) = Inr x \<Longrightarrow> Q x"
  shows "turns registered Q 1 (remote E f)"
  unfolding remote_def by (rule turns_act) (use assms in \<open>auto split: fault.split sum.split\<close>)

lemma turns_sql:
  assumes "\<And>n now db x db'. st n now db = Inr (x, db') \<Longrightarrow> Q x"
  shows "turns registered Q 1 (sql E st)"
  unfolding sql_def
  by (rule turns_remote) (use assms in \<open>auto simp: sql_effect_def split: sum.splits\<close>)

lemma within_sql: "within 1 (sql E st)"
  by (rule turns_sql) simp

lemma within_calls:
  "within 1 (new_date E)" "within 1 (uuidv4 E)" "within 1 (RedisClient_get E key)" "within 1 (RedisClient_set E key v ttl)"
  "within 1 (getOrCreateQueue qn)" "within 1 (queue_add E q name d opts)" "within 1 (close_handle E h)"
  "within 1 (act (\<lambda>w. (Inr (read w), w)))" "within 1 (unbound E)"
  unfolding new_date_def uuidv4_def RedisClient_get_def RedisClient_set_def getOrCreateQueue_def queue_add_def
    close_handle_def unbound_def
  by (rule turns_act turns_remote; simp add: Let_def split: option.split)+

lemma within_statements:
  "within 1 (PaymentRepository_create E pd)" "within 1 (PaymentRepository_findByOrderNumber E on)"
  "within 1 (PaymentRepository_findByUserId E uid l off)" "within 1 (PaymentRepository_updateStatus E on st extra)"
  "within 1 (SubscriptionRepository_create E sd)" "within 1 (SubscriptionRepository_findBySubscriptionId E sid)"
  "within 1 (SubscriptionRepository_findActiveByUserId E uid)"
  "within 1 (SubscriptionRepository_updateStatus E sid ss extra)"
  "within 1 (SubscriptionRepository_renewSubscription E sid newEnd)"
  "within 1 (EventStoreRepository_append E ev)" "within 1 (EventStoreRepository_getLatestVersion E a)"
  "within 1 (EventStoreRepository_findByAggregateId E a)" "within 1 (EventStoreRepository_findByType E ty l off)"
  "within 1 (EventStoreRepository_findRecent E l)" "within 1 (getDailySummary E from_day to_day)"
  "within 1 (getTotalStats E)" "within 1 (no_row E)"
  unfolding repository_defs PaymentRepository_findByUserId_def EventStoreRepository_findByType_def
    EventStoreRepository_findRecent_def getDailySummary_def getTotalStats_def no_row_def
  by (rule within_sql)+

lemmas within_one = within_sql within_calls within_statements

lemma within_last: "turns J Q 1 p \<Longrightarrow> 1 \<le> n \<Longrightarrow> turns J Q n p"
  by (rule turns_mono)

lemmas within_lasts = within_one [THEN within_last]

lemmas within_rules = within_calls [THEN turns_seq] within_statements [THEN turns_seq]

text \<open>Publishing: four calls, the handlers of the type, and what they do.\<close>

fun handling :: "event_type \<Rightarrow> nat" where
  "handling PAYMENT_COMPLETED = 1"
| "handling PAYMENT_REFUNDED = 1"
| "handling PAYMENT_FAILED = 2"
| "handling ty = 0"

lemma within_handlers:
  "within 1 (onPaymentCompleted E ev)" "within 1 (onPaymentRefunded E ev)" "within 2 (onPaymentFailed E ev)"
  by (auto simp: onPaymentCompleted_def onPaymentRefunded_def onPaymentFailed_def Let_def simp del: One_nat_def
      intro!: within_rules within_lasts split: event_payload.split)

lemma within_settled:
  assumes "hs = handlers_of ty booted"
  shows "within (handling ty) (all_settled (map (\<lambda>h. projector_exec E h ev) hs))"
proof -
  have "within n (seq (catch p (\<lambda>_. Done ())) (\<lambda>_. Done ()))" if "within n p" for n and p :: "unit io"
    using that by (auto intro!: turns_seq [where P = "\<lambda>_. True"] turns_catch)
  with within_handlers show ?thesis unfolding assms by (cases ty) (simp_all add: booted_handlers)
qed

lemma within_publish: "within (5 + handling ty) (publish E ty a aty payload)"
proof -
  have read: "turns registered (\<lambda>hs. hs = handlers_of ty booted) 1 (act (\<lambda>w. (Inr (handlers_of ty w), w)))"
    by (rule turns_act) (simp add: registered_def handlers_of_def)
  have rest: "turns registered (\<lambda>_. True) (handling ty) (seq (all_settled (map (\<lambda>h. projector_exec E h ev) hs)) (\<lambda>_. Done ev))"
    if "hs = handlers_of ty booted" for hs ev
    using within_settled [OF that, of E ev] by (auto intro: turns_seq)
  show ?thesis unfolding EventBus_publish_def Let_def
    by (auto intro!: within_rules turns_seq [OF read] rest)
qed

lemmas within_publishes = within_publish [of PAYMENT_CREATED, simplified] within_publish [of PAYMENT_COMPLETED, simplified]
  within_publish [of PAYMENT_FAILED, simplified] within_publish [of PAYMENT_REFUNDED, simplified]
  within_publish [of SUBSCRIPTION_CREATED, simplified] within_publish [of SUBSCRIPTION_RENEWED, simplified]
  within_publish [of SUBSCRIPTION_CANCELLED, simplified] within_publish [of SUBSCRIPTION_EXPIRED, simplified]

lemmas within_steps = within_rules within_lasts within_publishes [THEN turns_seq]

section \<open>The operations\<close>

lemma within_payments:
  "within 12 (createPayment E creq)" "within 10 (completePayment E req)" "within 10 (refundPayment E rreq)"
  "within 10 (failPayment E on reason)" "within 1 (getPayment E on)" "within 1 (getUserPayments E uid l off)"
  unfolding createPayment_def completePayment_def refundPayment_def failPayment_def getPayment_def getUserPayments_def Let_def
  by (auto simp del: One_nat_def intro!: within_steps split: option.split)

lemma within_subscriptions:
  "within 9 (createSubscription E sreq)" "within 9 (cancelSubscription E sid reason)"
  "within 1 (getSubscription E sid)" "within 1 (getActiveSubscription E uid)"
  unfolding createSubscription_def cancelSubscription_def getSubscription_def getActiveSubscription_def Let_def
  by (auto simp del: One_nat_def intro!: within_steps split: option.split)

lemma within_fields:
  "within 12 (createPayment_fields E f)" "within 10 (completePayment_fields E f)"
  "within 10 (refundPayment_fields E on f)" "within 9 (createSubscription_fields E f)"
  "within 9 (cancelSubscription_fields E sid f)"
  unfolding request_defs
  by (auto simp del: One_nat_def intro!: within_steps within_payments within_subscriptions split: option.split)

text \<open>The scan: one query, the queue, and two calls for each of the fifty rows it asks for at most.\<close>

lemma within_enqueue: "within (2 * length subs) (enqueue_renewals E q subs)"
  by (induction subs) (auto simp del: One_nat_def intro!: within_rules)

lemma within_scan: "within 102 (scanAndEnqueueExpired E)"
proof -
  have batch: "turns registered (\<lambda>batch. length batch \<le> 50) 1 (SubscriptionRepository_findExpiredForRenewal E (Some 50))"
    unfolding SubscriptionRepository_findExpiredForRenewal_def
    by (rule turns_sql) (auto simp: reading_page_def sql_page_def default_to_def)
  have "within 100 (enqueue_renewals E q subs)" if "length subs \<le> 50" for q subs
    using turns_mono [OF within_enqueue] that by simp
  then show ?thesis unfolding scanAndEnqueueExpired_def
    by (auto simp del: One_nat_def intro!: turns_seq [OF batch] within_rules)
qed

lemma within_renewal: "within (if job_name job = ''scan-expired'' then 102 else 33) (processRenewal E job)"
proof -
  have body: "within 29 (renew_body E d s)" for d s
    unfolding renew_body_def Let_def
    by (auto simp del: One_nat_def intro!: within_steps within_payments [THEN turns_seq])
  have letter: "within 3 (on_renewal_error E job e)" for e
    unfolding on_renewal_error_def by (auto simp del: One_nat_def intro!: within_steps)
  have "within 33 (processRenewal E job)" if "job_name job \<noteq> ''scan-expired''"
    using that unfolding processRenewal_def Let_def
    by (auto simp del: One_nat_def intro!: within_steps turns_catch [OF body] letter split: option.split)
  with within_scan show ?thesis by (simp add: processRenewal_def)
qed

lemma within_close: "within (2 * n) (close_from E handles i n)"
  by (induction n arbitrary: i) (auto simp del: One_nat_def intro!: within_rules split: option.split)

lemma within_closeAll: "within 12 (closeAll E)"
  unfolding closeAll_def using within_close [of 3] by (auto intro!: turns_seq [OF within_close])

text \<open>The controllers: the operation or the one read they are bound to; the answer takes no call.\<close>

lemma within_answer: "turns J Q n m \<Longrightarrow> (\<And>rs. Q rs) \<Longrightarrow> turns J Q n (or_next m)"
  unfolding or_next_def by (rule turns_catch [of J Q n]) simp_all

lemma within_body: "(\<And>f. turns J Q n (k f)) \<Longrightarrow> turns J Q n (seq (body_fields b) k)"
  by (cases b) (simp_all add: body_fields_def)

lemma within_reply: "turns J (\<lambda>_. True) n (reply st d)"
  by (simp add: reply_def)

fun serving_turns :: "endpoint \<Rightarrow> nat" where
  "serving_turns EP_createPayment = 12"
| "serving_turns EP_completePayment = 10"
| "serving_turns (EP_refundPayment on) = 10"
| "serving_turns EP_createSubscription = 9"
| "serving_turns (EP_cancelSubscription sid) = 9"
| "serving_turns ep = 1"

lemma within_serve: "within (serving_turns ep) (serve E ep q b)"
  unfolding writer_defs(2-) reader_defs
  by (cases ep; simp only: serve.simps serving_turns.simps writer_defs(2-) reader_defs)
    (auto simp del: One_nat_def intro!: within_answer within_body within_rules within_fields [THEN turns_seq]
      within_payments [THEN turns_seq] within_subscriptions [THEN turns_seq] within_reply)

section \<open>The activities\<close>

fun budget :: "activity \<Rightarrow> nat" where
  "budget (Request ep q b) = serving_turns ep"
| "budget (FailPayment on reason) = 10"
| "budget (RunRenewalJob job) = (if job_name job = ''scan-expired'' then 102 else 33)"
| "budget (RunDeadLetterJob d) = 0"
| "budget CloseAll = 12"
| "budget StartServer = 0"

lemma within_activity: "a \<noteq> StartServer \<Longrightarrow> within (budget a) (activity_prog E a)"
  by (cases a) (auto simp: finishing_def processDeadLetter_def simp del: One_nat_def
      intro!: turns_seq [OF within_serve] turns_seq [OF within_payments(4)] turns_seq [OF within_closeAll]
        turns_seq [OF within_renewal])

text \<open>What an activity has done when it is over: a request has an answer of its own and never throws.\<close>

definition settled :: "activity \<Rightarrow> (world, js_error, outcome) prog \<Rightarrow> bool" where
  "settled a p \<longleftrightarrow> (case a of
     Request ep q b \<Rightarrow> \<exists>rs. p = Done (Answered rs) \<and> response_ok rs
   | _ \<Rightarrow> p = Done Finished \<or> (\<exists>e. p = Fail e))"

definition may_end :: "activity \<Rightarrow> outcome \<Rightarrow> bool" where
  "may_end a x \<longleftrightarrow> (case a of
     Request ep q b \<Rightarrow> \<exists>rs. x = Answered rs \<and> response_ok rs
   | _ \<Rightarrow> x = Finished)"

definition may_throw :: "activity \<Rightarrow> js_error \<Rightarrow> bool" where
  "may_throw a e \<longleftrightarrow> (case a of Request ep q b \<Rightarrow> False | _ \<Rightarrow> True)"

lemma request_answers:
  "ends (\<lambda>x. \<exists>rs. x = Answered rs \<and> response_ok rs) (\<lambda>_. False) (activity_prog E (Request ep q b))"
  by (auto intro!: ends_seq [OF serve_ends])

lemma ends_finishing: "ends (\<lambda>x. x = Finished) (\<lambda>_. True) (finishing p)"
  unfolding finishing_def by (rule ends_seq [OF ends_any]) simp

lemma activity_ends: "ends (may_end a) (may_throw a) (activity_prog E a)"
proof (cases a)
  case (Request ep q b)
  with request_answers [of E ep q b] show ?thesis
    by (simp add: may_end_def [abs_def] may_throw_def [abs_def])
qed (simp_all add: may_end_def [abs_def] may_throw_def [abs_def] ends_finishing)

lemma finished_settled:
  assumes "ends (may_end a) (may_throw a) p" "finished p"
  shows "settled a p"
  using assms by (cases a; auto simp: finished_iff settled_def may_end_def may_throw_def)

text \<open>
  C5: How long an activity takes. In a process whose projector is registered, any number of requests, jobs
  and shut-downs run in any interleaving over any tables, and any remote call may fail. An activity that has
  had its number of turns is over, whatever the others did, where a turn is one call of the database, Redis,
  a queue, the clock or the id generator, or one look at the maps of the event bus or the queue manager: a
  request has been answered with a well-formed response after at most 12 turns for the creation of a payment, 10 for its completion or refund, 9 for the
  creation or cancellation of a subscription and 1 for every other endpoint; the failing of a payment is over
  after at most 10 turns, a renewal with its dead letter after 33, the scan after 102 however many
  subscriptions are due (it asks for fifty), the shut-down after 12. No operation polls, retries or waits for
  another, and none works through a table.
\<close>

theorem answered_in_time:
  assumes "StartServer \<notin> set as" "w_handlers w = w_handlers booted"
    and "run_schedule s (w, map (activity_prog E) as) = (w', ps)"
    and "i < length as" "budget (as ! i) \<le> count_list s i"
  shows "settled (as ! i) (ps ! i)"
proof (rule finished_settled)
  let ?ps = "map (activity_prog E) as"
  from assms(1,4) have "\<forall>i < length ?ps. turns registered (\<lambda>_. True) (budget (as ! i)) (?ps ! i)"
    using within_activity by (auto simp: in_set_conv_nth)
  from schedule_turns [OF _ this assms(3)] assms(2,4) have "within (budget (as ! i) - count_list s i) (ps ! i)"
    by (simp add: registered_def)
  with assms(5) show "finished (ps ! i)" by (auto intro: turns_0_finished)
  from ends_steps [OF run_schedule_pool, of "(w, ?ps)" "\<lambda>i. may_end (as ! i)" "\<lambda>i. may_throw (as ! i)" s] assms(3,4)
  show "ends (may_end (as ! i)) (may_throw (as ! i)) (ps ! i)" by (simp add: activity_ends)
qed

text \<open>The creation of a payment beside a shut-down, on a network on which every call fails.\<close>

lemma answered_in_time_witness:
  "\<exists>w' p1 p2 rs. run_schedule (concat (replicate 12 [0, 1])) (booted, map (activity_prog (calm\<lparr>fault := \<lambda>_. NotApplied ''gone''\<rparr>))
       [Request EP_createPayment (\<lambda>_. None) (CreatePaymentBody sample_request), CloseAll]) = (w', [p1, p2]) \<and>
     p1 = Done (Answered rs) \<and> response_ok rs"
proof -
  let ?E = "calm\<lparr>fault := \<lambda>_. NotApplied ''gone''\<rparr>"
  let ?as = "[Request EP_createPayment (\<lambda>_. None) (CreatePaymentBody sample_request), CloseAll]"
  let ?s = "concat (replicate 12 [0, 1])"
  obtain w' ps where run: "run_schedule ?s (booted, map (activity_prog ?E) ?as) = (w', ps)" by fastforce
  from ends_steps [OF run_schedule_pool, of "(booted, map (activity_prog ?E) ?as)" "\<lambda>_ _. True" "\<lambda>_ _. True" ?s] run
  have "length ps = 2" by (simp add: ends_any)
  then obtain p1 p2 where ps: "ps = [p1, p2]" by (auto simp: numeral_2_eq_2 length_Suc_conv)
  have "count_list ?s (0::nat) = 12" by code_simp
  then have "settled (?as ! 0) (ps ! 0)" by (intro answered_in_time [OF _ refl run]) simp_all
  with run ps show ?thesis by (auto simp: settled_def)
qed

end
