(* ===== verification/Runs.thy ===== *)
theory Runs
  imports Samples
begin

text \<open>
  How the operations run alone: a publish that is not refused stores one event and leaves
  everything but the read model as it was (\<open>run_publish_ok\<close>), and its handlers touch only the
  read model. \<open>can_publish\<close> is what the event store needs to accept the event.
\<close>

section \<open>Frames\<close>

text \<open>Everything but the counter and the read model.\<close>

definition core :: "world \<Rightarrow> world" where
  "core w = w\<lparr>w_tick := 0, w_db := (w_db w)\<lparr>payment_summary := []\<rparr>\<rparr>"

lemma core_eqD:
  assumes "core w' = core w"
  shows "payments (w_db w') = payments (w_db w)" "subscriptions (w_db w') = subscriptions (w_db w)"
    "event_store (w_db w') = event_store (w_db w)" "w_redis w' = w_redis w" "w_handlers w' = w_handlers w"
    "w_queues w' = w_queues w" "w_workers w' = w_workers w" "w_jobs w' = w_jobs w" "w_created w' = w_created w"
proof -
  have "\<And>f. f (core w') = f (core w)" using assms by simp
  then have "payments (w_db (core w')) = payments (w_db (core w))"
    "subscriptions (w_db (core w')) = subscriptions (w_db (core w))"
    "event_store (w_db (core w')) = event_store (w_db (core w))" "w_redis (core w') = w_redis (core w)"
    "w_handlers (core w') = w_handlers (core w)" "w_queues (core w') = w_queues (core w)"
    "w_workers (core w') = w_workers (core w)" "w_jobs (core w') = w_jobs (core w)"
    "w_created (core w') = w_created (core w)" using assms by simp_all
  then show "payments (w_db w') = payments (w_db w)" "subscriptions (w_db w') = subscriptions (w_db w)"
    "event_store (w_db w') = event_store (w_db w)" "w_redis w' = w_redis w" "w_handlers w' = w_handlers w"
    "w_queues w' = w_queues w" "w_workers w' = w_workers w" "w_jobs w' = w_jobs w" "w_created w' = w_created w"
    by (simp_all add: core_def)
qed

lemma core_tick [simp]: "core (tick w) = core w"
  by (simp add: core_def tick_def)

lemma core_w_db: "core (w\<lparr>w_db := db\<rparr>) = core w \<longleftrightarrow>
    payments db = payments (w_db w) \<and> subscriptions db = subscriptions (w_db w) \<and>
    event_store db = event_store (w_db w)"
  by (cases w; cases db; cases "w_db w") (auto simp: core_def)

text \<open>
  \<open>keeps h p\<close>: however \<open>p\<close> ends when run alone, and whatever calls fail, \<open>h\<close> of the world is
  as before.
\<close>

definition keeps :: "(world \<Rightarrow> 'b) \<Rightarrow> 'a io \<Rightarrow> bool" where
  "keeps h p \<longleftrightarrow> (\<forall>w. h (snd (run p w)) = h w)"

lemma keepsD: "keeps h p \<Longrightarrow> run p w = (r, w') \<Longrightarrow> h w' = h w"
  unfolding keeps_def by (metis snd_conv)

lemma keeps_weaken: "keeps h p \<Longrightarrow> (\<And>w w'. h w' = h w \<Longrightarrow> g w' = g w) \<Longrightarrow> keeps g p"
  unfolding keeps_def by blast

lemma keeps_basic: "keeps h (Done x)" "keeps h (Fail e)"
  by (simp_all add: keeps_def)

lemma keeps_seq:
  assumes "keeps h m" "\<And>x. keeps h (f x)"
  shows "keeps h (seq m f)"
  unfolding keeps_def
proof
  fix w
  obtain r w1 where m: "run m w = (r, w1)" by fastforce
  with assms(1) have "h w1 = h w" by (rule keepsD)
  with m assms(2) show "h (snd (run (seq m f) w)) = h w"
    by (cases r) (simp_all add: run_seq keeps_def)
qed

lemma keeps_catch:
  assumes "keeps h m" "\<And>e. keeps h (k e)"
  shows "keeps h (catch m k)"
  unfolding keeps_def
proof
  fix w
  obtain r w1 where m: "run m w = (r, w1)" by fastforce
  with assms(1) have "h w1 = h w" by (rule keepsD)
  with m assms(2) show "h (snd (run (catch m k) w)) = h w"
    by (cases r) (simp_all add: run_catch keeps_def)
qed

lemma keeps_act: "(\<And>w. h (snd (f w)) = h w) \<Longrightarrow> keeps h (act f)"
  by (simp add: keeps_def run_act)

lemma keeps_remote:
  assumes "\<And>n v. h (snd (f n v)) = h v" "\<And>w. h (tick w) = h w"
  shows "keeps h (remote E f)"
  unfolding remote_def by (rule keeps_act) (simp add: assms split: fault.split)

lemma keeps_sql:
  assumes "\<And>n now w x db'. st n now (w_db w) = Inr (x, db') \<Longrightarrow> h (w\<lparr>w_db := db'\<rparr>) = h w"
    "\<And>w. h (tick w) = h w"
  shows "keeps h (sql E st)"
  unfolding sql_def by (rule keeps_remote) (auto simp: sql_effect_def assms split: sum.split)

lemma keeps_new_date: "(\<And>w. h (tick w) = h w) \<Longrightarrow> keeps h (new_date E)"
  and keeps_uuidv4: "(\<And>w. h (tick w) = h w) \<Longrightarrow> keeps h (uuidv4 E)"
  unfolding new_date_def uuidv4_def by (rule keeps_act; simp)+

lemma keeps_unbound: "(\<And>w. h (tick w) = h w) \<Longrightarrow> keeps h (unbound E)"
  unfolding unbound_def by (rule keeps_remote) simp_all

lemma keeps_all_settled: "(\<And>p. p \<in> set ps \<Longrightarrow> keeps h p) \<Longrightarrow> keeps h (all_settled ps)"
  by (induction ps) (auto intro!: keeps_basic keeps_seq keeps_catch)

lemma upsert_keeps:
  "upsert_completed d a now db = Inr (u, db') \<Longrightarrow> payments db' = payments db
     \<and> subscriptions db' = subscriptions db \<and> event_store db' = event_store db"
  "upsert_refunded d a now db = Inr (u, db') \<Longrightarrow> payments db' = payments db
     \<and> subscriptions db' = subscriptions db \<and> event_store db' = event_store db"
  "upsert_failed s now db = Inr (u, db') \<Longrightarrow> payments db' = payments db
     \<and> subscriptions db' = subscriptions db \<and> event_store db' = event_store db"
  unfolding upsert_completed_def upsert_refunded_def upsert_failed_def
  by (auto dest: summary_upsert_frame split: option.splits)

lemma keeps_core_sql:
  assumes "\<And>n now db x db'. st n now db = Inr (x, db') \<Longrightarrow> payments db' = payments db
       \<and> subscriptions db' = subscriptions db \<and> event_store db' = event_store db"
  shows "keeps core (sql E st)"
  by (rule keeps_sql) (auto simp: core_w_db dest: assms)

lemma keeps_core_upserts:
  "keeps core (sql E (\<lambda>_. upsert_completed d a))" "keeps core (sql E (\<lambda>_. upsert_refunded d a))"
  "keeps core (sql E (\<lambda>_. upsert_failed s))"
  by (rule keeps_core_sql, erule upsert_keeps)+

lemma keeps_core_projector: "keeps core (projector_exec E h ev)"
  by (cases h) (auto simp: onPaymentCompleted_def onPaymentRefunded_def onPaymentFailed_def Let_def
      intro!: keeps_basic keeps_seq keeps_new_date keeps_unbound keeps_core_upserts split: event_payload.split)

lemma keeps_publish:
  assumes "\<And>hd ev. keeps h (exec hd ev)" "\<And>w. h (tick w) = h w" "\<And>w db. h (w\<lparr>w_db := db\<rparr>) = h w"
  shows "keeps h (EventBus_publish E exec ty a aty payload)"
  unfolding EventBus_publish_def Let_def EventStoreRepository_getLatestVersion_def
    EventStoreRepository_append_def
  by (intro keeps_seq keeps_sql keeps_uuidv4 keeps_new_date keeps_act keeps_all_settled keeps_basic)
    (auto simp: assms)

text \<open>A publish leaves Redis, the queues and the jobs alone.\<close>

lemma publish_keeps:
  "keeps w_redis (publish E ty a aty payload)" "keeps w_jobs (publish E ty a aty payload)"
  "keeps w_queues (publish E ty a aty payload)"
  by (rule keeps_publish; auto intro: keeps_weaken [OF keeps_core_projector] dest: core_eqD)+

section \<open>A publish that is accepted\<close>

definition can_publish :: "env \<Rightarrow> nat \<Rightarrow> string \<Rightarrow> database \<Rightarrow> bool" where
  "can_publish E n a db \<longleftrightarrow> length (uuid E (n + 1)) \<le> 36 \<and>
     uuid E (n + 1) \<notin> se_eventId ` set (event_store db) \<and> length a \<le> 128 \<and>
     - 1 \<le> latest_version a db \<and> latest_version a db < 2 ^ 31 - 1"

lemma next_version_free:
  "find_row (\<lambda>r. (se_aggregateId r, se_version r)) (a, latest_version a db + 1) (event_store db) = None"
proof -
  have "se_version r \<le> latest_version a db" if "r \<in> set (event_store db)" "se_aggregateId r = a" for r
  proof -
    from that have v: "se_version r \<in> set (versions_of a db)"
      by (auto simp: versions_of_def events_of_def)
    then have "versions_of a db \<noteq> []" by auto
    with v show ?thesis by (simp add: event_log.latest_versions)
  qed
  then show ?thesis by (force simp: find_row_None)
qed

text \<open>The row a publish that starts at tick \<open>n\<close> stores.\<close>

definition publish_row ::
    "env \<Rightarrow> nat \<Rightarrow> event_type \<Rightarrow> string \<Rightarrow> string \<Rightarrow> event_payload \<Rightarrow> database \<Rightarrow> stored_event" where
  "publish_row E n ty a aty payload db =
     \<lparr>se_id = Suc (length (event_store db)), se_eventId = uuid E (n + 1),
      se_eventType = event_type_str ty, se_aggregateId = a, se_aggregateType = aty,
      se_payload = json_of_payload payload, se_version = latest_version a db + 1,
      se_occurredAt = sql_datetime (clock E (n + 2)), se_createdAt = sql_now (db_clock E (n + 3))\<rparr>"

lemma event_store_frame [simp]:
  "latest_version a (db\<lparr>payments := ps\<rparr>) = latest_version a db"
  "latest_version a (db\<lparr>subscriptions := ss\<rparr>) = latest_version a db"
  "publish_row E n ty a aty payload (db\<lparr>payments := ps\<rparr>) = publish_row E n ty a aty payload db"
  "publish_row E n ty a aty payload (db\<lparr>subscriptions := ss\<rparr>) = publish_row E n ty a aty payload db"
  "can_publish E n a (db\<lparr>payments := ps\<rparr>) = can_publish E n a db"
  "can_publish E n a (db\<lparr>subscriptions := ss\<rparr>) = can_publish E n a db"
  by (simp_all add: latest_version_def events_of_def publish_row_def can_publish_def)

definition add_event :: "stored_event \<Rightarrow> database \<Rightarrow> database" where
  "add_event r db = db\<lparr>event_store := event_store db @ [r]\<rparr>"

lemma add_event_simps [simp]:
  "payments (add_event r db) = payments db" "subscriptions (add_event r db) = subscriptions db"
  "payment_summary (add_event r db) = payment_summary db"
  "event_store (add_event r db) = event_store db @ [r]"
  by (simp_all add: add_event_def)

text \<open>The world in which the handlers of a publish start.\<close>

definition after_append :: "env \<Rightarrow> event_type \<Rightarrow> string \<Rightarrow> string \<Rightarrow> event_payload \<Rightarrow> world \<Rightarrow> world" where
  "after_append E ty a aty payload w =
     w\<lparr>w_tick := w_tick w + 4,
       w_db := add_event (publish_row E (w_tick w) ty a aty payload (w_db w)) (w_db w)\<rparr>"

lemma run_publish_ok:
  assumes "reliable E" "can_publish E (w_tick w) a (w_db w)" "length aty \<le> 64"
  obtains w' where
    "run (publish E ty a aty payload) w = (Inr (published E ty a aty payload w), w')"
    "core w' = core (w\<lparr>w_db := add_event (publish_row E (w_tick w) ty a aty payload (w_db w)) (w_db w)\<rparr>)"
    "w' = snd (run (all_settled (map (\<lambda>h. projector_exec E h (published E ty a aty payload w)) (handlers_of ty w)))
       (after_append E ty a aty payload w))"
proof -
  let ?ev = "published E ty a aty payload w"
  let ?db = "add_event (publish_row E (w_tick w) ty a aty payload (w_db w)) (w_db w)"
  let ?w1 = "after_append E ty a aty payload w"
  let ?w' = "snd (run (all_settled (map (\<lambda>h. projector_exec E h ?ev) (handlers_of ty w))) ?w1)"
  have w1: "(tick (tick (tick (tick w))))\<lparr>w_db := ?db\<rparr> = ?w1"
    by (simp add: tick_def after_append_def)
  have "event_fits ?ev" using assms(2,3) by (simp add: event_fits_def can_publish_def int_ok_def published_def)
  moreover have "find_row se_eventId (e_id ?ev) (event_store (w_db w)) = None"
    using assms(2) by (simp add: find_row_None can_publish_def)
  ultimately have "event_insert ?ev (sql_now (db_clock E (w_tick w + 3))) (w_db w)
      = Inr (Suc (length (event_store (w_db w))), ?db)"
    by (simp add: event_insert_Inr next_version_free publish_row_def add_event_def stored_row_def published_def)
  then have run: "run (publish E ty a aty payload) w = (Inr ?ev, ?w')"
    by (simp add: run_publish [OF assms(1)] Let_def w1)
  have "keeps core (all_settled (map (\<lambda>h. projector_exec E h ?ev) (handlers_of ty w)))"
    by (rule keeps_all_settled) (auto intro: keeps_core_projector)
  then have "core ?w' = core ?w1" by (simp add: keeps_def)
  also have "\<dots> = core (w\<lparr>w_db := ?db\<rparr>)" by (simp add: core_def after_append_def)
  finally show thesis using run that by blast
qed

lemma run_all_settled_single:
  "snd (run (all_settled [p]) w) = snd (run p w)"
  by (auto simp: run_simps split: prod.splits sum.splits)

section \<open>Updates of all matching rows\<close>

lemma update_where_map:
  "(\<And>r. P r \<Longrightarrow> f r = Inr (g r)) \<Longrightarrow> update_where P f rs = Inr (map (\<lambda>r. if P r then g r else r) rs)"
  by (induction rs) auto

definition with_key :: "('r \<Rightarrow> 'k) \<Rightarrow> 'k \<Rightarrow> ('r \<Rightarrow> 'r) \<Rightarrow> 'r list \<Rightarrow> 'r list" where
  "with_key key k g rows = map (\<lambda>r. if key r = k then g r else r) rows"

lemma find_row_with_key:
  assumes "\<And>r. key (g r) = key r"
  shows "find_row key k' (with_key key k g rows) =
    (if k' = k then map_option g (find_row key k rows) else find_row key k' rows)"
  unfolding find_row_def with_key_def using assms by (induction rows) auto

end
