(* ===== verification/PaymentLaws.thy ===== *)
theory PaymentLaws
  imports Runs
begin

text \<open>
  What each operation of the payment handler does when it runs alone and no call fails: the
  exact new database on success, and the error, with nothing changed, on each refusal.
\<close>

section \<open>The update statements\<close>

definition completed_row :: "string \<Rightarrow> date \<Rightarrow> date \<Rightarrow> payment \<Rightarrow> payment" where
  "completed_row tid at now r = r\<lparr>p_status := COMPLETED, p_transactionId := Some tid,
     p_paidAt := Some (sql_datetime at), p_updatedAt := now\<rparr>"

definition refunded_row :: "money \<Rightarrow> string \<Rightarrow> date \<Rightarrow> date \<Rightarrow> payment \<Rightarrow> payment" where
  "refunded_row a reason at now r = r\<lparr>p_status := REFUNDED, p_refundAmount := Some a,
     p_refundReason := Some reason, p_refundedAt := Some (sql_datetime at), p_updatedAt := now\<rparr>"

definition failed_row :: "date \<Rightarrow> payment \<Rightarrow> payment" where
  "failed_row now r = r\<lparr>p_status := FAILED, p_updatedAt := now\<rparr>"

lemma row_keys [simp]:
  "p_orderNumber (completed_row tid at now r) = p_orderNumber r"
  "p_orderNumber (refunded_row a reason at now r) = p_orderNumber r"
  "p_orderNumber (failed_row now r) = p_orderNumber r"
  by (simp_all add: completed_row_def refunded_row_def failed_row_def)

lemmas payment_update_simps = payment_update_def payment_set_row_def set_payment_column_def
  column_defs column_name_values payment_columns_def Let_def

lemma payment_update_completed:
  assumes "length tid \<le> 128"
  shows "payment_update on COMPLETED [(''transactionId'', VStr tid), (''paidAt'', VDate t)] now db =
    Inr ((), db\<lparr>payments := with_key p_orderNumber on (completed_row tid t now) (payments db)\<rparr>)"
proof -
  have "update_where (\<lambda>r. p_orderNumber r = on) (payment_set_row COMPLETED
      [(''transaction_id'', VStr tid), (''paid_at'', VDate t)] now) (payments db)
    = Inr (with_key p_orderNumber on (completed_row tid t now) (payments db))"
    unfolding with_key_def
    by (rule update_where_map) (simp add: payment_update_simps completed_row_def assms)
  then show ?thesis by (simp add: payment_update_def column_name_values payment_columns_def)
qed

lemma payment_update_refunded:
  assumes "length s \<le> 65535" "decimal_ok 12 a"
  shows "payment_update on REFUNDED [(''refundAmount'', VNum a), (''refundReason'', VStr s),
      (''refundedAt'', VDate t)] now db =
    Inr ((), db\<lparr>payments := with_key p_orderNumber on (refunded_row a s t now) (payments db)\<rparr>)"
proof -
  have "update_where (\<lambda>r. p_orderNumber r = on) (payment_set_row REFUNDED
      [(''refund_amount'', VNum a), (''refund_reason'', VStr s), (''refunded_at'', VDate t)] now) (payments db)
    = Inr (with_key p_orderNumber on (refunded_row a s t now) (payments db))"
    unfolding with_key_def
    by (rule update_where_map) (simp add: payment_update_simps refunded_row_def assms)
  then show ?thesis by (simp add: payment_update_def column_name_values payment_columns_def)
qed

lemma payment_update_failed:
  "payment_update on FAILED [] now db =
    Inr ((), db\<lparr>payments := with_key p_orderNumber on (failed_row now) (payments db)\<rparr>)"
proof -
  have "update_where (\<lambda>r. p_orderNumber r = on) (payment_set_row FAILED [] now) (payments db)
    = Inr (with_key p_orderNumber on (failed_row now) (payments db))"
    unfolding with_key_def
    by (rule update_where_map) (simp add: payment_set_row_def failed_row_def)
  then show ?thesis by (simp add: payment_update_def)
qed

section \<open>Completing\<close>

lemma run_find_payment [run_simps]:
  "reliable E \<Longrightarrow> run (PaymentRepository_findByOrderNumber E on) w = (Inr (payment_select on (w_db w)), tick w)"
  by (simp add: PaymentRepository_findByOrderNumber_def run_simps)

lemma run_update_payment:
  assumes "reliable E" "payment_update on st extra (sql_now (db_clock E (w_tick w))) (w_db w) = Inr ((), db)"
  shows "run (PaymentRepository_updateStatus E on st extra) w = (Inr (), (tick w)\<lparr>w_db := db\<rparr>)"
  using assms by (simp add: PaymentRepository_updateStatus_def run_simps)

text \<open>The world in which the publish of an operation that updated one payment starts.\<close>

definition after_update :: "string \<Rightarrow> (payment \<Rightarrow> payment) \<Rightarrow> nat \<Rightarrow> world \<Rightarrow> world" where
  "after_update on g n w = w\<lparr>w_tick := w_tick w + n,
     w_db := (w_db w)\<lparr>payments := with_key p_orderNumber on g (payments (w_db w))\<rparr>\<rparr>"

lemma after_update_simps [simp]:
  "w_tick (after_update on g n w) = w_tick w + n" "w_redis (after_update on g n w) = w_redis w"
  "w_handlers (after_update on g n w) = w_handlers w" "w_jobs (after_update on g n w) = w_jobs w"
  "w_db (after_update on g n w) = (w_db w)\<lparr>payments := with_key p_orderNumber on g (payments (w_db w))\<rparr>"
  by (simp_all add: after_update_def)

text \<open>What is left of a completion once the guard has seen a pending payment.\<close>

definition complete_with :: "env \<Rightarrow> string \<Rightarrow> string \<Rightarrow> (date \<Rightarrow> event_payload) \<Rightarrow> unit io" where
  "complete_with E on tid payload =
     seq (new_date E) (\<lambda>now.
     seq (PaymentRepository_updateStatus E on COMPLETED
           [(''transactionId'', VStr tid), (''paidAt'', VDate now)]) (\<lambda>_.
     seq (new_date E) (\<lambda>paidAt.
     seq (publish E PAYMENT_COMPLETED on ''Payment'' (payload paidAt)) (\<lambda>_. Done ()))))"

definition complete_rest :: "env \<Rightarrow> complete_payment_request \<Rightarrow> unit io" where
  "complete_rest E req = complete_with E (co_orderNumber req) (co_transactionId req)
     (PaymentCompletedPayload (co_orderNumber req) (co_transactionId req) (co_paidAmount req))"

lemma completePayment_rest:
  "completePayment E req =
     seq (PaymentRepository_findByOrderNumber E (co_orderNumber req)) (\<lambda>payment.
     case payment of
       None \<Rightarrow> Fail (NotFoundError ''Payment'' (co_orderNumber req))
     | Some p \<Rightarrow>
         if p_status p \<noteq> PENDING then Fail (DuplicatePaymentError (co_orderNumber req))
         else complete_rest E req)"
  unfolding completePayment_def complete_rest_def complete_with_def by (rule refl)

lemma run_completePayment_rest:
  assumes "reliable E" "payment_select (co_orderNumber req) (w_db w) = Some p" "p_status p = PENDING"
  shows "run (completePayment E req) w = run (complete_rest E req) (tick w)"
  using assms by (simp add: completePayment_rest run_find_payment run_seq)

definition completing :: "env \<Rightarrow> string \<Rightarrow> string \<Rightarrow> world \<Rightarrow> world" where
  "completing E on tid w = after_update on
     (completed_row tid (clock E (w_tick w)) (sql_now (db_clock E (w_tick w + 1)))) 3 w"

definition completed_in :: "env \<Rightarrow> complete_payment_request \<Rightarrow> world \<Rightarrow> world" where
  "completed_in E req = completing E (co_orderNumber req) (co_transactionId req)"

definition completion_payload :: "env \<Rightarrow> complete_payment_request \<Rightarrow> world \<Rightarrow> event_payload" where
  "completion_payload E req w = PaymentCompletedPayload (co_orderNumber req) (co_transactionId req)
     (co_paidAmount req) (clock E (w_tick w + 2))"

lemma complete_with_until_publish:
  assumes "reliable E" "length tid \<le> 128"
  shows "run (complete_with E on tid payload) w =
    run (seq (publish E PAYMENT_COMPLETED on ''Payment'' (payload (clock E (w_tick w + 2)))) (\<lambda>_. Done ()))
      (completing E on tid w)"
proof -
  let ?upd = "with_key p_orderNumber on (completed_row tid
     (clock E (w_tick w)) (sql_now (db_clock E (Suc (w_tick w))))) (payments (w_db w))"
  have upd: "run (PaymentRepository_updateStatus E on COMPLETED
      [(''transactionId'', VStr tid), (''paidAt'', VDate (clock E (w_tick w)))]) (tick w)
    = (Inr (), (tick (tick w))\<lparr>w_db := (w_db w)\<lparr>payments := ?upd\<rparr>\<rparr>)"
    by (rule run_update_payment [OF assms(1)]) (simp add: payment_update_completed [OF assms(2)])
  have w: "tick ((tick (tick w))\<lparr>w_db := (w_db w)\<lparr>payments := ?upd\<rparr>\<rparr>) = completing E on tid w"
    by (simp add: tick_def completing_def after_update_def eval_nat_numeral)
  show ?thesis
    by (simp add: complete_with_def run_seq [of "new_date E"] run_new_date
        run_seq [of "PaymentRepository_updateStatus E on st extra" for on st extra] upd w eval_nat_numeral)
qed

lemma complete_rest_until_publish:
  assumes "reliable E" "length (co_transactionId req) \<le> 128"
  shows "run (complete_rest E req) w =
    run (seq (publish E PAYMENT_COMPLETED (co_orderNumber req) ''Payment'' (completion_payload E req w))
      (\<lambda>_. Done ())) (completed_in E req w)"
  unfolding complete_rest_def completed_in_def completion_payload_def by (rule complete_with_until_publish [OF assms])

text \<open>What is left of such an operation: the publish, which is accepted and changes only the log.\<close>

lemma run_publish_done:
  assumes "reliable E" "can_publish E (w_tick w) a (w_db w)" "length aty \<le> 64"
  shows "\<exists>w'. run (seq (publish E ty a aty payload) (\<lambda>_. Done x)) w = (Inr x, w') \<and>
    core w' = core (w\<lparr>w_db := add_event (publish_row E (w_tick w) ty a aty payload (w_db w)) (w_db w)\<rparr>) \<and>
    w' = snd (run (all_settled (map (\<lambda>h. projector_exec E h (published E ty a aty payload w)) (handlers_of ty w)))
       (after_append E ty a aty payload w))"
proof -
  obtain w' where w': "run (publish E ty a aty payload) w = (Inr (published E ty a aty payload w), w')"
    "core w' = core (w\<lparr>w_db := add_event (publish_row E (w_tick w) ty a aty payload (w_db w)) (w_db w)\<rparr>)"
    "w' = snd (run (all_settled (map (\<lambda>h. projector_exec E h (published E ty a aty payload w)) (handlers_of ty w)))
       (after_append E ty a aty payload w))"
    using assms by (rule run_publish_ok)
  from w'(1) have "run (seq (publish E ty a aty payload) (\<lambda>_. Done x)) w = (Inr x, w')"
    by (simp only: run_seq run_basic case_prod_conv sum.case)
  then show ?thesis using w'(2,3) by (intro exI conjI)
qed

lemma core_after_update:
  "core ((after_update on g n w)\<lparr>w_db := add_event r (w_db (after_update on g n w))\<rparr>) =
   core (w\<lparr>w_db := add_event r ((w_db w)\<lparr>payments := with_key p_orderNumber on g (payments (w_db w))\<rparr>)\<rparr>)"
  by (simp add: core_def after_update_def add_event_def)

lemma complete_rest_run:
  assumes "reliable E" "length (co_transactionId req) \<le> 128"
    and "can_publish E (w_tick w + 3) (co_orderNumber req) (w_db w)"
  shows "\<exists>w'. run (complete_rest E req) w = (Inr (), w') \<and>
    core w' = core (w\<lparr>w_db := add_event
      (publish_row E (w_tick w + 3) PAYMENT_COMPLETED (co_orderNumber req) ''Payment''
        (completion_payload E req w) (w_db w))
      ((w_db w)\<lparr>payments := with_key p_orderNumber (co_orderNumber req)
        (completed_row (co_transactionId req) (clock E (w_tick w)) (sql_now (db_clock E (w_tick w + 1))))
        (payments (w_db w))\<rparr>)\<rparr>) \<and>
    w' = snd (run (all_settled (map (\<lambda>h. projector_exec E h (published E PAYMENT_COMPLETED (co_orderNumber req)
         ''Payment'' (completion_payload E req w) (completed_in E req w)))
       (handlers_of PAYMENT_COMPLETED (completed_in E req w))))
       (after_append E PAYMENT_COMPLETED (co_orderNumber req) ''Payment'' (completion_payload E req w) (completed_in E req w)))"
proof -
  have pub: "can_publish E (w_tick (completed_in E req w)) (co_orderNumber req) (w_db (completed_in E req w))"
    using assms(3) by (simp add: completed_in_def completing_def)
  have core: "core ((completed_in E req w)\<lparr>w_db := add_event (publish_row E (w_tick (completed_in E req w))
      PAYMENT_COMPLETED (co_orderNumber req) ''Payment'' payload (w_db (completed_in E req w))) (w_db (completed_in E req w))\<rparr>) =
    core (w\<lparr>w_db := add_event (publish_row E (w_tick w + 3) PAYMENT_COMPLETED (co_orderNumber req) ''Payment'' payload (w_db w))
      ((w_db w)\<lparr>payments := with_key p_orderNumber (co_orderNumber req)
        (completed_row (co_transactionId req) (clock E (w_tick w)) (sql_now (db_clock E (w_tick w + 1))))
        (payments (w_db w))\<rparr>)\<rparr>)" for payload
    by (simp add: completed_in_def completing_def core_def after_update_def add_event_def)
  have "length ''Payment'' \<le> 64" by simp
  from run_publish_done [OF assms(1) pub this, of PAYMENT_COMPLETED "completion_payload E req w" "()"]
  show ?thesis unfolding complete_rest_until_publish [OF assms(1,2)] core .
qed

text \<open>With the projector as the only handler, its statement is the last action.\<close>

lemma complete_rest_handler:
  assumes "reliable E" "handlers_of PAYMENT_COMPLETED w = [OnPaymentCompleted]"
    and "run (complete_rest E req) w = (Inr (), w')" "length (co_transactionId req) \<le> 128"
    and "can_publish E (w_tick w + 3) (co_orderNumber req) (w_db w)"
  shows "w' = snd (run (sql E (\<lambda>_. upsert_completed (sql_date (tz E) (clock E (w_tick w + 2))) (co_paidAmount req)))
      (after_append E PAYMENT_COMPLETED (co_orderNumber req) ''Payment'' (completion_payload E req w) (completed_in E req w)))"
proof -
  have "handlers_of PAYMENT_COMPLETED (completed_in E req w) = [OnPaymentCompleted]"
    using assms(2) by (simp add: completed_in_def completing_def handlers_of_def)
  with complete_rest_run [OF assms(1,4,5)] assms(3) show ?thesis
    by (auto simp: run_all_settled_single onPaymentCompleted_def completion_payload_def simp del: all_settled.simps)
qed

lemma complete_rest_ticks:
  assumes "reliable E" "handlers_of PAYMENT_COMPLETED w = [OnPaymentCompleted]"
    and "run (complete_rest E req) w = (Inr (), w')" "length (co_transactionId req) \<le> 128"
    and "can_publish E (w_tick w + 3) (co_orderNumber req) (w_db w)"
  shows "w_tick w' = w_tick w + 8"
  unfolding complete_rest_handler [OF assms]
  by (simp add: run_sql_reliable [OF assms(1)] sql_effect_def after_append_def completed_in_def completing_def split: sum.split)

lemma completePayment_run:
  assumes "reliable E" "payment_select (co_orderNumber req) (w_db w) = Some p" "p_status p = PENDING"
    and "length (co_transactionId req) \<le> 128" "can_publish E (w_tick w + 4) (co_orderNumber req) (w_db w)"
  shows "\<exists>w'. run (completePayment E req) w = (Inr (), w') \<and>
    core w' = core (w\<lparr>w_db := add_event
      (publish_row E (w_tick w + 4) PAYMENT_COMPLETED (co_orderNumber req) ''Payment''
        (PaymentCompletedPayload (co_orderNumber req) (co_transactionId req) (co_paidAmount req)
          (clock E (w_tick w + 3))) (w_db w))
      ((w_db w)\<lparr>payments := with_key p_orderNumber (co_orderNumber req)
        (completed_row (co_transactionId req) (clock E (w_tick w + 1)) (sql_now (db_clock E (w_tick w + 2))))
        (payments (w_db w))\<rparr>)\<rparr>) \<and>
    (handlers_of PAYMENT_COMPLETED w = [OnPaymentCompleted] \<longrightarrow> w_tick w' = w_tick w + 9)"
proof -
  have pub: "can_publish E (w_tick (tick w) + 3) (co_orderNumber req) (w_db (tick w))"
    using assms(5) by (simp add: eval_nat_numeral)
  have core_tick_db: "core ((tick w)\<lparr>w_db := db\<rparr>) = core (w\<lparr>w_db := db\<rparr>)" for db
    by (simp add: core_def tick_def)
  have ticks: "w_tick w' = w_tick w + 9" if "run (complete_rest E req) (tick w) = (Inr (), w')"
      "handlers_of PAYMENT_COMPLETED w = [OnPaymentCompleted]" for w'
    using complete_rest_ticks [OF assms(1) _ that(1) assms(4) pub] that(2) by (simp add: handlers_of_def)
  from complete_rest_run [OF assms(1,4) pub] show ?thesis
    unfolding run_completePayment_rest [OF assms(1-3)] core_tick_db
    using ticks by (auto simp: completion_payload_def eval_nat_numeral)
qed

text \<open>
  C11: completePayment of a PENDING payment sets exactly its status, transaction id, paid-at and
  updated-at, leaves every other row alone, and appends one PAYMENT_COMPLETED event with the
  transaction id and the paid amount as the next version of that order.
\<close>

theorem completePayment_pending:
  assumes "reliable E" "payment_select (co_orderNumber req) (w_db w) = Some p" "p_status p = PENDING"
    and "length (co_transactionId req) \<le> 128" "can_publish E (w_tick w + 4) (co_orderNumber req) (w_db w)"
  shows "\<exists>w'. run (completePayment E req) w = (Inr (), w') \<and>
    core w' = core (w\<lparr>w_db := add_event
      (publish_row E (w_tick w + 4) PAYMENT_COMPLETED (co_orderNumber req) ''Payment''
        (PaymentCompletedPayload (co_orderNumber req) (co_transactionId req) (co_paidAmount req)
          (clock E (w_tick w + 3))) (w_db w))
      ((w_db w)\<lparr>payments := with_key p_orderNumber (co_orderNumber req)
        (completed_row (co_transactionId req) (clock E (w_tick w + 1)) (sql_now (db_clock E (w_tick w + 2))))
        (payments (w_db w))\<rparr>)\<rparr>)"
  using completePayment_run [OF assms] by blast

lemma completePayment_pending_witness:
  "\<exists>w'. run (completePayment calm sample_completion) (with_payment PENDING) = (Inr (), w') \<and>
    map p_status (payments (w_db w')) = [COMPLETED]"
proof -
  let ?w = "with_payment PENDING"
  have "can_publish calm (w_tick ?w + 4) (co_orderNumber sample_completion) (w_db ?w)"
    by (simp add: can_publish_def sample_completion_def)
  from completePayment_pending [OF calm_reliable _ _ _ this, of "sample_payment PENDING"]
  obtain w' where "run (completePayment calm sample_completion) ?w = (Inr (), w')"
    "payments (w_db w') = with_key p_orderNumber ''O1'' (completed_row ''T1'' 0 0) (payments (w_db ?w))"
    by (auto simp: sample_completion_def dest: core_eqD(1))
  then show ?thesis
    by (intro exI [of _ w']) (simp add: with_key_def completed_row_def sample_payment_def)
qed

text \<open>
  Of an order that does not exist, completePayment throws NotFoundError, and of one that is
  not PENDING, DuplicatePaymentError; in both cases nothing is changed.
\<close>

lemma completePayment_refused:
  assumes "reliable E" "\<forall>p. payment_select (co_orderNumber req) (w_db w) = Some p \<longrightarrow> p_status p \<noteq> PENDING"
  shows "run (completePayment E req) w =
    (Inl (case payment_select (co_orderNumber req) (w_db w) of
            None \<Rightarrow> NotFoundError ''Payment'' (co_orderNumber req)
          | Some p \<Rightarrow> DuplicatePaymentError (co_orderNumber req)), tick w)"
  using assms by (auto simp: completePayment_def run_simps split: option.split)

lemma completePayment_refused_witness:
  "run (completePayment calm sample_completion) (with_payment REFUNDED) =
    (Inl (DuplicatePaymentError ''O1''), tick (with_payment REFUNDED))"
  using completePayment_refused [OF calm_reliable, of sample_completion "with_payment REFUNDED"]
  by (simp add: sample_completion_def)

section \<open>Refunding\<close>

lemma refundPayment_until_publish:
  assumes "reliable E" "payment_select (rf_orderNumber req) (w_db w) = Some p" "p_status p = COMPLETED"
    "length (rf_reason req) \<le> 65535" "decimal_ok 12 (rf_refundAmount req)"
  shows "run (refundPayment E req) w =
    run (seq (publish E PAYMENT_REFUNDED (rf_orderNumber req) ''Payment''
        (PaymentRefundedPayload (rf_orderNumber req) (rf_refundAmount req) (rf_reason req)
          (clock E (w_tick w + 3)))) (\<lambda>_. Done ()))
      (after_update (rf_orderNumber req) (refunded_row (rf_refundAmount req) (rf_reason req)
         (clock E (w_tick w + 1)) (sql_now (db_clock E (w_tick w + 2)))) 4 w)"
proof -
  let ?upd = "with_key p_orderNumber (rf_orderNumber req) (refunded_row (rf_refundAmount req) (rf_reason req)
     (clock E (Suc (w_tick w))) (sql_now (db_clock E (Suc (Suc (w_tick w)))))) (payments (w_db w))"
  have upd: "run (PaymentRepository_updateStatus E (rf_orderNumber req) REFUNDED
      [(''refundAmount'', VNum (rf_refundAmount req)), (''refundReason'', VStr (rf_reason req)),
       (''refundedAt'', VDate (clock E (Suc (w_tick w))))]) (tick (tick w))
    = (Inr (), (tick (tick (tick w)))\<lparr>w_db := (w_db w)\<lparr>payments := ?upd\<rparr>\<rparr>)"
    by (rule run_update_payment [OF assms(1)]) (simp add: payment_update_refunded [OF assms(4,5)])
  have w: "tick ((tick (tick (tick w)))\<lparr>w_db := (w_db w)\<lparr>payments := ?upd\<rparr>\<rparr>) =
      after_update (rf_orderNumber req) (refunded_row (rf_refundAmount req) (rf_reason req)
         (clock E (w_tick w + 1)) (sql_now (db_clock E (w_tick w + 2)))) 4 w"
    by (simp add: tick_def after_update_def eval_nat_numeral)
  from assms(1-3) show ?thesis
    by (simp add: refundPayment_def run_find_payment run_new_date run_seq run_basic upd w eval_nat_numeral)
qed

text \<open>
  refundPayment of a COMPLETED payment sets exactly its status and refund columns and
  appends one PAYMENT_REFUNDED event with the amount and the reason.
\<close>

lemma refundPayment_completed:
  assumes "reliable E" "payment_select (rf_orderNumber req) (w_db w) = Some p" "p_status p = COMPLETED"
    and "length (rf_reason req) \<le> 65535" "decimal_ok 12 (rf_refundAmount req)"
    and "can_publish E (w_tick w + 4) (rf_orderNumber req) (w_db w)"
  shows "\<exists>w'. run (refundPayment E req) w = (Inr (), w') \<and>
    core w' = core (w\<lparr>w_db := add_event
      (publish_row E (w_tick w + 4) PAYMENT_REFUNDED (rf_orderNumber req) ''Payment''
        (PaymentRefundedPayload (rf_orderNumber req) (rf_refundAmount req) (rf_reason req)
          (clock E (w_tick w + 3))) (w_db w))
      ((w_db w)\<lparr>payments := with_key p_orderNumber (rf_orderNumber req)
        (refunded_row (rf_refundAmount req) (rf_reason req) (clock E (w_tick w + 1))
          (sql_now (db_clock E (w_tick w + 2)))) (payments (w_db w))\<rparr>)\<rparr>)"
proof -
  let ?w1 = "after_update (rf_orderNumber req) (refunded_row (rf_refundAmount req) (rf_reason req)
         (clock E (w_tick w + 1)) (sql_now (db_clock E (w_tick w + 2)))) 4 w"
  have "can_publish E (w_tick ?w1) (rf_orderNumber req) (w_db ?w1)" using assms(6) by simp
  from run_publish_done [OF assms(1) this, of "''Payment''"] show ?thesis
    unfolding refundPayment_until_publish [OF assms(1-5)] core_after_update by fastforce
qed

lemma refundPayment_completed_witness:
  "\<exists>w'. run (refundPayment calm sample_refund) (with_payment COMPLETED) = (Inr (), w') \<and>
    map p_status (payments (w_db w')) = [REFUNDED]"
proof -
  let ?w = "with_payment COMPLETED"
  have "can_publish calm (w_tick ?w + 4) (rf_orderNumber sample_refund) (w_db ?w)"
    by (simp add: can_publish_def sample_refund_def)
  from refundPayment_completed [OF calm_reliable _ _ _ _ this, of "sample_payment COMPLETED"]
  obtain w' where "run (refundPayment calm sample_refund) ?w = (Inr (), w')"
    "payments (w_db w') = with_key p_orderNumber ''O1'' (refunded_row 500 ''changed my mind'' 0 0) (payments (w_db ?w))"
    by (auto simp: sample_refund_def decimal_ok_def dest: core_eqD(1))
  then show ?thesis
    by (intro exI [of _ w']) (simp add: with_key_def refunded_row_def sample_payment_def)
qed

text \<open>
  Of an order that does not exist, refundPayment throws NotFoundError, and of one that is
  not COMPLETED a plain error naming its status; in both cases nothing is changed.
\<close>

lemma refundPayment_refused:
  assumes "reliable E" "\<forall>p. payment_select (rf_orderNumber req) (w_db w) = Some p \<longrightarrow> p_status p \<noteq> COMPLETED"
  shows "run (refundPayment E req) w =
    (Inl (case payment_select (rf_orderNumber req) (w_db w) of
            None \<Rightarrow> NotFoundError ''Payment'' (rf_orderNumber req)
          | Some p \<Rightarrow> PlainError (''Cannot refund payment in '' @ payment_status_str (p_status p) @ '' status'')), tick w)"
  using assms by (auto simp: refundPayment_def run_simps split: option.split)

lemma refundPayment_refused_witness:
  "run (refundPayment calm sample_refund) (with_payment PENDING) =
    (Inl (PlainError ''Cannot refund payment in PENDING status''), tick (with_payment PENDING))"
  using refundPayment_refused [OF calm_reliable, of sample_refund "with_payment PENDING"]
  by (simp add: sample_refund_def)

text \<open>
  C22: Every refusal of the payment handler changes nothing: completePayment of an order that is not
  PENDING throws DuplicatePaymentError, refundPayment of one that is not COMPLETED a plain error
  naming its status, and each of completePayment, refundPayment, failPayment and getPayment throws
  NotFoundError for an order that does not exist.
\<close>

theorem payment_refusals:
  assumes "reliable E"
  shows "((\<forall>p. payment_select (co_orderNumber creq) (w_db w) = Some p \<longrightarrow> p_status p \<noteq> PENDING) \<longrightarrow>
      run (completePayment E creq) w =
        (Inl (case payment_select (co_orderNumber creq) (w_db w) of
            None \<Rightarrow> NotFoundError ''Payment'' (co_orderNumber creq)
          | Some p \<Rightarrow> DuplicatePaymentError (co_orderNumber creq)), tick w)) \<and>
    ((\<forall>p. payment_select (rf_orderNumber rreq) (w_db w) = Some p \<longrightarrow> p_status p \<noteq> COMPLETED) \<longrightarrow>
      run (refundPayment E rreq) w =
        (Inl (case payment_select (rf_orderNumber rreq) (w_db w) of
            None \<Rightarrow> NotFoundError ''Payment'' (rf_orderNumber rreq)
          | Some p \<Rightarrow> PlainError (''Cannot refund payment in '' @ payment_status_str (p_status p) @ '' status'')), tick w)) \<and>
    (payment_select on (w_db w) = None \<longrightarrow>
      run (failPayment E on reason) w = (Inl (NotFoundError ''Payment'' on), tick w) \<and>
      run (getPayment E on) w = (Inl (NotFoundError ''Payment'' on), tick w))"
  using assms
  by (auto simp: completePayment_def refundPayment_def failPayment_def getPayment_def run_simps split: option.split)

lemma payment_refusals_witness:
  "run (completePayment calm sample_completion) (with_payment REFUNDED) =
      (Inl (DuplicatePaymentError ''O1''), tick (with_payment REFUNDED)) \<and>
    run (refundPayment calm sample_refund) (with_payment PENDING) =
      (Inl (PlainError ''Cannot refund payment in PENDING status''), tick (with_payment PENDING)) \<and>
    run (getPayment calm ''O9'') booted = (Inl (NotFoundError ''Payment'' ''O9''), tick booted)"
proof -
  have "payment_select ''O9'' (w_db booted) = None" by (simp add: payment_select_def)
  then show ?thesis
    using payment_refusals [OF calm_reliable, of sample_completion "with_payment REFUNDED" sample_refund "''O9''" "''lost''"]
      payment_refusals [OF calm_reliable, of sample_completion "with_payment PENDING" sample_refund "''O9''" "''lost''"]
      payment_refusals [OF calm_reliable, of sample_completion booted sample_refund "''O9''" "''lost''"]
    by (simp add: sample_completion_def sample_refund_def)
qed

section \<open>Failing\<close>

lemma failPayment_until_publish:
  assumes "reliable E" "payment_select on (w_db w) = Some p"
  shows "run (failPayment E on reason) w =
    run (seq (publish E PAYMENT_FAILED on ''Payment''
        (PaymentFailedPayload on reason (clock E (w_tick w + 2)))) (\<lambda>_. Done ()))
      (after_update on (failed_row (sql_now (db_clock E (w_tick w + 1)))) 3 w)"
proof -
  let ?upd = "with_key p_orderNumber on (failed_row (sql_now (db_clock E (Suc (w_tick w))))) (payments (w_db w))"
  have upd: "run (PaymentRepository_updateStatus E on FAILED []) (tick w)
    = (Inr (), (tick (tick w))\<lparr>w_db := (w_db w)\<lparr>payments := ?upd\<rparr>\<rparr>)"
    by (rule run_update_payment [OF assms(1)]) (simp add: payment_update_failed)
  have w: "tick ((tick (tick w))\<lparr>w_db := (w_db w)\<lparr>payments := ?upd\<rparr>\<rparr>) =
      after_update on (failed_row (sql_now (db_clock E (w_tick w + 1)))) 3 w"
    by (simp add: tick_def after_update_def eval_nat_numeral)
  from assms show ?thesis
    by (simp add: failPayment_def run_simps upd w eval_nat_numeral)
qed

text \<open>
  failPayment has no guard on the status: of a payment in any status, COMPLETED and REFUNDED
  included, it sets FAILED and appends a PAYMENT_FAILED event.
\<close>

lemma failPayment_any_status:
  assumes "reliable E" "payment_select on (w_db w) = Some p" "can_publish E (w_tick w + 3) on (w_db w)"
  shows "\<exists>w'. run (failPayment E on reason) w = (Inr (), w') \<and>
    core w' = core (w\<lparr>w_db := add_event
      (publish_row E (w_tick w + 3) PAYMENT_FAILED on ''Payment''
        (PaymentFailedPayload on reason (clock E (w_tick w + 2))) (w_db w))
      ((w_db w)\<lparr>payments := with_key p_orderNumber on
        (failed_row (sql_now (db_clock E (w_tick w + 1)))) (payments (w_db w))\<rparr>)\<rparr>)"
proof -
  let ?w1 = "after_update on (failed_row (sql_now (db_clock E (w_tick w + 1)))) 3 w"
  have "can_publish E (w_tick ?w1) on (w_db ?w1)" using assms(3) by simp
  from run_publish_done [OF assms(1) this, of "''Payment''"] show ?thesis
    unfolding failPayment_until_publish [OF assms(1,2)] core_after_update by fastforce
qed

lemma failPayment_any_status_witness:
  "\<exists>w'. run (failPayment calm ''O1'' ''declined'') (with_payment REFUNDED) = (Inr (), w') \<and>
    map p_status (payments (w_db w')) = [FAILED]"
proof -
  let ?w = "with_payment REFUNDED"
  have "can_publish calm (w_tick ?w + 3) ''O1'' (w_db ?w)" by (simp add: can_publish_def)
  from failPayment_any_status [OF calm_reliable _ this, of "sample_payment REFUNDED" "''declined''"]
  obtain w' where "run (failPayment calm ''O1'' ''declined'') ?w = (Inr (), w')"
    "payments (w_db w') = with_key p_orderNumber ''O1'' (failed_row 0) (payments (w_db ?w))"
    by (auto dest: core_eqD(1))
  then show ?thesis
    by (intro exI [of _ w']) (simp add: with_key_def failed_row_def sample_payment_def)
qed

section \<open>Creating\<close>

text \<open>The order number and the key a call that starts in \<open>w\<close> works with.\<close>

definition order_in :: "env \<Rightarrow> world \<Rightarrow> string" where
  "order_in E w = order_number (clock E (w_tick w)) (uuid E (w_tick w + 1))"

definition key_of :: "create_payment_request \<Rightarrow> string" where
  "key_of req = idempotency_key (cp_userId req) (cp_productId req)"

definition live_order :: "env \<Rightarrow> create_payment_request \<Rightarrow> world \<Rightarrow> string option" where
  "live_order E req w =
     (case redis_reply E (w_redis w) (w_tick w + 2) (key_of req) of
        Some on \<Rightarrow> (if on = '''' then None else Some on) | None \<Rightarrow> None)"

lemma createPayment_duplicate:
  assumes "reliable E" "live_order E req w = Some on"
  shows "run (createPayment E req) w = (Inl (DuplicatePaymentError on), tick (tick (tick w)))"
proof -
  from assms(2) have "redis_reply E (w_redis w) (w_tick w + 2) (key_of req) = Some on" "on \<noteq> ''''"
    by (auto simp: live_order_def split: option.splits if_splits)
  then show ?thesis
    by (simp add: createPayment_def run_new_date run_uuidv4 run_seq run_basic Let_def
        run_RedisClient_get [OF assms(1)] key_of_def eval_nat_numeral)
qed

text \<open>What the payments table needs to accept the row.\<close>

definition can_insert :: "string \<Rightarrow> create_payment_request \<Rightarrow> database \<Rightarrow> bool" where
  "can_insert on req db \<longleftrightarrow> length on \<le> 64 \<and> length (cp_userId req) \<le> 64 \<and>
     length (cp_productId req) \<le> 64 \<and> length (currency_of req) \<le> 3 \<and>
     decimal_ok 12 (cp_amount req) \<and> payment_select on db = None"

definition new_row :: "string \<Rightarrow> create_payment_request \<Rightarrow> date \<Rightarrow> database \<Rightarrow> payment" where
  "new_row on req now db = payment_data.extend (new_payment on req)
     \<lparr>p_id = Suc (length (payments db)), p_createdAt = now, p_updatedAt = now\<rparr>"

lemma payment_insert_new:
  "can_insert on req db \<Longrightarrow> payment_insert (new_payment on req) now db =
    Inr (Suc (length (payments db)), db\<lparr>payments := payments db @ [new_row on req now db]\<rparr>)"
  by (simp add: payment_insert_Inr can_insert_def new_payment_def new_row_def payment_select_def
      payment_data.extend_def)

text \<open>What is left of a creation once the key was found free.\<close>

definition create_rest :: "env \<Rightarrow> string \<Rightarrow> create_payment_request \<Rightarrow> string io" where
  "create_rest E on req =
     seq (PaymentRepository_create E (new_payment on req)) (\<lambda>_.
     seq (RedisClient_set E (key_of req) on (Some IDEMPOTENCY_TTL)) (\<lambda>_.
     seq (publish E PAYMENT_CREATED on ''Payment'' (created_payload on req)) (\<lambda>_.
     seq (getOrCreateQueue PAYMENT_PROCESSING) (\<lambda>queue.
     seq (queue_add E queue ''process-payment'' (payment_job on req) payment_job_options) (\<lambda>_.
     Done on)))))"

lemma createPayment_rest:
  "createPayment E req =
     seq (new_date E) (\<lambda>now.
     seq (uuidv4 E) (\<lambda>u.
     seq (RedisClient_get E (key_of req)) (\<lambda>existing.
     if existing \<noteq> None \<and> existing \<noteq> Some '''' then Fail (DuplicatePaymentError (the existing))
     else create_rest E (order_number now u) req)))"
  unfolding createPayment_def create_rest_def key_of_def Let_def by (rule refl)

lemma run_createPayment_rest:
  assumes "reliable E" "live_order E req w = None"
  shows "run (createPayment E req) w = run (create_rest E (order_in E w) req) (tick (tick (tick w)))"
proof -
  from assms(2) have "redis_reply E (w_redis w) (Suc (Suc (w_tick w))) (key_of req) = None \<or>
      redis_reply E (w_redis w) (Suc (Suc (w_tick w))) (key_of req) = Some ''''"
    by (auto simp: live_order_def split: option.splits if_splits)
  then show ?thesis
    by (auto simp: createPayment_rest run_new_date run_uuidv4 run_seq run_RedisClient_get [OF assms(1)] order_in_def)
qed

definition after_create :: "env \<Rightarrow> string \<Rightarrow> create_payment_request \<Rightarrow> world \<Rightarrow> world" where
  "after_create E on req w = w\<lparr>w_tick := w_tick w + 2,
     w_db := (w_db w)\<lparr>payments := payments (w_db w) @
       [new_row on req (sql_now (db_clock E (w_tick w))) (w_db w)]\<rparr>,
     w_redis := w_redis w @ [RSet (w_tick w + 1) (key_of req) on (Some IDEMPOTENCY_TTL)]\<rparr>"

lemma create_rest_until_publish:
  assumes "reliable E" "can_insert on req (w_db w)"
  shows "run (create_rest E on req) w =
    run (seq (publish E PAYMENT_CREATED on ''Payment'' (created_payload on req)) (\<lambda>_.
         seq (getOrCreateQueue PAYMENT_PROCESSING) (\<lambda>queue.
         seq (queue_add E queue ''process-payment'' (payment_job on req) payment_job_options) (\<lambda>_.
         Done on)))) (after_create E on req w)"
proof -
  let ?db = "(w_db w)\<lparr>payments := payments (w_db w) @ [new_row on req (sql_now (db_clock E (w_tick w))) (w_db w)]\<rparr>"
  have create: "run (PaymentRepository_create E (new_payment on req)) w
      = (Inr (Suc (length (payments (w_db w)))), (tick w)\<lparr>w_db := ?db\<rparr>)"
    using payment_insert_new [OF assms(2)]
    by (simp add: PaymentRepository_create_def run_sql_reliable [OF assms(1)] sql_effect_Inr)
  have set: "run (RedisClient_set E (key_of req) on (Some IDEMPOTENCY_TTL)) ((tick w)\<lparr>w_db := ?db\<rparr>) =
      (Inr (), after_create E on req w)"
    by (simp add: run_RedisClient_set [OF assms(1)] IDEMPOTENCY_TTL_def after_create_def tick_def)
  show ?thesis
    by (simp only: create_rest_def run_seq [of "PaymentRepository_create E d" for d] create prod.case sum.case
        run_seq [of "RedisClient_set E k v t" for k v t] set)
qed

definition payment_call :: "queue \<Rightarrow> string \<Rightarrow> create_payment_request \<Rightarrow> job_call" where
  "payment_call q on req = \<lparr>jc_queue = q, jc_name = ''process-payment'',
     jc_data = payment_job on req, jc_options = payment_job_options\<rparr>"

lemma create_rest_run:
  assumes "reliable E" "can_insert on req (w_db w)" "can_publish E (w_tick w + 2) on (w_db w)"
  shows "\<exists>w' q. run (create_rest E on req) w = (Inr on, w') \<and>
    payments (w_db w') = payments (w_db w) @ [new_row on req (sql_now (db_clock E (w_tick w))) (w_db w)] \<and>
    subscriptions (w_db w') = subscriptions (w_db w) \<and>
    event_store (w_db w') = event_store (w_db w) @
      [publish_row E (w_tick w + 2) PAYMENT_CREATED on ''Payment'' (created_payload on req) (w_db w)] \<and>
    w_redis w' = w_redis w @ [RSet (w_tick w + 1) (key_of req) on (Some 3600)] \<and>
    w_jobs w' = w_jobs w @ [payment_call q on req] \<and>
    getQueue PAYMENT_PROCESSING w' = Some q \<and> w_handlers w' = w_handlers w \<and>
    (handlers_of PAYMENT_CREATED w = [] \<longrightarrow> w_tick w' = w_tick w + 7)"
proof -
  let ?w1 = "after_create E on req w"
  let ?row = "publish_row E (w_tick ?w1) PAYMENT_CREATED on ''Payment'' (created_payload on req) (w_db ?w1)"
  have "can_publish E (w_tick ?w1) on (w_db ?w1)" "length ''Payment'' \<le> 64"
    using assms(3) by (simp_all add: after_create_def)
  with assms(1) obtain w2 where w2: "run (publish E PAYMENT_CREATED on ''Payment'' (created_payload on req)) ?w1
      = (Inr (published E PAYMENT_CREATED on ''Payment'' (created_payload on req) ?w1), w2)"
    "core w2 = core (?w1\<lparr>w_db := add_event ?row (w_db ?w1)\<rparr>)"
    "w2 = snd (run (all_settled (map (\<lambda>h. projector_exec E h (published E PAYMENT_CREATED on ''Payment''
        (created_payload on req) ?w1)) (handlers_of PAYMENT_CREATED ?w1)))
       (after_append E PAYMENT_CREATED on ''Payment'' (created_payload on req) ?w1))"
    by (rule run_publish_ok)
  obtain q w3 where q: "run (getOrCreateQueue PAYMENT_PROCESSING) w2 = (Inr q, w3)"
    using getOrCreateQueue_returns by blast
  have run: "run (create_rest E on req) w = (Inr on, (tick w3)\<lparr>w_jobs := w_jobs w3 @ [payment_call q on req]\<rparr>)"
    by (simp add: create_rest_until_publish [OF assms(1,2)] run_seq w2(1) q run_basic
        run_queue_add [OF assms(1)] payment_call_def)
  have queue: "getQueue PAYMENT_PROCESSING w3 = Some q" using getOrCreateQueue_same [OF q] by simp
  have ticks: "w_tick w2 = w_tick w + 6" if "handlers_of PAYMENT_CREATED w = []"
  proof -
    have "handlers_of PAYMENT_CREATED ?w1 = []" using that by (simp add: handlers_of_def after_create_def)
    with w2(3) show ?thesis by (simp add: after_append_def after_create_def)
  qed
  show ?thesis
    by (rule exI [of _ "(tick w3)\<lparr>w_jobs := w_jobs w3 @ [payment_call q on req]\<rparr>"], rule exI [of _ q])
      (use run getOrCreateQueue_frame [OF q] core_eqD [OF w2(2)] queue ticks in
        \<open>simp add: after_create_def IDEMPOTENCY_TTL_def getQueue_def\<close>)
qed

lemma createPayment_run:
  assumes "reliable E" "live_order E req w = None" "can_insert (order_in E w) req (w_db w)"
    and "can_publish E (w_tick w + 5) (order_in E w) (w_db w)"
  shows "\<exists>w' q. run (createPayment E req) w = (Inr (order_in E w), w') \<and>
    payments (w_db w') = payments (w_db w) @
      [new_row (order_in E w) req (sql_now (db_clock E (w_tick w + 3))) (w_db w)] \<and>
    subscriptions (w_db w') = subscriptions (w_db w) \<and>
    event_store (w_db w') = event_store (w_db w) @
      [publish_row E (w_tick w + 5) PAYMENT_CREATED (order_in E w) ''Payment''
        (created_payload (order_in E w) req) (w_db w)] \<and>
    w_redis w' = w_redis w @ [RSet (w_tick w + 4) (key_of req) (order_in E w) (Some 3600)] \<and>
    w_jobs w' = w_jobs w @ [payment_call q (order_in E w) req] \<and>
    getQueue PAYMENT_PROCESSING w' = Some q \<and> w_handlers w' = w_handlers w \<and>
    (handlers_of PAYMENT_CREATED w = [] \<longrightarrow> w_tick w' = w_tick w + 10)"
proof -
  have "can_insert (order_in E w) req (w_db (tick (tick (tick w))))"
    "can_publish E (w_tick (tick (tick (tick w))) + 2) (order_in E w) (w_db (tick (tick (tick w))))"
    using assms(3,4) by (simp_all add: eval_nat_numeral)
  from create_rest_run [OF assms(1) this] show ?thesis
    unfolding run_createPayment_rest [OF assms(1,2)] by (simp add: handlers_of_def eval_nat_numeral)
qed

text \<open>
  C6: When the idempotency key is free and the row fits the table, createPayment returns the new
  order number, which is ORD, the time in milliseconds and the first eight characters of a uuid, and has appended exactly one payment,
  PENDING and with the user, product and amount of the request and its currency or KRW; one
  PAYMENT_CREATED event, one SET of the key of the user and product with a time to live of 3600
  seconds, and one job on the payment-processing queue with three attempts, event and job with the same
  order, user, product, amount and currency; subscriptions are untouched.
\<close>

theorem createPayment_new:
  assumes "reliable E" "live_order E req w = None" "can_insert (order_in E w) req (w_db w)"
    and "can_publish E (w_tick w + 5) (order_in E w) (w_db w)"
    and "now = sql_now (db_clock E (w_tick w + 3))"
    and "cur = (case cp_currency req of Some c \<Rightarrow> (if c = '''' then ''KRW'' else c) | None \<Rightarrow> ''KRW'')"
  shows "\<exists>on w' q. run (createPayment E req) w = (Inr on, w') \<and>
    on = ''ORD-'' @ show_int (clock E (w_tick w)) @ ''-'' @ take 8 (uuid E (w_tick w + 1)) \<and>
    payments (w_db w') = payments (w_db w) @
      [\<lparr>p_orderNumber = on, p_userId = cp_userId req, p_productId = cp_productId req,
        p_amount = cp_amount req, p_currency = cur, p_status = PENDING, p_transactionId = None,
        p_paidAt = None, p_refundedAt = None, p_refundAmount = None, p_refundReason = None,
        p_id = Suc (length (payments (w_db w))), p_createdAt = now, p_updatedAt = now\<rparr>] \<and>
    subscriptions (w_db w') = subscriptions (w_db w) \<and>
    event_store (w_db w') = event_store (w_db w) @
      [\<lparr>se_id = Suc (length (event_store (w_db w))), se_eventId = uuid E (w_tick w + 6),
        se_eventType = ''PAYMENT_CREATED'', se_aggregateId = on, se_aggregateType = ''Payment'',
        se_payload = [(''orderNumber'', JStr on), (''userId'', JStr (cp_userId req)),
          (''productId'', JStr (cp_productId req)), (''amount'', JNum (cp_amount req)), (''currency'', JStr cur)],
        se_version = latest_version on (w_db w) + 1, se_occurredAt = sql_datetime (clock E (w_tick w + 7)),
        se_createdAt = sql_now (db_clock E (w_tick w + 8))\<rparr>] \<and>
    w_redis w' = w_redis w @
      [RSet (w_tick w + 4) (''payment:idempotency:'' @ cp_userId req @ '':'' @ cp_productId req) on (Some 3600)] \<and>
    w_jobs w' = w_jobs w @
      [\<lparr>jc_queue = q, jc_name = ''process-payment'',
        jc_data = PaymentJob \<lparr>pj_orderNumber = on, pj_userId = cp_userId req, pj_productId = cp_productId req,
          pj_amount = cp_amount req, pj_currency = cur\<rparr>,
        jc_options = \<lparr>jo_attempts = Some 3, jo_backoff = Some 2000, jo_repeatEvery = None, jo_jobId = None\<rparr>\<rparr>] \<and>
    getQueue PAYMENT_PROCESSING w' = Some q"
proof -
  have cur: "currency_of req = cur" unfolding assms(6) currency_of_def ..
  from createPayment_run [OF assms(1-4)] obtain w' q where
    "run (createPayment E req) w = (Inr (order_in E w), w')"
    "payments (w_db w') = payments (w_db w) @ [new_row (order_in E w) req now (w_db w)]"
    "subscriptions (w_db w') = subscriptions (w_db w)"
    "event_store (w_db w') = event_store (w_db w) @ [publish_row E (w_tick w + 5) PAYMENT_CREATED (order_in E w)
      ''Payment'' (created_payload (order_in E w) req) (w_db w)]"
    "w_redis w' = w_redis w @ [RSet (w_tick w + 4) (key_of req) (order_in E w) (Some 3600)]"
    "w_jobs w' = w_jobs w @ [payment_call q (order_in E w) req]" "getQueue PAYMENT_PROCESSING w' = Some q"
    unfolding assms(5) by blast
  then show ?thesis
    by (intro exI [of _ "order_in E w"] exI [of _ w'] exI [of _ q])
      (simp add: order_in_def order_number_def new_row_def new_payment_def payment_data.extend_def cur publish_row_def
        created_payload_def key_of_def idempotency_key_def payment_call_def payment_job_def payment_job_options_def
        no_options_def add.commute)
qed

lemma createPayment_new_witness:
  "\<exists>w' p j. run (createPayment calm sample_request) booted = (Inr (order_in calm booted), w') \<and>
    payments (w_db w') = [p] \<and> p_status p = PENDING \<and> p_userId p = ''alice'' \<and> p_productId p = ''gems'' \<and>
    p_amount p = 500 \<and> p_currency p = ''KRW'' \<and> w_jobs w' = w_jobs booted @ [j]"
proof -
  have "live_order calm sample_request booted = None" "can_insert (order_in calm booted) sample_request (w_db booted)"
    "can_publish calm (w_tick booted + 5) (order_in calm booted) (w_db booted)"
    by (simp_all add: live_order_def ttl_reply_def can_insert_def can_publish_def order_in_def
        order_number_def sample_request_def currency_of_def decimal_ok_def payment_select_def)
  from createPayment_new [OF calm_reliable this refl refl] show ?thesis
    by (auto simp: sample_request_def order_in_def order_number_def)
qed

section \<open>Idempotency\<close>

text \<open>Whatever a call does, if it returns it has set its key once, to the order it returns.\<close>

lemma run_seq_Inr:
  "run (seq m f) w = (Inr y, w') \<longleftrightarrow> (\<exists>x w1. run m w = (Inr x, w1) \<and> run (f x) w1 = (Inr y, w'))"
  by (auto simp: run_seq split: prod.splits sum.splits)

lemma run_remote_Inr:
  "run (remote E f) w = (Inr x, w') \<longleftrightarrow> fault E (w_tick w) = NoFault \<and> f (w_tick w) (tick w) = (Inr x, w')"
  by (simp add: run_remote split: fault.split)

lemma createPayment_redis:
  assumes "run (createPayment E req) w = (Inr on, w')"
  shows "on = order_in E w"
    "w_redis w' = w_redis w @ [RSet (w_tick w + 4) (key_of req) on (Some 3600)]"
proof -
  let ?on = "order_number (clock E (w_tick w)) (uuid E (w_tick (tick w)))"
  let ?key = "idempotency_key (cp_userId req) (cp_productId req)"
  from assms obtain n w1 ev w2 q w3 where
    create: "run (PaymentRepository_create E (new_payment ?on req)) (tick (tick (tick w))) = (Inr n, w1)"
    and pub: "run (publish E PAYMENT_CREATED ?on ''Payment'' (created_payload ?on req))
      ((tick w1)\<lparr>w_redis := w_redis w1 @ [RSet (w_tick w1) ?key ?on (Some IDEMPOTENCY_TTL)]\<rparr>) = (Inr ev, w2)"
    and q: "run (getOrCreateQueue PAYMENT_PROCESSING) w2 = (Inr q, w3)"
    and ret: "on = ?on" "w_redis w' = w_redis w3"
    by (auto simp: createPayment_def run_seq_Inr run_new_date run_uuidv4 RedisClient_get_def Let_def run_remote_Inr
        RedisClient_set_def queue_add_def run_basic IDEMPOTENCY_TTL_def split: if_splits)
  have "w_redis w1 = w_redis w" "w_tick w1 = w_tick w + 4"
    using create by (auto simp: PaymentRepository_create_def sql_def run_remote_Inr sql_effect_def
        eval_nat_numeral split: sum.splits)
  moreover have "w_redis w3 = w_redis w2" using getOrCreateQueue_frame [OF q] by simp
  moreover from keepsD [OF publish_keeps(1) pub]
  have "w_redis w2 = w_redis w1 @ [RSet (w_tick w1) ?key ?on (Some IDEMPOTENCY_TTL)]" by simp
  ultimately show "on = order_in E w" "w_redis w' = w_redis w @ [RSet (w_tick w + 4) (key_of req) on (Some 3600)]"
    using ret by (simp_all add: order_in_def key_of_def IDEMPOTENCY_TTL_def)
qed

lemma order_in_nonempty: "order_in E w \<noteq> ''''"
  by (simp add: order_in_def order_number_def)

lemma duplicate_within_ttl:
  assumes "reliable E" "redis_ok E" "run (createPayment E req) w = (Inr on, w1)"
    and "w_redis w2 = w_redis w1 @ later" "key_of req \<notin> redis_key ` set later"
    and "cp_userId req' = cp_userId req" "cp_productId req' = cp_productId req"
    and "clock E (w_tick w2 + 2) < clock E (w_tick w + 4) + 3600 * 1000"
  shows "run (createPayment E req') w2 = (Inl (DuplicatePaymentError on), tick (tick (tick w2)))"
proof (rule createPayment_duplicate [OF assms(1)])
  note c = createPayment_redis [OF assms(3)]
  have key: "key_of req' = key_of req" using assms(6,7) by (simp add: key_of_def)
  have "redis_reply E (w_redis w @ RSet (w_tick w + 4) (key_of req) on (Some 3600) # later)
      (w_tick w2 + 2) (key_of req) = Some on"
    using assms(2,5,8) unfolding redis_ok_def by simp
  then show "live_order E req' w2 = Some on"
    using c order_in_nonempty assms(4) by (simp add: live_order_def key)
qed

text \<open>
  C7: After a creation that returned, a second request for the same user and product within the
  hour (the key not written since) is refused with the first order's number and changes nothing,
  whatever its amount and currency and whatever else happened to the database in between.
\<close>

theorem createPayment_idempotent:
  assumes "reliable E" "redis_ok E" "run (createPayment E req) w = (Inr on, w1)"
    and "w_redis w2 = w_redis w1 @ later" "key_of req \<notin> redis_key ` set later"
    and "cp_userId req' = cp_userId req" "cp_productId req' = cp_productId req"
    and "clock E (w_tick w2 + 2) < clock E (w_tick w + 4) + 3600 * 1000"
  shows "run (createPayment E req') w2 = (Inl (DuplicatePaymentError on), tick (tick (tick w2)))"
  by (rule duplicate_within_ttl [OF assms])

lemma createPayment_idempotent_witness:
  "\<exists>w1. run (createPayment calm sample_request) booted = (Inr (order_in calm booted), w1) \<and>
    run (createPayment calm (sample_request\<lparr>cp_amount := 1\<rparr>)) w1 =
    (Inl (DuplicatePaymentError (order_in calm booted)), tick (tick (tick w1)))"
proof -
  have "live_order calm sample_request booted = None" "can_insert (order_in calm booted) sample_request (w_db booted)"
    "can_publish calm (w_tick booted + 5) (order_in calm booted) (w_db booted)"
    by (simp_all add: live_order_def ttl_reply_def can_insert_def can_publish_def order_in_def
        order_number_def sample_request_def currency_of_def decimal_ok_def payment_select_def)
  from createPayment_run [OF calm_reliable this]
  obtain w1 where w1: "run (createPayment calm sample_request) booted = (Inr (order_in calm booted), w1)" by blast
  from createPayment_idempotent [OF calm_reliable calm_redis_ok w1, of w1 "[]" "sample_request\<lparr>cp_amount := 1\<rparr>"]
  w1 show ?thesis by auto
qed

text \<open>
  Once the hour is over the key no longer refuses the request: the guard of createPayment
  finds nothing.
\<close>

lemma createPayment_after_ttl:
  assumes "reliable E" "redis_ok E" "run (createPayment E req) w = (Inr on, w1)"
    and "w_redis w2 = w_redis w1 @ later" "key_of req \<notin> redis_key ` set later"
    and "clock E (w_tick w + 4) + 3600 * 1000 \<le> clock E (w_tick w2 + 2)"
  shows "live_order E req w2 = None"
proof -
  have "redis_reply E (w_redis w @ RSet (w_tick w + 4) (key_of req) on (Some 3600) # later)
      (w_tick w2 + 2) (key_of req) = None"
    using assms(2,5,6) unfolding redis_ok_def by simp
  then show ?thesis
    using createPayment_redis [OF assms(3)] assms(4) by (simp add: live_order_def)
qed

lemma createPayment_after_ttl_witness:
  "\<exists>w2. w_redis w2 \<noteq> [] \<and> live_order hourly sample_request w2 = None"
proof -
  have "live_order hourly sample_request booted = None" "can_insert (order_in hourly booted) sample_request (w_db booted)"
    "can_publish hourly (w_tick booted + 5) (order_in hourly booted) (w_db booted)"
    by (simp_all add: live_order_def ttl_reply_def can_insert_def can_publish_def order_in_def
        order_number_def sample_request_def currency_of_def decimal_ok_def payment_select_def)
  from createPayment_run [OF hourly_simps(1) this]
  obtain w1 where w1: "run (createPayment hourly sample_request) booted = (Inr (order_in hourly booted), w1)"
    "w_redis w1 \<noteq> []" by auto
  from createPayment_after_ttl [OF hourly_simps(1,2) w1(1), of "w1\<lparr>w_tick := 10\<rparr>" "[]"] w1(2)
  show ?thesis by (intro exI [of _ "w1\<lparr>w_tick := 10\<rparr>"]) simp
qed

text \<open>Two keys are the same only if user and product are, when no user id has a colon in it.\<close>

lemma append_char_inject:
  "c \<notin> set a \<Longrightarrow> c \<notin> set b \<Longrightarrow> a @ c # x = b @ c # y \<longleftrightarrow> a = b \<and> x = y"
proof (induction a arbitrary: b)
  case Nil
  then show ?case by (cases b) auto
next
  case (Cons d a)
  then show ?case by (cases b) auto
qed

text \<open>
  Two requests share an idempotency key only if user and product agree, provided no user id
  contains a colon.
\<close>

lemma idempotency_key_inject:
  assumes "CHR '':'' \<notin> set u" "CHR '':'' \<notin> set u'"
  shows "idempotency_key u p = idempotency_key u' p' \<longleftrightarrow> u = u' \<and> p = p'"
  using append_char_inject [OF assms] by (simp add: idempotency_key_def)

lemma idempotency_key_inject_witness:
  "idempotency_key ''alice'' ''gems'' \<noteq> idempotency_key ''bob'' ''gems''"
  using idempotency_key_inject [of "''alice''" "''bob''" "''gems''" "''gems''"] by simp

theorem idempotency_key_collides:
  "idempotency_key ''a:b'' ''c'' = idempotency_key ''a'' ''b:c''"
  by (simp add: idempotency_key_def)

end
