(* ===== verification/SubscriptionLaws.thy ===== *)
theory SubscriptionLaws
  imports PaymentLaws
begin

text \<open>
  What each operation of the subscription handler does when it runs alone and no call fails, and
  the length of a subscription period.
\<close>

section \<open>Periods\<close>

definition period_days :: "int \<Rightarrow> date \<Rightarrow> string \<Rightarrow> int" where
  "period_days z t plan =
     (let y = get_full_year z t; m = get_month z t
      in if plan = ''MONTHLY'' then days_in_month y m
         else if (if m \<le> 1 then leap y else leap (y + 1)) then 366 else 365)"

lemma period_bounds:
  "if plan = ''MONTHLY'' then 28 \<le> period_days z t plan \<and> period_days z t plan \<le> 31
   else period_days z t plan \<in> {365, 366}"
  using days_in_month_bounds by (simp add: period_days_def Let_def)

lemma end_date_days: "calculateEndDate z t plan = t + period_days z t plan * ms_per_day"
  by (simp add: calculateEndDate_def period_days_def Let_def set_month_next set_full_year_next)

text \<open>The renewal worker's own copy of the computation moves a date by the same number of days.\<close>

lemma new_end_days: "calculateNewEndDate z t plan = t + period_days z t plan * ms_per_day"
  by (simp add: calculateNewEndDate_def period_days_def Let_def set_month_next set_full_year_next)

text \<open>
  C38: A MONTHLY period is the number of days of the month it starts in, 28 to 31, and any other
  period 365 or 366 days, always at the same time of day, however the day of the month overflows
  into the next month.
\<close>

theorem calculateEndDate_period:
  "calculateEndDate z t plan = t + period_days z t plan * ms_per_day \<and>
    period_days z t plan \<in> (if plan = ''MONTHLY'' then {28..31} else {365, 366})"
  using end_date_days period_bounds [of plan z t] by (auto split: if_splits)

section \<open>Creating\<close>

text \<open>The database reads every row of a table once, in some order.\<close>

definition reads_all :: "env \<Rightarrow> bool" where
  "reads_all E \<longleftrightarrow>
     (\<forall>n rs. mset (payment_order E n rs) = mset rs) \<and>
     (\<forall>n rs. mset (subscription_order E n rs) = mset rs) \<and>
     (\<forall>n rs. mset (event_order E n rs) = mset rs)"

lemma reads_all_set: "reads_all E \<Longrightarrow> set (subscription_order E n rs) = set rs"
  unfolding reads_all_def by (metis set_mset_mset)

definition active_of :: "string \<Rightarrow> database \<Rightarrow> subscription list" where
  "active_of uid db = filter (\<lambda>r. s_userId r = uid \<and> s_status r = ACTIVE) (subscriptions db)"

lemma run_find_active [run_simps]:
  "reliable E \<Longrightarrow> run (SubscriptionRepository_findActiveByUserId E uid) w =
     (Inr (find (\<lambda>r. s_userId r = uid \<and> s_status r = ACTIVE)
             (subscription_order E (w_tick w) (subscriptions (w_db w)))), tick w)"
  by (simp add: SubscriptionRepository_findActiveByUserId_def run_sql_reliable sql_effect_reading)

lemma find_active_None:
  "reads_all E \<Longrightarrow> find (\<lambda>r. s_userId r = uid \<and> s_status r = ACTIVE)
      (subscription_order E n (subscriptions db)) = None \<longleftrightarrow> active_of uid db = []"
  using reads_all_set [of E n "subscriptions db"]
  by (auto simp: find_None_iff active_of_def filter_empty_conv)

text \<open>
  For a user who has an active subscription createSubscription throws ConflictError and
  changes nothing, in whatever order the database reads the rows.
\<close>

lemma createSubscription_conflict:
  assumes "reliable E" "reads_all E" "active_of (cs_userId req) (w_db w) \<noteq> []"
  shows "run (createSubscription E req) w =
    (Inl (ConflictError (''User '' @ cs_userId req @ '' already has an active subscription'')), tick w)"
proof -
  have "find (\<lambda>r. s_userId r = cs_userId req \<and> s_status r = ACTIVE)
      (subscription_order E (w_tick w) (subscriptions (w_db w))) \<noteq> None"
    using find_active_None [OF assms(2)] assms(3) by blast
  then show ?thesis
    by (simp add: createSubscription_def run_seq run_find_active [OF assms(1)] run_basic)
qed

lemma createSubscription_conflict_witness:
  "fst (run (createSubscription calm (sample_plan_request ''ANNUAL'')) (with_subscription ACTIVE True)) =
    Inl (ConflictError ''User alice already has an active subscription'')"
  using createSubscription_conflict [OF calm_reliable, of "sample_plan_request ''ANNUAL''" "with_subscription ACTIVE True"]
  by (simp add: reads_all_def active_of_def sample_plan_request_def)

text \<open>What is left of a creation once no active subscription was found.\<close>

definition subscribe_rest :: "env \<Rightarrow> create_subscription_request \<Rightarrow> string io" where
  "subscribe_rest E req =
     seq (uuidv4 E) (\<lambda>u.
     let subscriptionId = subscription_id u in
     seq (new_date E) (\<lambda>startDate.
     let endDate = calculateEndDate (tz E) startDate (cs_plan req) in
     seq (SubscriptionRepository_create E (new_subscription subscriptionId req startDate endDate)) (\<lambda>_.
     seq (publish E SUBSCRIPTION_CREATED subscriptionId ''Subscription''
           (SubscriptionCreatedPayload subscriptionId (cs_userId req) (cs_planId req)
              startDate endDate)) (\<lambda>_.
     Done subscriptionId))))"

lemma createSubscription_rest:
  "createSubscription E req =
     seq (SubscriptionRepository_findActiveByUserId E (cs_userId req)) (\<lambda>existing.
     if existing \<noteq> None
     then Fail (ConflictError (''User '' @ cs_userId req @ '' already has an active subscription''))
     else subscribe_rest E req)"
  unfolding createSubscription_def subscribe_rest_def by (rule refl)

lemma run_createSubscription_rest:
  assumes "reliable E" "reads_all E" "active_of (cs_userId req) (w_db w) = []"
  shows "run (createSubscription E req) w = run (subscribe_rest E req) (tick w)"
  using find_active_None [OF assms(2), of "cs_userId req" "w_tick w" "w_db w"] assms(3)
  by (simp add: createSubscription_rest run_seq run_find_active [OF assms(1)])

text \<open>The id, period and row of a creation whose \<open>uuidv4\<close> call is made in \<open>w\<close>.\<close>

definition new_id :: "env \<Rightarrow> world \<Rightarrow> string" where
  "new_id E w = subscription_id (uuid E (w_tick w))"

definition new_end :: "env \<Rightarrow> create_subscription_request \<Rightarrow> world \<Rightarrow> date" where
  "new_end E req w = calculateEndDate (tz E) (clock E (w_tick w + 1)) (cs_plan req)"

definition new_subscription_row ::
    "env \<Rightarrow> create_subscription_request \<Rightarrow> subscription_plan \<Rightarrow> world \<Rightarrow> subscription" where
  "new_subscription_row E req plan w =
     (let now = sql_now (db_clock E (w_tick w + 2))
      in \<lparr>s_id = Suc (length (subscriptions (w_db w))), s_subscriptionId = new_id E w,
          s_userId = cs_userId req, s_planId = cs_planId req, s_plan = plan, s_status = ACTIVE,
          s_startDate = sql_datetime (clock E (w_tick w + 1)),
          s_endDate = sql_datetime (new_end E req w),
          s_cancelledAt = None, s_cancelReason = None, s_autoRenew = True,
          s_createdAt = now, s_updatedAt = now\<rparr>)"

definition created_event :: "env \<Rightarrow> create_subscription_request \<Rightarrow> world \<Rightarrow> event_payload" where
  "created_event E req w = SubscriptionCreatedPayload (new_id E w) (cs_userId req) (cs_planId req)
     (clock E (w_tick w + 1)) (new_end E req w)"

lemma subscribe_rest_until_insert:
  "run (subscribe_rest E req) w =
    run (seq (SubscriptionRepository_create E (new_subscription (new_id E w) req (clock E (w_tick w + 1)) (new_end E req w))) (\<lambda>_.
         seq (publish E SUBSCRIPTION_CREATED (new_id E w) ''Subscription'' (created_event E req w)) (\<lambda>_.
         Done (new_id E w)))) (tick (tick w))"
proof -
  have ticks: "w_tick w + 1 = w_tick (tick w)" by simp
  show ?thesis unfolding new_id_def new_end_def created_event_def ticks
    by (simp add: subscribe_rest_def run_seq [of "uuidv4 E"] run_seq [of "new_date E"] run_uuidv4 run_new_date Let_def
        del: tick_simps)
qed

definition can_subscribe :: "string \<Rightarrow> create_subscription_request \<Rightarrow> database \<Rightarrow> bool" where
  "can_subscribe sid req db \<longleftrightarrow> length sid \<le> 64 \<and> length (cs_userId req) \<le> 64 \<and>
     length (cs_planId req) \<le> 64 \<and> subscription_select sid db = None"

lemma subscribe_rest_run:
  assumes "reliable E" "plan_of_str (cs_plan req) = Some plan" "can_subscribe (new_id E w) req (w_db w)"
    and "can_publish E (w_tick w + 3) (new_id E w) (w_db w)"
  shows "\<exists>w'. run (subscribe_rest E req) w = (Inr (new_id E w), w') \<and>
    core w' = core (w\<lparr>w_db := add_event
      (publish_row E (w_tick w + 3) SUBSCRIPTION_CREATED (new_id E w) ''Subscription'' (created_event E req w) (w_db w))
      ((w_db w)\<lparr>subscriptions := subscriptions (w_db w) @ [new_subscription_row E req plan w]\<rparr>)\<rparr>) \<and>
    (handlers_of SUBSCRIPTION_CREATED w = [] \<longrightarrow> w_tick w' = w_tick w + 7)"
proof -
  let ?d = "new_subscription (new_id E w) req (clock E (w_tick w + 1)) (new_end E req w)"
  let ?db = "(w_db w)\<lparr>subscriptions := subscriptions (w_db w) @ [new_subscription_row E req plan w]\<rparr>"
  let ?pl = "created_event E req w"
  define w1 where "w1 = w\<lparr>w_tick := w_tick w + 3, w_db := ?db\<rparr>"
  have "subscription_insert ?d (sql_now (db_clock E (w_tick w + 2))) (w_db w)
      = Inr (Suc (length (subscriptions (w_db w))), ?db)"
    using assms(2,3) by (simp add: subscription_insert_Inr new_subscription_def can_subscribe_def
        subscription_select_def new_subscription_row_def Let_def)
  then have create: "run (SubscriptionRepository_create E ?d) (tick (tick w)) =
      (Inr (Suc (length (subscriptions (w_db w)))), w1)"
    by (simp add: SubscriptionRepository_create_def run_sql_reliable [OF assms(1)] sql_effect_Inr
        eval_nat_numeral tick_def w1_def)
  have "can_publish E (w_tick w1) (new_id E w) (w_db w1)" using assms(4) by (simp add: w1_def)
  from run_publish_done [OF assms(1) this, of "''Subscription''" SUBSCRIPTION_CREATED ?pl "new_id E w"]
  obtain w' where w': "run (seq (publish E SUBSCRIPTION_CREATED (new_id E w) ''Subscription'' ?pl)
        (\<lambda>_. Done (new_id E w))) w1 = (Inr (new_id E w), w')"
    "core w' = core (w1\<lparr>w_db := add_event (publish_row E (w_tick w1) SUBSCRIPTION_CREATED (new_id E w)
       ''Subscription'' ?pl (w_db w1)) (w_db w1)\<rparr>)"
    "w' = snd (run (all_settled (map (\<lambda>h. projector_exec E h (published E SUBSCRIPTION_CREATED (new_id E w)
       ''Subscription'' ?pl w1)) (handlers_of SUBSCRIPTION_CREATED w1)))
       (after_append E SUBSCRIPTION_CREATED (new_id E w) ''Subscription'' ?pl w1))" by auto
  have "w_tick w' = w_tick w + 7" if "handlers_of SUBSCRIPTION_CREATED w = []"
  proof -
    have "handlers_of SUBSCRIPTION_CREATED w1 = []" using that by (simp add: handlers_of_def w1_def)
    then have "w' = after_append E SUBSCRIPTION_CREATED (new_id E w) ''Subscription'' ?pl w1"
      unfolding w'(3) by simp
    then show ?thesis by (simp add: after_append_def w1_def)
  qed
  moreover have "run (subscribe_rest E req) w = (Inr (new_id E w), w')"
    unfolding subscribe_rest_until_insert run_seq [of "SubscriptionRepository_create E ?d"] create
    by (simp only: case_prod_conv sum.case w'(1))
  moreover have "core w' = core (w\<lparr>w_db := add_event (publish_row E (w_tick w + 3) SUBSCRIPTION_CREATED
      (new_id E w) ''Subscription'' ?pl (w_db w)) ?db\<rparr>)"
    unfolding w'(2) by (simp add: w1_def core_def add_event_def)
  ultimately show ?thesis by blast
qed

lemma core_tick_db: "core ((tick w)\<lparr>w_db := db\<rparr>) = core (w\<lparr>w_db := db\<rparr>)"
  by (simp add: core_def tick_def)

lemma createSubscription_run:
  assumes "reliable E" "reads_all E" "active_of (cs_userId req) (w_db w) = []"
    and "plan_of_str (cs_plan req) = Some plan" "can_subscribe (new_id E (tick w)) req (w_db w)"
    and "can_publish E (w_tick w + 4) (new_id E (tick w)) (w_db w)"
  shows "\<exists>w'. run (createSubscription E req) w = (Inr (new_id E (tick w)), w') \<and>
    core w' = core (w\<lparr>w_db := add_event
      (publish_row E (w_tick w + 4) SUBSCRIPTION_CREATED (new_id E (tick w)) ''Subscription''
        (created_event E req (tick w)) (w_db w))
      ((w_db w)\<lparr>subscriptions := subscriptions (w_db w) @ [new_subscription_row E req plan (tick w)]\<rparr>)\<rparr>) \<and>
    (handlers_of SUBSCRIPTION_CREATED w = [] \<longrightarrow> w_tick w' = w_tick w + 8)"
proof -
  have ins: "can_subscribe (new_id E (tick w)) req (w_db (tick w))" using assms(5) by simp
  have pub: "can_publish E (w_tick (tick w) + 3) (new_id E (tick w)) (w_db (tick w))"
    using assms(6) by (simp add: eval_nat_numeral)
  have "handlers_of ty (tick w) = handlers_of ty w" for ty by (simp add: handlers_of_def)
  with subscribe_rest_run [OF assms(1,4) ins pub] show ?thesis
    unfolding run_createSubscription_rest [OF assms(1-3)] core_tick_db by (simp add: eval_nat_numeral)
qed

text \<open>
  C23: For a user without an active subscription and a plan that is MONTHLY or ANNUAL,
  createSubscription returns the new id and has appended exactly one ACTIVE, auto-renewing
  subscription that ends one period after it starts, and one SUBSCRIPTION_CREATED event.
\<close>

theorem createSubscription_new:
  assumes "reliable E" "reads_all E" "active_of (cs_userId req) (w_db w) = []"
    and "plan_of_str (cs_plan req) = Some plan" "can_subscribe (new_id E (tick w)) req (w_db w)"
    and "can_publish E (w_tick w + 4) (new_id E (tick w)) (w_db w)"
  shows "\<exists>w'. run (createSubscription E req) w = (Inr (new_id E (tick w)), w') \<and>
    core w' = core (w\<lparr>w_db := add_event
      (publish_row E (w_tick w + 4) SUBSCRIPTION_CREATED (new_id E (tick w)) ''Subscription''
        (created_event E req (tick w)) (w_db w))
      ((w_db w)\<lparr>subscriptions := subscriptions (w_db w) @ [new_subscription_row E req plan (tick w)]\<rparr>)\<rparr>)"
  using createSubscription_run [OF assms] by blast

lemma createSubscription_new_witness:
  "\<exists>w'. run (createSubscription calm (sample_plan_request ''MONTHLY'')) booted = (Inr ''SUB-u'', w') \<and>
    map s_status (subscriptions (w_db w')) = [ACTIVE]"
proof -
  have "reads_all calm" "active_of (cs_userId (sample_plan_request ''MONTHLY'')) (w_db booted) = []"
    "plan_of_str (cs_plan (sample_plan_request ''MONTHLY'')) = Some MONTHLY"
    "can_subscribe (new_id calm (tick booted)) (sample_plan_request ''MONTHLY'') (w_db booted)"
    "can_publish calm (w_tick booted + 4) (new_id calm (tick booted)) (w_db booted)"
    by (simp_all add: reads_all_def active_of_def sample_plan_request_def plan_of_str_def can_subscribe_def
        new_id_def subscription_id_def subscription_select_def can_publish_def)
  from createSubscription_new [OF calm_reliable this] show ?thesis
    by (auto simp: new_id_def subscription_id_def new_subscription_row_def Let_def dest: core_eqD(2))
qed

text \<open>A plan that is neither \<open>MONTHLY\<close> nor \<open>ANNUAL\<close> only fails at the database.\<close>

text \<open>
  A plan that is neither MONTHLY nor ANNUAL passes every check of the code and is refused
  only by the ENUM column of the database, with a plain SQL error (so the client gets 500, not
  400); nothing is stored.
\<close>

lemma createSubscription_unknown_plan:
  assumes "reliable E" "reads_all E" "active_of (cs_userId req) (w_db w) = []"
    and "plan_of_str (cs_plan req) = None" "can_subscribe (new_id E (tick w)) req (w_db w)"
  shows "run (createSubscription E req) w =
    (Inl (SqlErr (WARN_DATA_TRUNCATED ''plan'')), tick (tick (tick (tick w))))"
proof -
  let ?d = "new_subscription (new_id E (tick w)) req (clock E (w_tick (tick w) + 1)) (new_end E req (tick w))"
  have "subscription_insert ?d now (w_db w) = Inl (WARN_DATA_TRUNCATED ''plan'')" for now
    using assms(4,5) by (simp add: subscription_insert_def new_subscription_def can_subscribe_def
        subscription_select_def)
  then have "run (SubscriptionRepository_create E ?d) (tick (tick (tick w))) =
      (Inl (SqlErr (WARN_DATA_TRUNCATED ''plan'')), tick (tick (tick (tick w))))"
    by (simp add: SubscriptionRepository_create_def run_sql_reliable [OF assms(1)] sql_effect_Inl)
  then show ?thesis
    unfolding run_createSubscription_rest [OF assms(1-3)] subscribe_rest_until_insert
      run_seq [of "SubscriptionRepository_create E ?d"]
    by simp
qed

lemma createSubscription_unknown_plan_witness:
  "fst (run (createSubscription calm (sample_plan_request ''WEEKLY'')) booted) = Inl (SqlErr (WARN_DATA_TRUNCATED ''plan''))"
  using createSubscription_unknown_plan [OF calm_reliable, of "sample_plan_request ''WEEKLY''" booted]
  by (simp add: reads_all_def active_of_def sample_plan_request_def plan_of_str_def can_subscribe_def
        new_id_def subscription_id_def subscription_select_def)

section \<open>Cancelling\<close>

definition cancelled_row :: "string \<Rightarrow> date \<Rightarrow> date \<Rightarrow> subscription \<Rightarrow> subscription" where
  "cancelled_row reason at now r = r\<lparr>s_status := SUB_CANCELLED, s_cancelledAt := Some (sql_datetime at),
     s_cancelReason := Some reason, s_autoRenew := False, s_updatedAt := now\<rparr>"

lemma subscription_update_cancelled:
  assumes "length reason \<le> 65535"
  shows "subscription_update sid SUB_CANCELLED [(''cancelledAt'', VDate t), (''cancelReason'', VStr reason),
      (''autoRenew'', VBool False)] now db =
    Inr ((), db\<lparr>subscriptions := with_key s_subscriptionId sid (cancelled_row reason t now) (subscriptions db)\<rparr>)"
proof -
  have "update_where (\<lambda>r. s_subscriptionId r = sid) (subscription_set_row SUB_CANCELLED
      [(''cancelled_at'', VDate t), (''cancel_reason'', VStr reason), (''auto_renew'', VBool False)] now) (subscriptions db)
    = Inr (with_key s_subscriptionId sid (cancelled_row reason t now) (subscriptions db))"
    unfolding with_key_def
    by (rule update_where_map)
      (simp add: subscription_set_row_def set_subscription_column_def column_defs cancelled_row_def assms)
  then show ?thesis by (simp add: subscription_update_def column_name_values subscription_columns_def)
qed

lemma run_find_subscription [run_simps]:
  "reliable E \<Longrightarrow> run (SubscriptionRepository_findBySubscriptionId E sid) w =
    (Inr (subscription_select sid (w_db w)), tick w)"
  by (simp add: SubscriptionRepository_findBySubscriptionId_def run_sql_reliable sql_effect_reading)

lemma cancelSubscription_run:
  assumes "reliable E" "subscription_select sid (w_db w) = Some s" "s_status s = ACTIVE"
    and "length reason \<le> 65535" "can_publish E (w_tick w + 4) sid (w_db w)"
  shows "\<exists>w'. run (cancelSubscription E sid reason) w = (Inr (), w') \<and>
    core w' = core (w\<lparr>w_db := add_event
      (publish_row E (w_tick w + 4) SUBSCRIPTION_CANCELLED sid ''Subscription''
        (SubscriptionCancelledPayload sid (clock E (w_tick w + 3)) reason) (w_db w))
      ((w_db w)\<lparr>subscriptions := with_key s_subscriptionId sid
        (cancelled_row reason (clock E (w_tick w + 1)) (sql_now (db_clock E (w_tick w + 2))))
        (subscriptions (w_db w))\<rparr>)\<rparr>) \<and>
    (handlers_of SUBSCRIPTION_CANCELLED w = [] \<longrightarrow> w_tick w' = w_tick w + 8)"
proof -
  let ?n = "w_tick w" and ?pl = "SubscriptionCancelledPayload sid (clock E (w_tick w + 3)) reason"
  let ?db = "(w_db w)\<lparr>subscriptions := with_key s_subscriptionId sid
        (cancelled_row reason (clock E (?n + 1)) (sql_now (db_clock E (?n + 2)))) (subscriptions (w_db w))\<rparr>"
  define w1 where "w1 = w\<lparr>w_tick := ?n + 4, w_db := ?db\<rparr>"
  have upd: "run (SubscriptionRepository_updateStatus E sid SUB_CANCELLED [(''cancelledAt'', VDate (clock E (Suc ?n))),
      (''cancelReason'', VStr reason), (''autoRenew'', VBool False)]) (tick (tick w))
    = (Inr (), (tick (tick (tick w)))\<lparr>w_db := ?db\<rparr>)"
    using subscription_update_cancelled [OF assms(4)]
    by (simp add: SubscriptionRepository_updateStatus_def run_sql_reliable [OF assms(1)] sql_effect_Inr eval_nat_numeral)
  have w1: "tick ((tick (tick (tick w)))\<lparr>w_db := ?db\<rparr>) = w1"
    by (simp add: tick_def w1_def eval_nat_numeral)
  have until: "run (cancelSubscription E sid reason) w =
      run (seq (publish E SUBSCRIPTION_CANCELLED sid ''Subscription'' ?pl) (\<lambda>_. Done ())) w1"
    using assms(2,3) by (simp add: cancelSubscription_def run_find_subscription [OF assms(1)] run_new_date run_seq
        run_basic upd w1 [simplified] eval_nat_numeral)
  have "can_publish E (w_tick w1) sid (w_db w1)" using assms(5) by (simp add: w1_def)
  from run_publish_done [OF assms(1) this, of "''Subscription''" SUBSCRIPTION_CANCELLED ?pl "()"]
  obtain w' where w': "run (cancelSubscription E sid reason) w = (Inr (), w')"
    "core w' = core (w1\<lparr>w_db := add_event (publish_row E (w_tick w1) SUBSCRIPTION_CANCELLED sid
       ''Subscription'' ?pl (w_db w1)) (w_db w1)\<rparr>)"
    "w' = snd (run (all_settled (map (\<lambda>h. projector_exec E h (published E SUBSCRIPTION_CANCELLED sid
       ''Subscription'' ?pl w1)) (handlers_of SUBSCRIPTION_CANCELLED w1)))
       (after_append E SUBSCRIPTION_CANCELLED sid ''Subscription'' ?pl w1))"
    unfolding until by auto
  have "core w' = core (w\<lparr>w_db := add_event (publish_row E (?n + 4) SUBSCRIPTION_CANCELLED sid
       ''Subscription'' ?pl (w_db w)) ?db\<rparr>)"
    unfolding w'(2) by (simp add: w1_def core_def add_event_def)
  moreover have "w_tick w' = ?n + 8" if "handlers_of SUBSCRIPTION_CANCELLED w = []"
  proof -
    have "handlers_of SUBSCRIPTION_CANCELLED w1 = []" using that by (simp add: handlers_of_def w1_def)
    then have "w' = after_append E SUBSCRIPTION_CANCELLED sid ''Subscription'' ?pl w1" unfolding w'(3) by simp
    then show ?thesis by (simp add: after_append_def w1_def)
  qed
  ultimately show ?thesis using w'(1) by blast
qed

text \<open>
  cancelSubscription of an ACTIVE subscription sets its status, the time and reason of the
  cancellation and turns auto-renewal off, changes no other row, and appends one
  SUBSCRIPTION_CANCELLED event.
\<close>

lemma cancelSubscription_active:
  assumes "reliable E" "subscription_select sid (w_db w) = Some s" "s_status s = ACTIVE"
    and "length reason \<le> 65535" "can_publish E (w_tick w + 4) sid (w_db w)"
  shows "\<exists>w'. run (cancelSubscription E sid reason) w = (Inr (), w') \<and>
    core w' = core (w\<lparr>w_db := add_event
      (publish_row E (w_tick w + 4) SUBSCRIPTION_CANCELLED sid ''Subscription''
        (SubscriptionCancelledPayload sid (clock E (w_tick w + 3)) reason) (w_db w))
      ((w_db w)\<lparr>subscriptions := with_key s_subscriptionId sid
        (cancelled_row reason (clock E (w_tick w + 1)) (sql_now (db_clock E (w_tick w + 2))))
        (subscriptions (w_db w))\<rparr>)\<rparr>)"
  using cancelSubscription_run [OF assms] by blast

lemma cancelSubscription_active_witness:
  "\<exists>w'. run (cancelSubscription calm ''S1'' ''too expensive'') (with_subscription ACTIVE True) = (Inr (), w') \<and>
    map s_status (subscriptions (w_db w')) = [SUB_CANCELLED]"
proof -
  let ?w = "with_subscription ACTIVE True"
  have "can_publish calm (w_tick ?w + 4) ''S1'' (w_db ?w)" by (simp add: can_publish_def)
  from cancelSubscription_active [OF calm_reliable _ _ _ this, of "sample_subscription ACTIVE True" "''too expensive''"]
  obtain w' where w': "run (cancelSubscription calm ''S1'' ''too expensive'') ?w = (Inr (), w')"
    "subscriptions (w_db w') = with_key s_subscriptionId ''S1'' (cancelled_row ''too expensive'' 0 0)
      (subscriptions (w_db ?w))"
    by (auto dest: core_eqD(2))
  then show ?thesis
    by (intro exI [of _ w']) (simp add: with_key_def cancelled_row_def sample_subscription_def)
qed

text \<open>
  Of a subscription that does not exist, cancelSubscription throws NotFoundError, and of one
  that is not ACTIVE, ConflictError; nothing is changed.
\<close>

lemma cancelSubscription_refused:
  assumes "reliable E" "\<forall>s. subscription_select sid (w_db w) = Some s \<longrightarrow> s_status s \<noteq> ACTIVE"
  shows "run (cancelSubscription E sid reason) w =
    (Inl (case subscription_select sid (w_db w) of
            None \<Rightarrow> NotFoundError ''Subscription'' sid
          | Some s \<Rightarrow> ConflictError (''Subscription '' @ sid @ '' is not active'')), tick w)"
  using assms by (auto simp: cancelSubscription_def run_seq run_find_subscription run_basic split: option.split)

lemma cancelSubscription_refused_witness:
  "fst (run (cancelSubscription calm ''S1'' ''again'') (with_subscription EXPIRED True)) =
    Inl (ConflictError ''Subscription S1 is not active'')"
  using cancelSubscription_refused [OF calm_reliable, of "''S1''" "with_subscription EXPIRED True" "''again''"] by simp

text \<open>
  C24: Every refusal of the subscription handler changes nothing: createSubscription throws
  ConflictError for a user who has an active subscription, in whatever order the database reads the
  rows, cancelSubscription throws NotFoundError for a subscription that does not exist and
  ConflictError for one that is not ACTIVE, and getSubscription throws NotFoundError.
\<close>

theorem subscription_refusals:
  assumes "reliable E" "reads_all E"
  shows "(active_of (cs_userId req) (w_db w) \<noteq> [] \<longrightarrow>
      run (createSubscription E req) w =
        (Inl (ConflictError (''User '' @ cs_userId req @ '' already has an active subscription'')), tick w)) \<and>
    ((\<forall>s. subscription_select sid (w_db w) = Some s \<longrightarrow> s_status s \<noteq> ACTIVE) \<longrightarrow>
      run (cancelSubscription E sid reason) w =
        (Inl (case subscription_select sid (w_db w) of
            None \<Rightarrow> NotFoundError ''Subscription'' sid
          | Some s \<Rightarrow> ConflictError (''Subscription '' @ sid @ '' is not active'')), tick w)) \<and>
    (subscription_select sid (w_db w) = None \<longrightarrow>
      run (getSubscription E sid) w = (Inl (NotFoundError ''Subscription'' sid), tick w))"
  using createSubscription_conflict [OF assms] cancelSubscription_refused [OF assms(1)]
  by (auto simp: getSubscription_def run_seq run_find_subscription [OF assms(1)] run_basic)

lemma subscription_refusals_witness:
  "fst (run (createSubscription calm (sample_plan_request ''ANNUAL'')) (with_subscription ACTIVE True)) =
      Inl (ConflictError ''User alice already has an active subscription'') \<and>
    fst (run (cancelSubscription calm ''S1'' ''again'') (with_subscription EXPIRED True)) =
      Inl (ConflictError ''Subscription S1 is not active'')"
proof -
  have "reads_all calm" by (simp add: reads_all_def)
  from subscription_refusals [OF calm_reliable this, of "sample_plan_request ''ANNUAL''" "with_subscription ACTIVE True"]
    subscription_refusals [OF calm_reliable this, of _ "with_subscription EXPIRED True" "''S1''" "''again''"]
  show ?thesis by (simp add: active_of_def sample_plan_request_def)
qed

end
