(* ===== verification/AutopayLaws.thy ===== *)
theory AutopayLaws
  imports SubscriptionLaws
begin

text \<open>
  The renewal worker, running alone with no call failing: which jobs it skips, what a renewal
  does, when a failed job goes to the dead letter queue, and what the scan enqueues.
\<close>

section \<open>Skipping and expiring\<close>

lemma processRenewal_renew:
  "job_name job \<noteq> ''scan-expired'' \<Longrightarrow> processRenewal E job =
    (let d = job_data job in
     seq (SubscriptionRepository_findBySubscriptionId E (rj_subscriptionId d)) (\<lambda>found.
     case found of
       None \<Rightarrow> Done ()
     | Some subscription \<Rightarrow>
         if s_status subscription \<noteq> ACTIVE then Done ()
         else if \<not> s_autoRenew subscription then
           seq (SubscriptionRepository_updateStatus E (rj_subscriptionId d) EXPIRED []) (\<lambda>_.
           seq (new_date E) (\<lambda>expiredAt.
           seq (publish E SUBSCRIPTION_EXPIRED (rj_subscriptionId d) ''Subscription''
                 (SubscriptionExpiredPayload (rj_subscriptionId d) expiredAt)) (\<lambda>_.
           Done ())))
         else catch (renew_body E d subscription) (on_renewal_error E job)))"
  by (simp add: processRenewal_def)

text \<open>
  A renewal job whose subscription is gone or no longer active ends without an error and
  without changing anything.
\<close>

lemma processRenewal_skips:
  assumes "reliable E" "job_name job \<noteq> ''scan-expired''"
    and "\<forall>s. subscription_select (rj_subscriptionId (job_data job)) (w_db w) = Some s \<longrightarrow> s_status s \<noteq> ACTIVE"
  shows "run (processRenewal E job) w = (Inr (), tick w)"
  using assms(3) by (auto simp: processRenewal_renew [OF assms(2)] run_seq run_find_subscription [OF assms(1)]
      run_basic Let_def split: option.split)

lemma processRenewal_skips_witness:
  "run (processRenewal calm (sample_job 0)) (with_subscription SUB_CANCELLED False) =
    (Inr (), tick (with_subscription SUB_CANCELLED False))"
  using processRenewal_skips [OF calm_reliable, of "sample_job 0" "with_subscription SUB_CANCELLED False"]
  by (simp add: sample_job_def)

lemma run_processRenewal_active:
  assumes "reliable E" "job_name job \<noteq> ''scan-expired''"
    and "subscription_select (rj_subscriptionId (job_data job)) (w_db w) = Some s"
    and "s_status s = ACTIVE" "s_autoRenew s"
  shows "run (processRenewal E job) w =
    run (catch (renew_body E (job_data job) s) (on_renewal_error E job)) (tick w)"
  using assms(3-5) by (simp add: processRenewal_renew [OF assms(2)] run_seq run_find_subscription [OF assms(1)]
      run_basic Let_def)

section \<open>Failures\<close>

definition dead_letter_call :: "env \<Rightarrow> job \<Rightarrow> js_error \<Rightarrow> date \<Rightarrow> queue \<Rightarrow> job_call" where
  "dead_letter_call E job e now q = \<lparr>jc_queue = q, jc_name = ''failed-renewal'',
     jc_data = dead_letter E job e now, jc_options = no_options\<rparr>"

lemma failed_attempt:
  assumes "reliable E" "job_name job \<noteq> ''scan-expired''"
    and "subscription_select (rj_subscriptionId (job_data job)) (w_db w) = Some s"
    and "s_status s = ACTIVE" "s_autoRenew s"
    and "run (renew_body E (job_data job) s) (tick w) = (Inl e, w1)"
  shows "\<exists>w2. run (processRenewal E job) w = (Inl e, w2) \<and> w_db w2 = w_db w1 \<and>
    (if last_attempt job
     then \<exists>q. getQueue DEAD_LETTER w2 = Some q \<and> w_jobs w2 = w_jobs w1 @ [dead_letter_call E job e (clock E (w_tick w1)) q]
     else w2 = w1)"
proof (cases "last_attempt job")
  case False
  with assms(6) show ?thesis
    by (simp add: run_processRenewal_active [OF assms(1-5)] run_catch on_renewal_error_def run_basic)
next
  case True
  obtain q w2 where q: "run (getOrCreateQueue DEAD_LETTER) w1 = (Inr q, w2)"
    using getOrCreateQueue_returns by blast
  from getOrCreateQueue_frame [OF q] getOrCreateQueue_same(2) [OF q] True assms(6) show ?thesis
    by (auto simp: run_processRenewal_active [OF assms(1-5)] run_catch on_renewal_error_def run_basic
        run_seq q run_new_date run_queue_add [OF assms(1)] dead_letter_call_def getQueue_def)
qed

text \<open>
  While the key of an earlier payment for the same user and plan is live, a renewal can only
  fail: an attempt that got as far as setting the key cannot be repeated within the hour.
\<close>

lemma renew_body_blocked:
  assumes "reliable E" "live_order E (renewal_request d) w = Some on"
  shows "run (renew_body E d s) w = (Inl (DuplicatePaymentError on), tick (tick (tick w)))"
  by (simp add: renew_body_def run_seq createPayment_duplicate [OF assms])

text \<open>
  C19: How an attempt at a renewal job fails, in any environment, once the subscription was read and
  found to be renewed. An attempt that is not the last one allowed (three if the job names no number)
  fails with the error of its body, so that BullMQ retries it, and enqueues nothing. The last attempt
  adds one dead letter to the dead letter queue, with the job, its id and data, the message of
  the error and the number of attempts, and then fails with that error; only if the dead letter
  queue cannot be reached does it fail with the error of that call instead, and the letter is lost
  unless the call took effect.
\<close>

theorem processRenewal_fails:
  assumes "job_name job \<noteq> ''scan-expired''"
    and "run (SubscriptionRepository_findBySubscriptionId E (rj_subscriptionId (job_data job))) w = (Inr (Some s), v)"
    and "s_status s = ACTIVE" "s_autoRenew s"
    and "run (renew_body E (job_data job) s) v = (Inl e, w1)"
    and "n = (case job_attempts job of None \<Rightarrow> 3 | Some k \<Rightarrow> if k = 0 then 3 else k)"
    and "reason = (case e of AppErr a \<Rightarrow> err_message a | PlainError m \<Rightarrow> m | SqlErr x \<Rightarrow> driver_message E x
      | Unavailable m \<Rightarrow> m)"
  shows "\<exists>r w2. run (processRenewal E job) w = (Inl r, w2) \<and> w_db w2 = w_db w1 \<and> w_redis w2 = w_redis w1 \<and>
    (if job_attemptsMade job + 1 < n then r = e \<and> w_jobs w2 = w_jobs w1
     else \<exists>q letter. getQueue DEAD_LETTER w2 = Some q \<and>
       letter = \<lparr>jc_queue = q, jc_name = ''failed-renewal'', jc_data = DeadLetterJob
           \<lparr>dl_originalQueue = ''subscription-renewal'', dl_originalJobId = job_id job, dl_data = job_data job,
            dl_failedReason = reason, dl_attemptsMade = job_attemptsMade job + 1, dl_failedAt = clock E (w_tick w1)\<rparr>,
         jc_options = \<lparr>jo_attempts = None, jo_backoff = None, jo_repeatEvery = None, jo_jobId = None\<rparr>\<rparr> \<and>
       (case fault E (w_tick w1 + 1) of
          NoFault \<Rightarrow> r = e \<and> w_jobs w2 = w_jobs w1 @ [letter]
        | NotApplied m \<Rightarrow> r = Unavailable m \<and> w_jobs w2 = w_jobs w1
        | AppliedButLost m \<Rightarrow> r = Unavailable m \<and> w_jobs w2 = w_jobs w1 @ [letter]))"
proof -
  have run: "run (processRenewal E job) w = run (on_renewal_error E job e) w1"
    using assms(2-5) by (simp add: processRenewal_renew [OF assms(1)] run_seq run_catch Let_def)
  have last: "last_attempt job \<longleftrightarrow> \<not> job_attemptsMade job + 1 < n"
    unfolding last_attempt_def assms(6) by (auto split: option.split)
  show ?thesis
  proof (cases "last_attempt job")
    case False
    with last show ?thesis by (simp add: run on_renewal_error_def run_basic)
  next
    case True
    obtain q w2 where q: "run (getOrCreateQueue DEAD_LETTER) w1 = (Inr q, w2)"
      using getOrCreateQueue_returns by blast
    have "message_of E e = reason" unfolding assms(7) message_of_def ..
    with True last getOrCreateQueue_frame [OF q] getOrCreateQueue_same(2) [OF q] show ?thesis
      by (auto simp: run on_renewal_error_def run_seq q run_new_date queue_add_def run_remote run_basic getQueue_def
          dead_letter_def no_options_def split: fault.split)
  qed
qed

lemma processRenewal_fails_witness:
  "\<exists>w w2 letter. run (processRenewal calm (sample_job 2)) w = (Inl (DuplicatePaymentError ''O0''), w2) \<and>
    w_jobs w2 = w_jobs w @ [letter] \<and> jc_name letter = ''failed-renewal''"
proof -
  let ?d = "job_data (sample_job 2)" and ?e = "DuplicatePaymentError ''O0''"
  let ?w = "(with_subscription ACTIVE True)\<lparr>w_redis := [RSet 0 (key_of (renewal_request ?d)) ''O0'' None]\<rparr>"
  have "live_order calm (renewal_request ?d) (tick ?w) = Some ''O0''"
    by (simp add: live_order_def ttl_reply_def)
  from renew_body_blocked [OF calm_reliable this]
  have body: "run (renew_body calm ?d (sample_subscription ACTIVE True)) (tick ?w) =
    (Inl ?e, tick (tick (tick (tick ?w))))" .
  have find: "run (SubscriptionRepository_findBySubscriptionId calm (rj_subscriptionId ?d)) ?w =
      (Inr (Some (sample_subscription ACTIVE True)), tick ?w)"
    by (simp add: run_find_subscription [OF calm_reliable] sample_job_def)
  have "job_name (sample_job 2) \<noteq> ''scan-expired''" by (simp add: sample_job_def)
  from processRenewal_fails [OF this find _ _ body refl refl]
  obtain w2 letter where "run (processRenewal calm (sample_job 2)) ?w = (Inl ?e, w2)"
    "w_jobs w2 = w_jobs ?w @ [letter]" "jc_name letter = ''failed-renewal''"
    by (auto simp: sample_job_def calm_reliable [unfolded reliable_def])
  then show ?thesis by blast
qed

text \<open>
  A renewal attempt that failed after its payment was created cannot succeed on a retry
  within the hour: the retry is refused by the idempotency key of its own first attempt and
  changes nothing in the database.
\<close>

lemma renewal_retry_blocked:
  assumes "reliable E" "redis_ok E" "run (createPayment E (renewal_request (job_data job))) w = (Inr on, w1)"
    and "w_redis w2 = w_redis w1 @ later" "key_of (renewal_request (job_data job)) \<notin> redis_key ` set later"
    and "clock E (w_tick w2 + 3) < clock E (w_tick w + 4) + 3600 * 1000"
    and "job_name job \<noteq> ''scan-expired''"
    and "subscription_select (rj_subscriptionId (job_data job)) (w_db w2) = Some s"
    and "s_status s = ACTIVE" "s_autoRenew s"
  shows "\<exists>w3. run (processRenewal E job) w2 = (Inl (DuplicatePaymentError on), w3) \<and> w_db w3 = w_db w2"
proof -
  let ?req = "renewal_request (job_data job)"
  have "run (createPayment E ?req) (tick w2) = (Inl (DuplicatePaymentError on), tick (tick (tick (tick w2))))"
    by (rule duplicate_within_ttl [OF assms(1-3), where later = later])
      (use assms(4-6) in \<open>simp_all add: eval_nat_numeral\<close>)
  then have "run (renew_body E (job_data job) s) (tick w2) = (Inl (DuplicatePaymentError on), tick (tick (tick (tick w2))))"
    by (simp add: renew_body_def run_seq)
  from failed_attempt [OF assms(1,7-10) this] show ?thesis by auto
qed

lemma renewal_retry_blocked_witness:
  "\<exists>w1 w3. run (processRenewal calm (sample_job 1)) (w1\<lparr>w_db := w_db (with_subscription ACTIVE True)\<rparr>) =
    (Inl (DuplicatePaymentError (order_in calm booted)), w3)"
proof -
  let ?req = "renewal_request (job_data (sample_job 1))"
  have "live_order calm ?req booted = None" "can_insert (order_in calm booted) ?req (w_db booted)"
    "can_publish calm (w_tick booted + 5) (order_in calm booted) (w_db booted)"
    by (simp_all add: sample_job_def live_order_def ttl_reply_def can_insert_def can_publish_def order_in_def
        order_number_def renewal_request_def currency_of_def decimal_ok_def payment_select_def renewal_amount_def won_def)
  from createPayment_run [OF calm_reliable this]
  obtain w1 where w1: "run (createPayment calm ?req) booted = (Inr (order_in calm booted), w1)" by blast
  from renewal_retry_blocked [OF calm_reliable calm_redis_ok w1,
      of "w1\<lparr>w_db := w_db (with_subscription ACTIVE True)\<rparr>" "[]" "sample_subscription ACTIVE True"]
  show ?thesis by (auto simp: sample_job_def)
qed

section \<open>The scan\<close>

text \<open>
  What the scan reads in \<open>w\<close> if the call succeeds, and its meaning: the \<open>n\<close> rows with the oldest
  end dates among those that are due.
\<close>

definition expired_batch :: "env \<Rightarrow> world \<Rightarrow> subscription list" where
  "expired_batch E w = (case fst (run (SubscriptionRepository_findExpiredForRenewal E (Some 50)) w) of
     Inr batch \<Rightarrow> batch | Inl _ \<Rightarrow> [])"

definition oldest_due :: "nat \<Rightarrow> date \<Rightarrow> subscription list \<Rightarrow> subscription list \<Rightarrow> bool" where
  "oldest_due n now rows batch \<longleftrightarrow>
     (let due = filter (\<lambda>s. s_status s = ACTIVE \<and> s_autoRenew s \<and> s_endDate s \<le> now) rows
      in mset batch \<subseteq># mset due \<and> length batch = min n (length due) \<and> sorted (map s_endDate batch) \<and>
         (\<forall>b \<in># mset batch. \<forall>s \<in># mset due - mset batch. s_endDate b \<le> s_endDate s))"

lemma oldest_due_take:
  assumes "mset rows' = mset rows"
  shows "oldest_due n now rows (take n (sort_key s_endDate (filter (due_for_renewal now) rows')))"
proof -
  let ?all = "sort_key s_endDate (filter (due_for_renewal now) rows')"
  have due: "filter (\<lambda>s. s_status s = ACTIVE \<and> s_autoRenew s \<and> s_endDate s \<le> now) = filter (due_for_renewal now)"
    by (simp add: due_for_renewal_def [abs_def])
  have all: "mset ?all = mset (filter (due_for_renewal now) rows)" by (simp add: mset_filter assms)
  then have split: "mset (filter (due_for_renewal now) rows) = mset (take n ?all) + mset (drop n ?all)"
    by (metis append_take_drop_id mset_append)
  have "sorted (map s_endDate (take n ?all) @ map s_endDate (drop n ?all))"
    by (metis append_take_drop_id map_append sorted_sort_key)
  then have sorted: "sorted (map s_endDate (take n ?all))"
    "\<forall>b \<in> set (take n ?all). \<forall>s \<in> set (drop n ?all). s_endDate b \<le> s_endDate s"
    unfolding sorted_append by simp_all
  have "length ?all = length (filter (due_for_renewal now) rows)" using all by (rule mset_eq_length)
  then have "length (take n ?all) = min n (length (filter (due_for_renewal now) rows))" by simp
  moreover have "mset (filter (due_for_renewal now) rows) - mset (take n ?all) = mset (drop n ?all)"
    by (simp only: split add_diff_cancel_left')
  moreover have "mset (take n ?all) \<subseteq># mset (filter (due_for_renewal now) rows)"
    by (simp only: split mset_subset_eq_add_left)
  ultimately show ?thesis using sorted unfolding oldest_due_def Let_def due by simp
qed

lemma oldest_due_rows:
  "oldest_due n now rows batch \<Longrightarrow>
    set batch \<subseteq> {s \<in> set rows. s_status s = ACTIVE \<and> s_autoRenew s \<and> s_endDate s \<le> now}"
  using set_mset_mono [of "mset batch"] by (fastforce simp: oldest_due_def Let_def)

lemma run_findExpired_limit:
  "reliable E \<Longrightarrow> 0 \<le> n \<Longrightarrow> n = (case limit of None \<Rightarrow> 50 | Some l \<Rightarrow> l) \<Longrightarrow>
    run (SubscriptionRepository_findExpiredForRenewal E limit) w =
    (Inr (take (nat n) (sort_key s_endDate (filter (due_for_renewal (sql_now (db_clock E (w_tick w))))
      (subscription_order E (w_tick w) (subscriptions (w_db w)))))), tick w)"
  by (simp add: SubscriptionRepository_findExpiredForRenewal_def run_sql_reliable sql_effect_def
      reading_page_def sql_page_def default_to_def split: option.split)

lemma run_findExpired:
  "reliable E \<Longrightarrow> run (SubscriptionRepository_findExpiredForRenewal E (Some 50)) w = (Inr (expired_batch E w), tick w)"
  using run_findExpired_limit [of E 50 "Some 50" w] by (simp add: expired_batch_def)

lemma expired_batch_eq:
  "reliable E \<Longrightarrow> expired_batch E w = take 50 (sort_key s_endDate (filter (due_for_renewal (sql_now (db_clock E (w_tick w))))
    (subscription_order E (w_tick w) (subscriptions (w_db w)))))"
  using run_findExpired_limit [of E 50 "Some 50" w] by (simp add: expired_batch_def)

text \<open>The job of one row of the batch.\<close>

definition renewal_call :: "env \<Rightarrow> queue \<Rightarrow> subscription \<Rightarrow> job_call \<Rightarrow> bool" where
  "renewal_call E q s j \<longleftrightarrow> jc_queue j = q \<and> jc_name j = ''renew'' \<and>
     jc_data j = RenewalJob \<lparr>rj_subscriptionId = s_subscriptionId s, rj_userId = s_userId s,
       rj_planId = s_planId s, rj_plan = (if s_plan s = MONTHLY then ''MONTHLY'' else ''ANNUAL'')\<rparr> \<and>
     (\<exists>n. jc_options j = \<lparr>jo_attempts = Some 3, jo_backoff = Some 5000, jo_repeatEvery = None,
       jo_jobId = Some (''renew-'' @ s_subscriptionId s @ ''-'' @ show_int (clock E n))\<rparr>)"

lemma renewal_call_data: "renewal_call E q s j \<Longrightarrow> jc_data j = renewal_job s"
  by (cases "s_plan s") (simp_all add: renewal_call_def renewal_job_def)

lemma run_enqueue_renewals:
  assumes "reliable E"
  shows "\<exists>w' js. run (enqueue_renewals E q subs) w = (Inr (), w') \<and> w_jobs w' = w_jobs w @ js \<and>
    w_db w' = w_db w \<and> w_queues w' = w_queues w \<and> w_redis w' = w_redis w \<and> w_handlers w' = w_handlers w \<and>
    list_all2 (renewal_call E q) subs js"
proof (induction subs arbitrary: w)
  case Nil
  show ?case by (simp add: run_basic)
next
  case (Cons s subs)
  let ?opts = "renew_job_options (''renew-'' @ s_subscriptionId s @ ''-'' @ show_int (clock E (w_tick w)))"
  let ?j = "\<lparr>jc_queue = q, jc_name = ''renew'', jc_data = renewal_job s, jc_options = ?opts\<rparr>"
  let ?w1 = "(tick (tick w))\<lparr>w_jobs := w_jobs w @ [?j]\<rparr>"
  from Cons.IH [of ?w1] obtain w' js where w': "run (enqueue_renewals E q subs) ?w1 = (Inr (), w')"
    "w_jobs w' = w_jobs ?w1 @ js" "w_db w' = w_db ?w1" "w_queues w' = w_queues ?w1" "w_redis w' = w_redis ?w1"
    "w_handlers w' = w_handlers ?w1" "list_all2 (renewal_call E q) subs js" by blast
  from w'(1) have "run (enqueue_renewals E q (s # subs)) w = (Inr (), w')"
    by (simp add: run_seq run_new_date run_queue_add [OF assms])
  moreover have "w_jobs w' = w_jobs w @ (?j # js)" using w'(2) by simp
  moreover have "renewal_call E q s ?j"
    by (cases "s_plan s") (auto simp: renewal_call_def renewal_job_def renew_job_options_def no_options_def)
  ultimately show ?case using w'(3-7)
    by (intro exI [of _ w'] exI [of _ "?j # js"]) simp
qed

text \<open>
  The scan adds one renew job with three attempts for each subscription of the expired
  batch, in its order, to the renewal queue, and changes nothing in the database.
\<close>

lemma scan_enqueues_batch:
  assumes "reliable E"
  shows "\<exists>w' js q. run (scanAndEnqueueExpired E) w = (Inr (), w') \<and> w_jobs w' = w_jobs w @ js \<and>
    w_db w' = w_db w \<and> w_redis w' = w_redis w \<and> w_handlers w' = w_handlers w \<and>
    getQueue SUBSCRIPTION_RENEWAL w' = Some q \<and> list_all2 (renewal_call E q) (expired_batch E w) js"
proof -
  obtain q w1 where q: "run (getOrCreateQueue SUBSCRIPTION_RENEWAL) (tick w) = (Inr q, w1)"
    using getOrCreateQueue_returns by blast
  from run_enqueue_renewals [OF assms, of q "expired_batch E w" w1]
  obtain w' js where w': "run (enqueue_renewals E q (expired_batch E w)) w1 = (Inr (), w')"
    "w_jobs w' = w_jobs w1 @ js" "w_db w' = w_db w1" "w_queues w' = w_queues w1"
    "w_redis w' = w_redis w1" "w_handlers w' = w_handlers w1" "list_all2 (renewal_call E q) (expired_batch E w) js" by blast
  have "run (scanAndEnqueueExpired E) w = (Inr (), w')"
    by (simp add: scanAndEnqueueExpired_def run_seq run_findExpired [OF assms] q w'(1))
  with w' getOrCreateQueue_frame [OF q] getOrCreateQueue_same(2) [OF q] show ?thesis
    by (intro exI [of _ w'] exI [of _ js] exI [of _ q]) (simp add: getQueue_def)
qed

text \<open>
  C31: Which subscriptions the scan takes. The query with a limit of n (fifty if none is given)
  returns, oldest end date first, the n rows with the oldest end dates among those that are
  ACTIVE, renew automatically and are past their end date, all of them if there are no more than n;
  and the scan, which asks for fifty, adds for each row of its answer, in that order, one renew job
  to the renewal queue, with the ids and the plan of the row, three attempts and a backoff
  of 5000 ms, and changes nothing in the database.
\<close>

theorem scan_takes_oldest_due:
  assumes "reliable E" "reads_all E" "0 \<le> n" "n = (case limit of None \<Rightarrow> 50 | Some l \<Rightarrow> l)"
    and "now = sql_now (db_clock E (w_tick w))"
  shows "(\<exists>batch. run (SubscriptionRepository_findExpiredForRenewal E limit) w = (Inr batch, tick w) \<and>
      oldest_due (nat n) now (subscriptions (w_db w)) batch) \<and>
    (\<exists>w' batch js q. run (scanAndEnqueueExpired E) w = (Inr (), w') \<and> w_db w' = w_db w \<and>
      oldest_due 50 now (subscriptions (w_db w)) batch \<and> w_jobs w' = w_jobs w @ js \<and>
      getQueue SUBSCRIPTION_RENEWAL w' = Some q \<and> list_all2 (renewal_call E q) batch js)"
proof -
  let ?rows = "subscription_order E (w_tick w) (subscriptions (w_db w))"
  have due: "oldest_due k now (subscriptions (w_db w)) (take k (sort_key s_endDate (filter (due_for_renewal now) ?rows)))" for k
    using assms(2) by (intro oldest_due_take) (simp add: reads_all_def)
  have "oldest_due 50 now (subscriptions (w_db w)) (expired_batch E w)"
    unfolding expired_batch_eq [OF assms(1)] assms(5) [symmetric] by (rule due)
  moreover have "\<exists>batch. run (SubscriptionRepository_findExpiredForRenewal E limit) w = (Inr batch, tick w) \<and>
      oldest_due (nat n) now (subscriptions (w_db w)) batch"
    using run_findExpired_limit [OF assms(1,3,4), of w] due [of "nat n"] unfolding assms(5) by blast
  ultimately show ?thesis using scan_enqueues_batch [OF assms(1), of w] by blast
qed

text \<open>Three subscriptions of which two are due, read with a limit of one.\<close>

definition three_subscriptions :: world where
  "three_subscriptions = booted\<lparr>w_db := empty_db\<lparr>subscriptions :=
     [(sample_subscription ACTIVE True)\<lparr>s_endDate := - 1000\<rparr>,
      (sample_subscription ACTIVE True)\<lparr>s_id := 2, s_subscriptionId := ''S2'', s_endDate := - 2000\<rparr>,
      (sample_subscription ACTIVE False)\<lparr>s_id := 3, s_subscriptionId := ''S3'', s_endDate := - 3000\<rparr>]\<rparr>\<rparr>"

lemma scan_takes_oldest_due_witness:
  "(\<exists>s. run (SubscriptionRepository_findExpiredForRenewal calm (Some 1)) three_subscriptions =
      (Inr [s], tick three_subscriptions) \<and> s_autoRenew s) \<and>
    (\<exists>w' js. run (scanAndEnqueueExpired calm) three_subscriptions = (Inr (), w') \<and>
      w_jobs w' = w_jobs three_subscriptions @ js \<and> length js = 2)"
proof -
  have "reads_all calm" by (simp add: reads_all_def)
  from scan_takes_oldest_due [OF calm_reliable this, of 1 "Some 1" _ three_subscriptions, OF _ _ refl]
  obtain batch w' batch' js q where
    one: "run (SubscriptionRepository_findExpiredForRenewal calm (Some 1)) three_subscriptions = (Inr batch, tick three_subscriptions)"
      "oldest_due 1 0 (subscriptions (w_db three_subscriptions)) batch" and
    scan: "run (scanAndEnqueueExpired calm) three_subscriptions = (Inr (), w')" "w_jobs w' = w_jobs three_subscriptions @ js"
      "oldest_due 50 0 (subscriptions (w_db three_subscriptions)) batch'" "list_all2 (renewal_call calm q) batch' js"
    by (auto simp: sql_now_def)
  have "length batch = 1" using one(2)
    by (simp add: oldest_due_def three_subscriptions_def sample_subscription_def)
  moreover have "\<forall>s \<in> set batch. s_autoRenew s" using oldest_due_rows [OF one(2)] by blast
  moreover have "length js = 2" using scan(3) list_all2_lengthD [OF scan(4)]
    by (simp add: oldest_due_def three_subscriptions_def sample_subscription_def)
  ultimately show ?thesis using one(1) scan(1,2) by (auto simp: length_Suc_conv)
qed

section \<open>A renewal that goes through\<close>

text \<open>
  What the event log needs for a renewal whose payment is created in \<open>w\<close>: three fresh event
  ids, no events of the new order, and room for one more version of the subscription.
\<close>

definition can_charge :: "env \<Rightarrow> string \<Rightarrow> world \<Rightarrow> bool" where
  "can_charge E on w \<longleftrightarrow>
     (let ids = [uuid E (w_tick w + 6), uuid E (w_tick w + 16)]
      in distinct ids \<and> list_all (\<lambda>u. length u \<le> 36 \<and> u \<notin> se_eventId ` set (event_store (w_db w))) ids \<and>
         events_of on (w_db w) = [] \<and> length (show_int (clock E (w_tick w + 10))) \<le> 100)"

definition can_renew :: "env \<Rightarrow> string \<Rightarrow> world \<Rightarrow> bool" where
  "can_renew E sid w \<longleftrightarrow> can_charge E (order_in E w) w \<and> sid \<noteq> order_in E w \<and>
     uuid E (w_tick w + 22) \<notin> {uuid E (w_tick w + 6), uuid E (w_tick w + 16)} \<and>
     can_publish E (w_tick w + 21) sid (w_db w)"

lemma with_key_new_row:
  assumes "find_row key k rows = None" "key r = k"
  shows "with_key key k g (rows @ [r]) = rows @ [g r]"
proof -
  from assms(1) have "key x \<noteq> k" if "x \<in> set rows" for x using that by (auto simp: find_row_None)
  then have "map (\<lambda>x. if key x = k then g x else x) rows = rows" by (intro map_idI) simp
  with assms(2) show ?thesis by (simp add: with_key_def)
qed

lemma subscription_renew_with_key:
  "subscription_renew sid newEnd now db =
    Inr ((), db\<lparr>subscriptions := with_key s_subscriptionId sid (renew_row newEnd now) (subscriptions db)\<rparr>)"
proof -
  have "update_where (\<lambda>r. s_subscriptionId r = sid) (\<lambda>r. Inr (renew_row newEnd now r)) (subscriptions db)
      = Inr (with_key s_subscriptionId sid (renew_row newEnd now) (subscriptions db))"
    unfolding with_key_def by (rule update_where_map) simp
  then show ?thesis by (simp add: subscription_renew_def)
qed

lemma latest_version_next:
  assumes "event_store db' = event_store db @ [r]" "se_aggregateId r = a" "se_version r = latest_version a db + 1"
  shows "latest_version a db' = latest_version a db + 1"
proof (cases "versions_of a db = []")
  case True
  then have "events_of a db = []" by (simp add: versions_of_def)
  with assms show ?thesis by (simp add: latest_version_def events_of_def)
next
  case False
  then have "latest_version a db = Max (set (versions_of a db))" by (simp add: event_log.latest_versions)
  moreover have "versions_of a db' = versions_of a db @ [latest_version a db + 1]"
    using assms by (simp add: versions_of_def events_of_def)
  ultimately show ?thesis using False by (simp add: event_log.latest_versions)
qed

lemma latest_version_events: "event_store db' = event_store db \<Longrightarrow> latest_version a db' = latest_version a db"
  unfolding latest_version_def events_of_def by (erule ssubst) (rule refl)

lemma latest_version_add_other:
  "se_aggregateId r \<noteq> a \<Longrightarrow> event_store db' = event_store db @ [r] \<Longrightarrow> latest_version a db' = latest_version a db"
  by (simp add: latest_version_def events_of_def)

lemma latest_version_add_first:
  "events_of a db = [] \<Longrightarrow> se_aggregateId r = a \<Longrightarrow> event_store db' = event_store db @ [r] \<Longrightarrow>
    latest_version a db' = se_version r"
  by (simp add: latest_version_def events_of_def)

lemma publish_row_simps [simp]:
  "se_eventId (publish_row E n ty a aty payload db) = uuid E (n + 1)"
  "se_eventType (publish_row E n ty a aty payload db) = event_type_str ty"
  "se_aggregateId (publish_row E n ty a aty payload db) = a"
  "se_payload (publish_row E n ty a aty payload db) = json_of_payload payload"
  "se_version (publish_row E n ty a aty payload db) = latest_version a db + 1"
  by (simp_all add: publish_row_def)

text \<open>The charge: the payment is created and completed.\<close>

lemma charge_run:
  assumes "reliable E" "live_order E req w = None" "on = order_in E w" "can_insert on req (w_db w)"
    and "can_charge E on w" "handlers_of PAYMENT_CREATED w = []"
    and "handlers_of PAYMENT_COMPLETED w = [OnPaymentCompleted]"
    and "txn = ''TXN-RENEW-'' @ show_int (clock E (w_tick w + 10))"
  shows "\<exists>w1 w2 p r1 r2. run (createPayment E req) w = (Inr on, w1) \<and> w_tick w1 = w_tick w + 10 \<and>
    run (completePayment E \<lparr>co_orderNumber = on, co_transactionId = txn, co_paidAmount = amount\<rparr>) (tick w1) = (Inr (), w2) \<and>
    payments (w_db w2) = payments (w_db w) @ [p] \<and> p_status p = COMPLETED \<and>
    (p_orderNumber p, p_userId p, p_productId p, p_amount p) = (on, cp_userId req, cp_productId req, cp_amount req) \<and>
    subscriptions (w_db w2) = subscriptions (w_db w) \<and> event_store (w_db w2) = event_store (w_db w) @ [r1, r2] \<and>
    map (\<lambda>r. (se_eventType r, se_aggregateId r, se_eventId r)) [r1, r2] =
      [(''PAYMENT_CREATED'', on, uuid E (w_tick w + 6)), (''PAYMENT_COMPLETED'', on, uuid E (w_tick w + 16))] \<and>
    w_handlers w2 = w_handlers w \<and> w_tick w2 = w_tick w + 20 \<and>
    w_redis w2 = w_redis w @ [RSet (w_tick w + 4) (key_of req) on (Some 3600)]"
proof -
  let ?n = "w_tick w"
  let ?p0 = "new_row on req (sql_now (db_clock E (?n + 3))) (w_db w)"
  let ?r1 = "publish_row E (?n + 5) PAYMENT_CREATED on ''Payment'' (created_payload on req) (w_db w)"
  let ?creq = "\<lparr>co_orderNumber = on, co_transactionId = txn, co_paidAmount = amount\<rparr>"
  let ?p1 = "completed_row txn (clock E (?n + 12)) (sql_now (db_clock E (?n + 13))) ?p0"
  note ids = assms(5) [unfolded can_charge_def Let_def, simplified]
  have noev: "events_of on (w_db w) = []" using ids by simp
  have len: "length on \<le> 64" and new: "find_row p_orderNumber on (payments (w_db w)) = None"
    using assms(4) by (simp_all add: can_insert_def payment_select_def)
  have v0: "latest_version on (w_db w) = 0" using noev by (simp add: latest_version_def)
  have "can_publish E (?n + 5) (order_in E w) (w_db w)"
    using ids len v0 assms(3) by (simp add: can_publish_def eval_nat_numeral)
  from createPayment_run [OF assms(1,2) _ this] assms(3,4,6) obtain w1 where
    create: "run (createPayment E req) w = (Inr on, w1)"
    and w1: "payments (w_db w1) = payments (w_db w) @ [?p0]" "subscriptions (w_db w1) = subscriptions (w_db w)"
      "event_store (w_db w1) = event_store (w_db w) @ [?r1]" "w_handlers w1 = w_handlers w" "w_tick w1 = ?n + 10"
      "w_redis w1 = w_redis w @ [RSet (?n + 4) (key_of req) on (Some 3600)]"
    by auto
  have p0: "p_orderNumber ?p0 = on" "p_status ?p0 = PENDING"
    by (simp_all add: new_row_def payment_data.extend_def new_payment_def)
  have v1: "latest_version on (w_db w1) = 1"
    using latest_version_add_first [OF noev _ w1(3)] v0 by simp
  have sel: "payment_select (co_orderNumber ?creq) (w_db (tick w1)) = Some ?p0"
    using w1(1) new p0(1) by (simp add: payment_select_def find_row_append)
  have txn: "length (co_transactionId ?creq) \<le> 128" using ids assms(8) by simp
  have "can_publish E (w_tick (tick w1) + 4) (co_orderNumber ?creq) (w_db (tick w1))"
    using ids len v1 w1(3,5) by (auto simp: can_publish_def eval_nat_numeral)
  from completePayment_run [OF assms(1) sel p0(2) txn this] obtain w2 r2 where
    complete: "run (completePayment E ?creq) (tick w1) = (Inr (), w2)"
    and core2: "core w2 = core ((tick w1)\<lparr>w_db := add_event r2 ((w_db w1)\<lparr>payments := with_key p_orderNumber on
      (completed_row txn (clock E (w_tick w1 + 2)) (sql_now (db_clock E (w_tick w1 + 3)))) (payments (w_db w1))\<rparr>)\<rparr>)"
    and r2: "se_eventType r2 = ''PAYMENT_COMPLETED''" "se_aggregateId r2 = on" "se_eventId r2 = uuid E (w_tick w1 + 6)"
    and tick2: "w_tick w2 = w_tick w1 + 10"
    using assms(7) w1(4) by (auto simp: handlers_of_def eval_nat_numeral)
  have "w_tick w1 + 6 = ?n + 16" using w1(5) by simp
  note r2 = r2 [unfolded this]
  have "payments (w_db w2) = payments (w_db w) @ [?p1]" "subscriptions (w_db w2) = subscriptions (w_db w)"
      "event_store (w_db w2) = event_store (w_db w) @ [?r1, r2]" "w_handlers w2 = w_handlers w" "w_tick w2 = ?n + 20"
      "w_redis w2 = w_redis w @ [RSet (?n + 4) (key_of req) on (Some 3600)]"
    using core_eqD [OF core2] w1 tick2 with_key_new_row [OF new p0(1)] by (simp_all add: eval_nat_numeral)
  moreover have "p_status ?p1 = COMPLETED"
    "(p_orderNumber ?p1, p_userId ?p1, p_productId ?p1, p_amount ?p1) = (on, cp_userId req, cp_productId req, cp_amount req)"
    by (simp_all add: completed_row_def new_row_def payment_data.extend_def new_payment_def)
  moreover have "map (\<lambda>r. (se_eventType r, se_aggregateId r, se_eventId r)) [?r1, r2] =
      [(''PAYMENT_CREATED'', on, uuid E (?n + 6)), (''PAYMENT_COMPLETED'', on, uuid E (?n + 16))]"
    using r2 by (simp add: add.commute)
  ultimately show ?thesis using create w1(5) complete
    by (intro exI [of _ w1] exI [of _ w2] exI [of _ ?p1] exI [of _ ?r1] exI [of _ r2] conjI)
qed

text \<open>The body of the \<open>try\<close>, whatever became of the subscription since it was read.\<close>

lemma renew_body_run:
  assumes "reliable E" "live_order E (renewal_request d) w = None"
    and "on = order_in E w" "can_insert on (renewal_request d) (w_db w)" "can_renew E (rj_subscriptionId d) w"
    and "handlers_of PAYMENT_CREATED w = []" "handlers_of PAYMENT_COMPLETED w = [OnPaymentCompleted]"
  shows "\<exists>w' p rs. run (renew_body E d s) w = (Inr (), w') \<and>
    payments (w_db w') = payments (w_db w) @ [p] \<and> p_status p = COMPLETED \<and>
    (p_orderNumber p, p_userId p, p_productId p, p_amount p) =
      (on, rj_userId d, rj_planId d, renewal_amount (rj_plan d)) \<and>
    subscriptions (w_db w') = with_key s_subscriptionId (rj_subscriptionId d)
      (renew_row (calculateNewEndDate (tz E) (s_endDate s) (rj_plan d)) (sql_now (db_clock E (w_tick w + 20))))
      (subscriptions (w_db w)) \<and>
    event_store (w_db w') = event_store (w_db w) @ rs \<and> map (\<lambda>r. (se_eventType r, se_aggregateId r)) rs =
      [(''PAYMENT_CREATED'', on), (''PAYMENT_COMPLETED'', on), (''SUBSCRIPTION_RENEWED'', rj_subscriptionId d)] \<and>
    map se_eventId rs = map (uuid E) [w_tick w + 6, w_tick w + 16, w_tick w + 22] \<and>
    w_redis w' = w_redis w @ [RSet (w_tick w + 4) (key_of (renewal_request d)) on (Some 3600)] \<and>
    w_handlers w' = w_handlers w \<and> (handlers_of SUBSCRIPTION_RENEWED w = [] \<longrightarrow> w_tick w' = w_tick w + 25)"
proof -
  let ?sid = "rj_subscriptionId d" and ?req = "renewal_request d" and ?n = "w_tick w"
  let ?newEnd = "calculateNewEndDate (tz E) (s_endDate s) (rj_plan d)"
  let ?txn = "''TXN-RENEW-'' @ show_int (clock E (?n + 10))"
  let ?creq = "\<lparr>co_orderNumber = on, co_transactionId = ?txn, co_paidAmount = renewal_amount (rj_plan d)\<rparr>"
  note renew = assms(5) [unfolded can_renew_def, folded assms(3)]
  from renew have "can_charge E on w" by simp
  from charge_run [OF assms(1-4) this assms(6,7) refl, of "renewal_amount (rj_plan d)"] obtain w1 w2 p r1 r2 where
    create: "run (createPayment E ?req) w = (Inr on, w1)" and tick1: "w_tick w1 = ?n + 10"
    and complete: "run (completePayment E ?creq) (tick w1) = (Inr (), w2)"
    and w2: "payments (w_db w2) = payments (w_db w) @ [p]" "subscriptions (w_db w2) = subscriptions (w_db w)"
      "event_store (w_db w2) = event_store (w_db w) @ [r1, r2]" "w_handlers w2 = w_handlers w" "w_tick w2 = ?n + 20"
      "w_redis w2 = w_redis w @ [RSet (?n + 4) (key_of ?req) on (Some 3600)]"
    and p: "p_status p = COMPLETED"
      "(p_orderNumber p, p_userId p, p_productId p, p_amount p) = (on, cp_userId ?req, cp_productId ?req, cp_amount ?req)"
    and r12: "map (\<lambda>r. (se_eventType r, se_aggregateId r, se_eventId r)) [r1, r2] =
      [(''PAYMENT_CREATED'', on, uuid E (?n + 6)), (''PAYMENT_COMPLETED'', on, uuid E (?n + 16))]"
    by (elim exE conjE) (rule that)
  let ?subs = "with_key s_subscriptionId ?sid (renew_row ?newEnd (sql_now (db_clock E (?n + 20)))) (subscriptions (w_db w))"
  define w3 where "w3 = (tick w2)\<lparr>w_db := (w_db w2)\<lparr>subscriptions := ?subs\<rparr>\<rparr>"
  have extend: "run (SubscriptionRepository_renewSubscription E ?sid ?newEnd) w2 = (Inr (), w3)"
    using w2(2,5) by (simp add: SubscriptionRepository_renewSubscription_def run_sql_reliable [OF assms(1)]
        sql_effect_Inr subscription_renew_with_key w3_def)
  have "filter (\<lambda>r. se_aggregateId r = ?sid) [r1, r2] = []" using renew r12 by auto
  then have "events_of ?sid (w_db w3) = events_of ?sid (w_db w)"
    using w2(3) unfolding events_of_def w3_def by simp
  then have "latest_version ?sid (w_db w3) = latest_version ?sid (w_db w)" by (simp add: latest_version_def)
  then have "can_publish E (w_tick w3) ?sid (w_db w3)"
    using renew w2(3,5) r12 by (auto simp: can_publish_def w3_def eval_nat_numeral)
  from run_publish_done [OF assms(1) this, of "''Subscription''" SUBSCRIPTION_RENEWED
      "SubscriptionRenewedPayload ?sid on ?newEnd" "()"]
  obtain w4 r3 where pub: "run (seq (publish E SUBSCRIPTION_RENEWED ?sid ''Subscription''
      (SubscriptionRenewedPayload ?sid on ?newEnd)) (\<lambda>_. Done ())) w3 = (Inr (), w4)"
    and core4: "core w4 = core (w3\<lparr>w_db := add_event r3 (w_db w3)\<rparr>)"
    and r3: "se_eventType r3 = ''SUBSCRIPTION_RENEWED''" "se_aggregateId r3 = ?sid" "se_eventId r3 = uuid E (w_tick w3 + 1)"
    and w4: "w4 = snd (run (all_settled (map (\<lambda>h. projector_exec E h (published E SUBSCRIPTION_RENEWED ?sid ''Subscription''
        (SubscriptionRenewedPayload ?sid on ?newEnd) w3)) (handlers_of SUBSCRIPTION_RENEWED w3)))
      (after_append E SUBSCRIPTION_RENEWED ?sid ''Subscription'' (SubscriptionRenewedPayload ?sid on ?newEnd) w3))"
    by auto
  have "run (renew_body E d s) w = (Inr (), w4)"
    unfolding renew_body_def Let_def
    by (simp only: run_seq [of "createPayment E ?req"] create run_seq [of "new_date E"] run_new_date
        run_seq [of "completePayment E ?creq"] tick1 complete prod.case sum.case
        run_seq [of "SubscriptionRepository_renewSubscription E ?sid ?newEnd"] extend pub)
  moreover have "payments (w_db w4) = payments (w_db w) @ [p]" "subscriptions (w_db w4) = ?subs"
    "event_store (w_db w4) = event_store (w_db w) @ [r1, r2, r3]"
    "w_redis w4 = w_redis w @ [RSet (?n + 4) (key_of ?req) on (Some 3600)]" "w_handlers w4 = w_handlers w"
    using core_eqD [OF core4] w2 by (simp_all add: w3_def)
  moreover have "w_tick w3 = ?n + 21" using w2(5) by (simp add: w3_def)
  then have "se_eventId r3 = uuid E (?n + 22)" using r3(3) by (simp add: add.commute)
  moreover have "w_tick w4 = ?n + 25" if "handlers_of SUBSCRIPTION_RENEWED w = []"
  proof -
    have "handlers_of SUBSCRIPTION_RENEWED w3 = []" using that w2(4) by (simp add: handlers_of_def w3_def)
    with \<open>w_tick w3 = ?n + 21\<close> show ?thesis unfolding w4 by (simp add: after_append_def run_basic)
  qed
  ultimately show ?thesis using p r12 r3(1,2)
    by (intro exI [of _ w4] exI [of _ p] exI [of _ "[r1, r2, r3]"]) (simp add: renewal_request_def)
qed

text \<open>A renewal job that goes through.\<close>

lemma processRenewal_run:
  assumes "reliable E" "job_name job \<noteq> ''scan-expired''" "d = job_data job"
    and "subscription_select (rj_subscriptionId d) (w_db w) = Some s" "s_status s = ACTIVE" "s_autoRenew s"
    and "live_order E (renewal_request d) (tick w) = None"
    and "on = order_in E (tick w)" "can_insert on (renewal_request d) (w_db w)"
    and "can_renew E (rj_subscriptionId d) (tick w)"
    and "handlers_of PAYMENT_CREATED w = []" "handlers_of PAYMENT_COMPLETED w = [OnPaymentCompleted]"
  shows "\<exists>w' p rs. run (processRenewal E job) w = (Inr (), w') \<and>
    payments (w_db w') = payments (w_db w) @ [p] \<and> p_status p = COMPLETED \<and>
    (p_orderNumber p, p_userId p, p_productId p, p_amount p) =
      (on, rj_userId d, rj_planId d, renewal_amount (rj_plan d)) \<and>
    subscriptions (w_db w') = with_key s_subscriptionId (rj_subscriptionId d)
      (renew_row (calculateNewEndDate (tz E) (s_endDate s) (rj_plan d)) (sql_now (db_clock E (w_tick w + 21))))
      (subscriptions (w_db w)) \<and>
    event_store (w_db w') = event_store (w_db w) @ rs \<and> map (\<lambda>r. (se_eventType r, se_aggregateId r)) rs =
      [(''PAYMENT_CREATED'', on), (''PAYMENT_COMPLETED'', on), (''SUBSCRIPTION_RENEWED'', rj_subscriptionId d)]"
proof -
  have "can_insert on (renewal_request d) (w_db (tick w))" "handlers_of ty (tick w) = handlers_of ty w" for ty
    using assms(9) by (simp_all add: handlers_of_def)
  with renew_body_run [OF assms(1,7,8) _ assms(10), of s] assms(11,12) obtain w' p rs where
    "run (renew_body E d s) (tick w) = (Inr (), w')"
    and rest: "payments (w_db w') = payments (w_db w) @ [p]" "p_status p = COMPLETED"
      "(p_orderNumber p, p_userId p, p_productId p, p_amount p) =
        (on, rj_userId d, rj_planId d, renewal_amount (rj_plan d))"
      "subscriptions (w_db w') = with_key s_subscriptionId (rj_subscriptionId d)
        (renew_row (calculateNewEndDate (tz E) (s_endDate s) (rj_plan d)) (sql_now (db_clock E (w_tick w + 21))))
        (subscriptions (w_db w))" "event_store (w_db w') = event_store (w_db w) @ rs"
      "map (\<lambda>r. (se_eventType r, se_aggregateId r)) rs =
      [(''PAYMENT_CREATED'', on), (''PAYMENT_COMPLETED'', on), (''SUBSCRIPTION_RENEWED'', rj_subscriptionId d)]"
    by (auto simp: eval_nat_numeral)
  then have "run (processRenewal E job) w = (Inr (), w')"
    using assms(3) by (simp add: run_processRenewal_active [OF assms(1,2) assms(4) [unfolded assms(3)] assms(5,6)] run_catch)
  with rest show ?thesis by (intro exI [of _ w'] exI [of _ p] exI [of _ rs] conjI)
qed

text \<open>
  C12: A renewal job for an active, auto-renewing subscription whose user was not charged for this
  plan id within the hour, in a reliable environment, adds one COMPLETED payment of 99,000 won for an
  ANNUAL plan and of 9,900 won for any other (in hundredths of a won), for the user and plan id of
  the job; moves the subscription's end date on from the old one by the days of a month if the plan
  is MONTHLY, and of a year otherwise (as C38 counts them); and logs PAYMENT_CREATED,
  PAYMENT_COMPLETED and SUBSCRIPTION_RENEWED in this order. No other subscription changes.
\<close>

theorem processRenewal_renews:
  assumes "reliable E" "job_name job \<noteq> ''scan-expired''" "d = job_data job"
    and "subscription_select (rj_subscriptionId d) (w_db w) = Some s" "s_status s = ACTIVE" "s_autoRenew s"
    and "live_order E (renewal_request d) (tick w) = None"
    and "on = order_in E (tick w)" "can_insert on (renewal_request d) (w_db w)"
    and "can_renew E (rj_subscriptionId d) (tick w)"
    and "handlers_of PAYMENT_CREATED w = []" "handlers_of PAYMENT_COMPLETED w = [OnPaymentCompleted]"
  shows "\<exists>w' p rs. run (processRenewal E job) w = (Inr (), w') \<and>
    payments (w_db w') = payments (w_db w) @ [p] \<and> p_status p = COMPLETED \<and>
    p_orderNumber p = on \<and> p_userId p = rj_userId d \<and> p_productId p = rj_planId d \<and>
    p_amount p = (if rj_plan d = ''ANNUAL'' then 99000 else 9900) * 100 \<and>
    subscriptions (w_db w') = map (\<lambda>r. if s_subscriptionId r = rj_subscriptionId d
      then r\<lparr>s_endDate := sql_datetime (s_endDate s + period_days (tz E) (s_endDate s) (rj_plan d) * 86400000),
             s_status := ACTIVE, s_updatedAt := sql_now (db_clock E (w_tick w + 21))\<rparr>
      else r) (subscriptions (w_db w)) \<and>
    event_store (w_db w') = event_store (w_db w) @ rs \<and> map (\<lambda>r. (se_eventType r, se_aggregateId r)) rs =
      [(''PAYMENT_CREATED'', on), (''PAYMENT_COMPLETED'', on), (''SUBSCRIPTION_RENEWED'', rj_subscriptionId d)]"
proof -
  have "renewal_amount (rj_plan d) = (if rj_plan d = ''ANNUAL'' then 99000 else 9900) * 100"
    by (simp add: renewal_amount_def won_def)
  with processRenewal_run [OF assms] show ?thesis
    by (auto simp: new_end_days ms_per_day_def with_key_def renew_row_def)
qed

lemma processRenewal_renews_witness:
  "\<exists>job w' p. run (processRenewal calm job) (with_subscription ACTIVE True) = (Inr (), w') \<and> rj_plan (job_data job) = ''ANNUAL'' \<and>
    payments (w_db w') = [p] \<and> p_status p = COMPLETED \<and> p_amount p = 9900000 \<and>
    map s_endDate (subscriptions (w_db w')) = [365 * 86400000]"
proof -
  let ?w = "with_subscription ACTIVE True" and ?job = "(sample_job 0)\<lparr>job_data := (job_data (sample_job 0))\<lparr>rj_plan := ''ANNUAL''\<rparr>\<rparr>"
  let ?d = "job_data ?job"
  have "job_name ?job \<noteq> ''scan-expired''"
    "subscription_select (rj_subscriptionId ?d) (w_db ?w) = Some (sample_subscription ACTIVE True)"
    "live_order calm (renewal_request ?d) (tick ?w) = None"
    "can_insert (order_in calm (tick ?w)) (renewal_request ?d) (w_db ?w)"
    "can_renew calm (rj_subscriptionId ?d) (tick ?w)"
    by (simp_all add: sample_job_def live_order_def ttl_reply_def can_insert_def order_in_def
        order_number_def renewal_request_def currency_of_def decimal_ok_def payment_select_def renewal_amount_def won_def
        can_renew_def can_charge_def can_publish_def events_of_def)
  from processRenewal_renews [OF calm_reliable this(1) refl this(2) _ _ this(3) refl this(4,5)] obtain w' p where
    w': "run (processRenewal calm ?job) ?w = (Inr (), w')" "payments (w_db w') = [p]" "p_status p = COMPLETED" "p_amount p = 9900000"
      "map s_endDate (subscriptions (w_db w')) = [sql_datetime (period_days 0 0 ''ANNUAL'' * 86400000)]"
    by (auto simp: booted_handlers sample_job_def sample_subscription_def)
  moreover have "sql_datetime (period_days 0 0 ''ANNUAL'' * 86400000) = 365 * 86400000" by code_simp
  moreover have "rj_plan ?d = ''ANNUAL''" by simp
  ultimately show ?thesis by metis
qed

end
