(* ===== verification/EventSourcing.thy ===== *)
theory EventSourcing
  imports AutopayLaws
begin

text \<open>
  The event store against the payments table: replaying the events of an order gives its status.
  Every payment operation that returns keeps it so, whatever the environment; the table and the
  log are written by two separate statements, so an operation that fails between them does not.
\<close>

section \<open>Replaying an order\<close>

definition status_step :: "payment_status option \<Rightarrow> stored_event \<Rightarrow> payment_status option" where
  "status_step st r =
     (if se_eventType r = ''PAYMENT_CREATED'' then Some PENDING
      else if se_eventType r = ''PAYMENT_COMPLETED'' then Some COMPLETED
      else if se_eventType r = ''PAYMENT_FAILED'' then Some FAILED
      else if se_eventType r = ''PAYMENT_REFUNDED'' then Some REFUNDED
      else st)"

definition replayed :: "string \<Rightarrow> database \<Rightarrow> payment_status option" where
  "replayed on db = foldl status_step None (events_of on db)"

definition log_agrees :: "database \<Rightarrow> bool" where
  "log_agrees db \<longleftrightarrow> (\<forall>p \<in> set (payments db). replayed (p_orderNumber p) db = Some (p_status p))"

lemma replayed_add_event:
  "replayed on (add_event r db) =
    (if se_aggregateId r = on then status_step (replayed on db) r else replayed on db)"
  by (simp add: replayed_def events_of_def)

lemma replayed_event_store: "event_store db' = event_store db \<Longrightarrow> replayed on db' = replayed on db"
  unfolding replayed_def events_of_def by (erule ssubst) (rule refl)

section \<open>What a call that returned has done\<close>

lemma run_sql_Inr:
  assumes "run (sql E st) w = (Inr x, w')"
  obtains now db' where "st (w_tick w) now (w_db w) = Inr (x, db')" "w' = (tick w)\<lparr>w_db := db'\<rparr>"
  using assms [unfolded sql_def run_remote_Inr] by (auto simp: sql_effect_def split: sum.splits)

lemma run_publish_Inr:
  assumes "run (publish E ty a aty payload) w = (Inr ev, w')"
  obtains r where "se_eventType r = event_type_str ty" "se_aggregateId r = a"
    "core w' = core (w\<lparr>w_db := add_event r (w_db w)\<rparr>)"
proof -
  from assms obtain v w1 w2 e n w3 ev1 where
    latest: "run (EventStoreRepository_getLatestVersion E a) w = (Inr v, w1)"
    and w2: "w2 = tick (tick w1)" and append: "run (EventStoreRepository_append E e) w2 = (Inr n, w3)"
    and e: "e_type e = ty" "e_aggregateId e = a"
    and settled: "run (all_settled (map (\<lambda>h. projector_exec E h e) (handlers_of ty w3))) w3 = (Inr (), w')"
    by (auto simp: EventBus_publish_def run_seq_Inr run_uuidv4 run_new_date Let_def run_act run_basic)
  have "core w1 = core w"
    using latest unfolding EventStoreRepository_getLatestVersion_def
    by (rule run_sql_Inr) (auto simp: reading_def core_def tick_def)
  then have "core w2 = core w" by (simp add: w2)
  from append obtain now db' where db': "event_insert e now (w_db w2) = Inr (n, db')" "w3 = (tick w2)\<lparr>w_db := db'\<rparr>"
    unfolding EventStoreRepository_append_def by (rule run_sql_Inr)
  let ?r = "stored_row e now n"
  from db' have "db' = add_event ?r (w_db w2)" by (simp add: event_insert_Inr add_event_def)
  with db' \<open>core w2 = core w\<close> have "core w3 = core (w\<lparr>w_db := add_event ?r (w_db w)\<rparr>)"
    by (cases w; cases w2; cases "w_db w"; cases "w_db w2") (simp add: core_def tick_def add_event_def)
  moreover have "keeps core (all_settled (map (\<lambda>h. projector_exec E h e) (handlers_of ty w3)))"
    by (rule keeps_all_settled) (auto intro: keeps_core_projector)
  from keepsD [OF this settled] have "core w' = core w3" .
  ultimately show thesis using that [of ?r] e by simp
qed

lemma core_log:
  assumes "core w' = core (w\<lparr>w_db := add_event r (w_db w)\<rparr>)"
  shows "payments (w_db w') = payments (w_db w)" "replayed on (w_db w') = replayed on (add_event r (w_db w))"
  using core_eqD(1,3) [OF assms] by (simp_all add: replayed_event_store)

section \<open>Agreement\<close>

lemma update_where_rows:
  assumes "update_where P f rows = Inr rows'" "r' \<in> set rows'"
  shows "\<exists>r \<in> set rows. if P r then f r = Inr r' else r' = r"
  using assms
proof (induction rows arbitrary: rows')
  case (Cons x rows)
  from Cons.prems(1) obtain x' rest where
    "rows' = x' # rest" "(if P x then f x else Inr x) = Inr x'" "update_where P f rows = Inr rest"
    unfolding update_where_Cons by blast
  with Cons.IH [of rest] Cons.prems(2) show ?case by (cases "r' = x'") (auto split: if_splits)
qed simp

text \<open>An update of an order's status followed by the event that says so.\<close>

lemma update_then_publish:
  assumes "log_agrees (w_db w)" "run (PaymentRepository_updateStatus E on st extra) w = (Inr (), w1)"
    and "payments (w_db w2) = payments (w_db w1)" "event_store (w_db w2) = event_store (w_db w1)"
    and "run (publish E ty on aty payload) w2 = (Inr ev, w3)"
    and "\<And>s r. se_eventType r = event_type_str ty \<Longrightarrow> status_step s r = Some st"
  shows "log_agrees (w_db w3)"
proof -
  from assms(2) obtain now db' where db': "payment_update on st extra now (w_db w) = Inr ((), db')"
      "w1 = (tick w)\<lparr>w_db := db'\<rparr>" unfolding PaymentRepository_updateStatus_def by (rule run_sql_Inr)
  from db'(1) obtain rows where rows: "db' = (w_db w)\<lparr>payments := rows\<rparr>" "update_where (\<lambda>r. p_orderNumber r = on)
      (payment_set_row st (map (\<lambda>(k, v). (column_name k, v)) extra) now) (payments (w_db w)) = Inr rows"
    by (rule payment_update_Inr)
  have upd: "(if p_orderNumber p = on then Some st else replayed (p_orderNumber p) (w_db w)) = Some (p_status p)"
    if p: "p \<in> set rows" for p
  proof -
    from update_where_rows [OF rows(2) p] obtain q where q: "q \<in> set (payments (w_db w))"
      "if p_orderNumber q = on
       then payment_set_row st (map (\<lambda>(k, v). (column_name k, v)) extra) now q = Inr p else p = q" by blast
    then show ?thesis
      using assms(1) by (auto simp: log_agrees_def split: if_splits dest: payment_set_row_key)
  qed
  obtain r where r: "se_eventType r = event_type_str ty" "se_aggregateId r = on"
    "core w3 = core (w2\<lparr>w_db := add_event r (w_db w2)\<rparr>)" using assms(5) by (rule run_publish_Inr)
  have "replayed a (w_db w2) = replayed a (w_db w)" for a
    using assms(4) db'(2) rows(1) by (intro replayed_event_store) simp
  note same = this
  show ?thesis unfolding log_agrees_def
  proof
    fix p assume "p \<in> set (payments (w_db w3))"
    then have "p \<in> set rows" using core_log(1) [OF r(3)] assms(3) db'(2) rows(1) by simp
    from upd [OF this] show "replayed (p_orderNumber p) (w_db w3) = Some (p_status p)"
      using core_log(2) [OF r(3)] assms(6) [OF r(1)] r(2) same
      by (auto simp: replayed_add_event split: if_splits)
  qed
qed

text \<open>Calls that touch neither the payments nor the log.\<close>

lemma log_agrees_cong:
  "payments db' = payments db \<Longrightarrow> event_store db' = event_store db \<Longrightarrow> log_agrees db' = log_agrees db"
  unfolding log_agrees_def using replayed_event_store [of db' db] by auto

lemma completePayment_logged:
  assumes "log_agrees (w_db w)" "run (completePayment E req) w = (Inr (), w')"
  shows "log_agrees (w_db w')"
proof -
  from assms(2) obtain p w1 now w2 at ev where
    find: "run (PaymentRepository_findByOrderNumber E (co_orderNumber req)) w = (Inr (Some p), w1)"
    and upd: "run (PaymentRepository_updateStatus E (co_orderNumber req) COMPLETED
       [(''transactionId'', VStr (co_transactionId req)), (''paidAt'', VDate now)]) (tick w1) = (Inr (), w2)"
    and pub: "run (publish E PAYMENT_COMPLETED (co_orderNumber req) ''Payment''
       (PaymentCompletedPayload (co_orderNumber req) (co_transactionId req) (co_paidAmount req) at)) (tick w2) = (Inr ev, w')"
    by (auto simp: completePayment_def run_seq_Inr run_new_date run_basic split: option.splits if_splits)
  have "w_db w1 = w_db w"
    using find unfolding PaymentRepository_findByOrderNumber_def by (rule run_sql_Inr) (auto simp: reading_def)
  with assms(1) have "log_agrees (w_db (tick w1))" by simp
  then show ?thesis
    by (rule update_then_publish [OF _ upd _ _ pub]) (auto simp: status_step_def)
qed

lemma refundPayment_logged:
  assumes "log_agrees (w_db w)" "run (refundPayment E req) w = (Inr (), w')"
  shows "log_agrees (w_db w')"
proof -
  from assms(2) obtain p w1 now w2 at ev where
    find: "run (PaymentRepository_findByOrderNumber E (rf_orderNumber req)) w = (Inr (Some p), w1)"
    and upd: "run (PaymentRepository_updateStatus E (rf_orderNumber req) REFUNDED
       [(''refundAmount'', VNum (rf_refundAmount req)), (''refundReason'', VStr (rf_reason req)),
        (''refundedAt'', VDate now)]) (tick w1) = (Inr (), w2)"
    and pub: "run (publish E PAYMENT_REFUNDED (rf_orderNumber req) ''Payment''
       (PaymentRefundedPayload (rf_orderNumber req) (rf_refundAmount req) (rf_reason req) at)) (tick w2) = (Inr ev, w')"
    by (auto simp: refundPayment_def run_seq_Inr run_new_date run_basic split: option.splits if_splits)
  have "w_db w1 = w_db w"
    using find unfolding PaymentRepository_findByOrderNumber_def by (rule run_sql_Inr) (auto simp: reading_def)
  with assms(1) have "log_agrees (w_db (tick w1))" by simp
  then show ?thesis
    by (rule update_then_publish [OF _ upd _ _ pub]) (auto simp: status_step_def)
qed

lemma failPayment_logged:
  assumes "log_agrees (w_db w)" "run (failPayment E on reason) w = (Inr (), w')"
  shows "log_agrees (w_db w')"
proof -
  from assms(2) obtain p w1 w2 at ev where
    find: "run (PaymentRepository_findByOrderNumber E on) w = (Inr (Some p), w1)"
    and upd: "run (PaymentRepository_updateStatus E on FAILED []) w1 = (Inr (), w2)"
    and pub: "run (publish E PAYMENT_FAILED on ''Payment'' (PaymentFailedPayload on reason at)) (tick w2) = (Inr ev, w')"
    by (auto simp: failPayment_def run_seq_Inr run_new_date run_basic split: option.splits if_splits)
  have "w_db w1 = w_db w"
    using find unfolding PaymentRepository_findByOrderNumber_def by (rule run_sql_Inr) (auto simp: reading_def)
  with assms(1) have "log_agrees (w_db w1)" by simp
  then show ?thesis
    by (rule update_then_publish [OF _ upd _ _ pub]) (auto simp: status_step_def)
qed

lemma run_remote_redis_Inr:
  "run (RedisClient_get E key) w = (Inr x, w1) \<Longrightarrow> w_db w1 = w_db w"
  "run (RedisClient_set E key v ttl) w = (Inr u, w1) \<Longrightarrow> w_db w1 = w_db w"
  "run (queue_add E q name jd opts) w = (Inr u, w1) \<Longrightarrow> w_db w1 = w_db w"
  unfolding RedisClient_get_def RedisClient_set_def queue_add_def
  by (auto simp: run_remote_Inr)

lemma createPayment_logged:
  assumes "log_agrees (w_db w)" "run (createPayment E req) w = (Inr on, w')"
  shows "log_agrees (w_db w')"
proof -
  let ?on = "order_number (clock E (w_tick w)) (uuid E (w_tick (tick w)))"
  from assms(2) obtain x w1 n w2 w3 ev w4 q w5 where
    redis: "run (RedisClient_get E (key_of req)) (tick (tick w)) = (Inr x, w1)"
    and create: "run (PaymentRepository_create E (new_payment ?on req)) w1 = (Inr n, w2)"
    and set: "run (RedisClient_set E (key_of req) ?on (Some IDEMPOTENCY_TTL)) w2 = (Inr (), w3)"
    and pub: "run (publish E PAYMENT_CREATED ?on ''Payment'' (created_payload ?on req)) w3 = (Inr ev, w4)"
    and q: "run (getOrCreateQueue PAYMENT_PROCESSING) w4 = (Inr q, w5)"
    and add: "run (queue_add E q ''process-payment'' (payment_job ?on req) payment_job_options) w5 = (Inr (), w')"
    by (auto simp: createPayment_def run_seq_Inr run_new_date run_uuidv4 run_basic Let_def key_of_def split: if_splits)
  from create obtain now db2 where ins: "payment_insert (new_payment ?on req) now (w_db w1) = Inr (n, db2)"
    and w2: "w_db w2 = db2" unfolding PaymentRepository_create_def by (rule run_sql_Inr) simp
  have db1: "w_db w1 = w_db w" and db3: "w_db w3 = db2" and db': "w_db w' = w_db w4"
    using run_remote_redis_Inr(1) [OF redis] run_remote_redis_Inr(2) [OF set] w2
      run_remote_redis_Inr(3) [OF add] getOrCreateQueue_frame [OF q] by simp_all
  obtain r where r: "se_eventType r = event_type_str PAYMENT_CREATED" "se_aggregateId r = ?on"
    "core w4 = core (w3\<lparr>w_db := add_event r (w_db w3)\<rparr>)" using pub by (rule run_publish_Inr)
  from ins db1 obtain row where row: "payments db2 = payments (w_db w) @ [row]" "event_store db2 = event_store (w_db w)"
      "p_orderNumber row = ?on" "p_status row = PENDING"
    and new: "?on \<notin> p_orderNumber ` set (payments (w_db w))"
    by (auto simp: payment_insert_Inr find_row_None new_payment_def payment_data.extend_def)
  have "replayed a db2 = replayed a (w_db w)" for a using row(2) by (rule replayed_event_store)
  then show ?thesis
    using assms(1) row new r(1,2) core_log [OF r(3)] db3 db'
    by (auto simp: log_agrees_def replayed_add_event status_step_def)
qed

section \<open>Any sequence of operations\<close>

datatype payment_op = Create create_payment_request | Complete complete_payment_request
  | Refund refund_payment_request | Reject string string

fun payment_op_prog :: "env \<Rightarrow> payment_op \<Rightarrow> unit io" where
  "payment_op_prog E (Create req) = seq (createPayment E req) (\<lambda>_. Done ())"
| "payment_op_prog E (Complete req) = completePayment E req"
| "payment_op_prog E (Refund req) = refundPayment E req"
| "payment_op_prog E (Reject on reason) = failPayment E on reason"

primrec payment_ops :: "env \<Rightarrow> payment_op list \<Rightarrow> unit io" where
  "payment_ops E [] = Done ()"
| "payment_ops E (op # ops) = seq (payment_op_prog E op) (\<lambda>_. payment_ops E ops)"

lemma payment_op_logged:
  assumes "log_agrees (w_db w)" "run (payment_op_prog E op) w = (Inr (), w')"
  shows "log_agrees (w_db w')"
proof (cases op)
  case (Create req)
  with assms(2) obtain on where "run (createPayment E req) w = (Inr on, w')" by (auto simp: run_seq_Inr run_basic)
  with assms(1) show ?thesis by (rule createPayment_logged)
next
  case (Complete req)
  with assms show ?thesis by (auto elim: completePayment_logged)
next
  case (Refund req)
  with assms show ?thesis by (auto elim: refundPayment_logged)
next
  case (Reject on reason)
  with assms show ?thesis by (auto elim: failPayment_logged)
qed

text \<open>
  C15: Replaying an order's events gives its status: any sequence of payment operations that all
  return leaves every payment with the status its events replay to, whatever the environment.
\<close>

theorem payments_follow_log:
  assumes "log_agrees (w_db w)" "run (payment_ops E ops) w = (Inr (), w')"
  shows "log_agrees (w_db w')"
  using assms
proof (induction ops arbitrary: w)
  case (Cons op ops)
  from Cons.prems(2) obtain w1 where "run (payment_op_prog E op) w = (Inr (), w1)" "run (payment_ops E ops) w1 = (Inr (), w')"
    by (auto simp: run_seq_Inr)
  with Cons payment_op_logged show ?case by blast
qed (simp add: run_basic)

lemma payments_follow_log_witness:
  "\<exists>w'. run (payment_ops calm [Create sample_request]) init_world = (Inr (), w') \<and> log_agrees (w_db w') \<and>
    payments (w_db w') \<noteq> []"
proof -
  have "live_order calm sample_request init_world = None" "can_insert (order_in calm init_world) sample_request (w_db init_world)"
    "can_publish calm (w_tick init_world + 5) (order_in calm init_world) (w_db init_world)"
    by (simp_all add: live_order_def ttl_reply_def can_insert_def can_publish_def order_in_def init_world_def
        order_number_def sample_request_def currency_of_def decimal_ok_def payment_select_def)
  from createPayment_run [OF calm_reliable this]
  obtain w' where w': "run (payment_ops calm [Create sample_request]) init_world = (Inr (), w')" "payments (w_db w') \<noteq> []"
    by (auto simp: run_seq run_basic)
  have "log_agrees (w_db init_world)" by (simp add: log_agrees_def init_world_def)
  from payments_follow_log [OF this w'(1)] w' show ?thesis by blast
qed

section \<open>A failure between the statements\<close>

text \<open>
  C18: The row and the log are written by two statements: if the event store cannot be reached at
  the append, completePayment fails, the payment stays COMPLETED, and no event of it exists.
\<close>

theorem completePayment_loses_event:
  assumes "\<And>n. fault E n = (if n = w_tick w + 7 then NotApplied m else NoFault)"
    and "payment_select (co_orderNumber req) (w_db w) = Some p" "p_status p = PENDING"
    and "length (co_transactionId req) \<le> 128"
  shows "\<exists>w'. run (completePayment E req) w = (Inl (Unavailable m), w') \<and>
    payment_select (co_orderNumber req) (w_db w') = Some (completed_row (co_transactionId req)
      (clock E (w_tick w + 1)) (sql_now (db_clock E (w_tick w + 2))) p) \<and>
    event_store (w_db w') = event_store (w_db w)"
proof -
  let ?n = "w_tick w" and ?on = "co_orderNumber req"
  let ?rows = "with_key p_orderNumber ?on (completed_row (co_transactionId req)
      (clock E (Suc ?n)) (sql_now (db_clock E (Suc (Suc ?n))))) (payments (w_db w))"
  define w3 where "w3 = (tick (tick (tick w)))\<lparr>w_db := (w_db w)\<lparr>payments := ?rows\<rparr>\<rparr>"
  have find: "run (PaymentRepository_findByOrderNumber E ?on) w = (Inr (Some p), tick w)"
    using assms(1,2) by (simp add: PaymentRepository_findByOrderNumber_def sql_def run_remote sql_effect_reading)
  have upd: "run (PaymentRepository_updateStatus E ?on COMPLETED
      [(''transactionId'', VStr (co_transactionId req)), (''paidAt'', VDate (clock E (Suc ?n)))]) (tick (tick w)) = (Inr (), w3)"
    using assms(1) payment_update_completed [OF assms(4), of ?on "clock E (Suc ?n)" "sql_now (db_clock E (Suc (Suc ?n)))" "w_db w"]
    by (simp add: PaymentRepository_updateStatus_def sql_def run_remote sql_effect_Inr w3_def)
  have t3: "w_tick w3 = ?n + 3" by (simp add: w3_def)
  have latest: "run (EventStoreRepository_getLatestVersion E ?on) (tick w3) = (Inr (latest_version ?on (w_db w3)), tick (tick w3))"
    using assms(1) by (simp add: EventStoreRepository_getLatestVersion_def sql_def run_remote sql_effect_reading t3)
  have append: "run (EventStoreRepository_append E ev) (tick (tick (tick (tick w3)))) =
      (Inl (Unavailable m), tick (tick (tick (tick (tick w3)))))" for ev
    using assms(1) by (simp add: EventStoreRepository_append_def sql_def run_remote t3)
  have "run (completePayment E req) w = (Inl (Unavailable m), tick (tick (tick (tick (tick w3)))))"
    using assms(3) by (simp add: completePayment_def EventBus_publish_def run_seq find run_new_date upd latest run_uuidv4 append Let_def)
  moreover have "payment_select ?on (w_db w3) = Some (completed_row (co_transactionId req)
      (clock E (?n + 1)) (sql_now (db_clock E (?n + 2))) p)"
    using assms(2) by (simp add: payment_select_def w3_def find_row_with_key)
  ultimately show ?thesis by (simp add: w3_def)
qed

lemma completePayment_loses_event_witness:
  "\<exists>w'. run (completePayment (sample_env (\<lambda>n. if n = 7 then NotApplied ''gone'' else NoFault)) sample_completion)
      (with_payment PENDING) = (Inl (Unavailable ''gone''), w') \<and> event_store (w_db w') = []"
  using completePayment_loses_event [of "sample_env (\<lambda>n. if n = 7 then NotApplied ''gone'' else NoFault)"
      "with_payment PENDING" "''gone''" sample_completion "sample_payment PENDING"]
  by (auto simp: sample_completion_def)

end
