(* ===== verification/Races.thy ===== *)
theory Races
  imports EventSourcing Invariants
begin

text \<open>
  What the guards do not prevent when two requests interleave. A guard and the write it guards
  are separate awaits, so a second request may run between them: two payments for one
  idempotency key, two active subscriptions for one user, two completions of one payment. Each
  theorem gives the schedule, for any environment in which no call fails.
\<close>

section \<open>Schedules\<close>

text \<open>
  The pattern of the races: the first activity performs the actions \<open>s\<close> up to its guard, the
  second runs to its end, and then the first goes on.
\<close>

lemma race:
  assumes "run_schedule s (w, [p, q]) = (w1, [p1, q])"
    and "run q w1 = (Inr y, w2)" "run p1 w2 = (Inr x, w3)"
  shows "\<exists>sched. run_schedule sched (w, [p, q]) = (w3, [Done x, Done y])"
proof -
  obtain n where n: "run_schedule (replicate n (Suc 0)) (w1, [p1, q]) = (w2, [p1, Done y])"
    using run_schedule_to_end [of 1 "[p1, q]" q w1 y w2] assms(2) by auto
  obtain m where m: "run_schedule (replicate m 0) (w2, [p1, Done y]) = (w3, [Done x, Done y])"
    using run_schedule_to_end [of 0 "[p1, Done y]" p1 w2 x w3] assms(3) by auto
  have "run_schedule (s @ replicate n (Suc 0) @ replicate m 0) (w, [p, q]) = (w3, [Done x, Done y])"
    by (simp add: run_schedule_append assms(1) n m)
  then show ?thesis by blast
qed

lemma Act_act: "reliable E \<Longrightarrow> remote E f = Act (\<lambda>w. snd (f (w_tick w) (tick w)))
    (\<lambda>w. case fst (f (w_tick w) (tick w)) of Inl e \<Rightarrow> Fail e | Inr x \<Rightarrow> Done x)"
  by (simp add: remote_def act_def reliable_def)

section \<open>Two payments for one key\<close>

lemma create_to_guard:
  assumes "reliable E" "live_order E req w = None"
  shows "run_schedule [0, 0, 0] (w, [createPayment E req, q]) =
    (tick (tick (tick w)), [create_rest E (order_in E w) req, q])"
proof -
  from assms(2) have "redis_reply E (w_redis w) (Suc (Suc (w_tick w))) (key_of req) = None \<or>
      redis_reply E (w_redis w) (Suc (Suc (w_tick w))) (key_of req) = Some ''''"
    by (auto simp: live_order_def split: option.splits if_splits)
  then show ?thesis
    by (auto simp: createPayment_rest new_date_def uuidv4_def act_def RedisClient_get_def Act_act [OF assms(1)]
        order_in_def)
qed

text \<open>
  C27: The idempotency check is not atomic: for any two concurrent requests for one key that both
  read it before either writes it there is a schedule in which both succeed and two payments of
  the same user, product and amount are stored.
\<close>

theorem createPayment_race:
  assumes "reliable E" "live_order E req w = None" "live_order E req (tick (tick (tick w))) = None"
    and "on1 = order_in E w" "on2 = order_in E (tick (tick (tick w)))" "on1 \<noteq> on2"
    and "can_insert on1 req (w_db w)" "can_insert on2 req (w_db w)"
    and "can_publish E (w_tick w + 8) on2 (w_db w)" "can_publish E (w_tick w + 15) on1 (w_db w)"
    and "uuid E (w_tick w + 9) \<noteq> uuid E (w_tick w + 16)" "handlers_of PAYMENT_CREATED w = []"
  shows "\<exists>sched w'. run_schedule sched (w, [createPayment E req, createPayment E req]) =
      (w', [Done on1, Done on2]) \<and>
    map ordered_terms (payments (w_db w')) = map ordered_terms (payments (w_db w)) @
      [(on2, cp_userId req, cp_productId req, cp_amount req, currency_of req),
       (on1, cp_userId req, cp_productId req, cp_amount req, currency_of req)]"
proof -
  let ?w1 = "tick (tick (tick w))"
  have "can_insert (order_in E ?w1) req (w_db ?w1)" "can_publish E (w_tick ?w1 + 5) (order_in E ?w1) (w_db ?w1)"
    using assms(5,8,9) by (simp_all add: eval_nat_numeral)
  from createPayment_run [OF assms(1,3) this] obtain w2 r2 where
    second: "run (createPayment E req) ?w1 = (Inr on2, w2)"
    and w2: "payments (w_db w2) = payments (w_db w) @ [new_row on2 req (sql_now (db_clock E (w_tick ?w1 + 3))) (w_db ?w1)]"
      "event_store (w_db w2) = event_store (w_db w) @ [r2]" "se_aggregateId r2 = on2"
      "se_eventId r2 = uuid E (w_tick w + 9)" "w_tick w2 = w_tick w + 13" "w_handlers w2 = w_handlers w"
    using assms(5,12) by (auto simp: handlers_of_def eval_nat_numeral)
  have row: "p_orderNumber (new_row on req now db) = on" "ordered_terms (new_row on req now db) =
      (on, cp_userId req, cp_productId req, cp_amount req, currency_of req)" for on now db
    by (simp_all add: new_row_def payment_data.extend_def new_payment_def ordered_terms_def)
  have "can_insert on1 req (w_db w2)"
    using assms(6,7) w2(1) by (simp add: can_insert_def payment_select_def find_row_append row)
  moreover have "latest_version on1 (w_db w2) = latest_version on1 (w_db w)"
    using w2(2,3) assms(6) by (intro latest_version_add_other) simp_all
  then have "can_publish E (w_tick w2 + 2) on1 (w_db w2)"
    using assms(10,11) w2(2,4,5) by (auto simp: can_publish_def eval_nat_numeral)
  ultimately obtain w3 where first: "run (create_rest E on1 req) w2 = (Inr on1, w3)"
    and w3: "payments (w_db w3) = payments (w_db w2) @ [new_row on1 req (sql_now (db_clock E (w_tick w2))) (w_db w2)]"
    using create_rest_run [OF assms(1)] by blast
  from race [OF create_to_guard [OF assms(1,2)] second first [unfolded assms(4)]]
  obtain sched where "run_schedule sched (w, [createPayment E req, createPayment E req]) = (w3, [Done on1, Done on2])"
    using assms(4) by auto
  then show ?thesis using w2(1) w3 row by (intro exI [of _ sched] exI [of _ w3]) simp
qed

lemma createPayment_race_witness:
  "\<exists>sched w'. run_schedule sched (booted, [createPayment calm sample_request, createPayment calm sample_request]) =
      (w', [Done ''ORD-0-u'', Done ''ORD-0-uuuu'']) \<and> length (payments (w_db w')) = 2"
proof -
  let ?w = booted and ?req = sample_request
  have "live_order calm ?req ?w = None" "live_order calm ?req (tick (tick (tick ?w))) = None"
    "''ORD-0-u'' = order_in calm ?w" "''ORD-0-uuuu'' = order_in calm (tick (tick (tick ?w)))"
    "''ORD-0-u'' \<noteq> ''ORD-0-uuuu''" "can_insert ''ORD-0-u'' ?req (w_db ?w)" "can_insert ''ORD-0-uuuu'' ?req (w_db ?w)"
    "can_publish calm (w_tick ?w + 8) ''ORD-0-uuuu'' (w_db ?w)" "can_publish calm (w_tick ?w + 15) ''ORD-0-u'' (w_db ?w)"
    "uuid calm (w_tick ?w + 9) \<noteq> uuid calm (w_tick ?w + 16)" "handlers_of PAYMENT_CREATED ?w = []"
    by (simp_all add: live_order_def ttl_reply_def can_insert_def can_publish_def order_in_def
        order_number_def sample_request_def currency_of_def decimal_ok_def payment_select_def booted_handlers)
  from createPayment_race [OF calm_reliable this] obtain sched w' where
    "run_schedule sched (?w, [createPayment calm ?req, createPayment calm ?req]) = (w', [Done ''ORD-0-u'', Done ''ORD-0-uuuu''])"
    "length (map ordered_terms (payments (w_db w'))) = 2" by auto
  then show ?thesis by auto
qed

section \<open>Two active subscriptions\<close>

lemma subscribe_to_guard:
  assumes "reliable E" "reads_all E" "active_of (cs_userId req) (w_db w) = []"
  shows "run_schedule [0] (w, [createSubscription E req, q]) = (tick w, [subscribe_rest E req, q])"
  using find_active_None [OF assms(2), of "cs_userId req" "w_tick w" "w_db w"] assms(3)
  by (simp add: createSubscription_rest SubscriptionRepository_findActiveByUserId_def sql_def
      Act_act [OF assms(1)] sql_effect_def reading_def)

text \<open>
  C28: Two concurrent subscriptions of one user: there is a schedule in which both requests
  succeed and the user has two active subscriptions.
\<close>

theorem createSubscription_race:
  assumes "reliable E" "reads_all E" "active_of (cs_userId req) (w_db w) = []"
    and "plan_of_str (cs_plan req) = Some plan" "handlers_of SUBSCRIPTION_CREATED w = []"
    and "sid1 = subscription_id (uuid E (w_tick w + 9))" "sid2 = subscription_id (uuid E (w_tick w + 2))" "sid1 \<noteq> sid2"
    and "can_subscribe sid1 req (w_db w)" "can_subscribe sid2 req (w_db w)"
    and "can_publish E (w_tick w + 5) sid2 (w_db w)" "can_publish E (w_tick w + 12) sid1 (w_db w)"
    and "uuid E (w_tick w + 6) \<noteq> uuid E (w_tick w + 13)"
  shows "\<exists>sched w'. run_schedule sched (w, [createSubscription E req, createSubscription E req]) =
      (w', [Done sid1, Done sid2]) \<and>
    map s_subscriptionId (active_of (cs_userId req) (w_db w')) = [sid2, sid1]"
proof -
  let ?w1 = "tick w"
  have id2: "new_id E (tick ?w1) = sid2" using assms(7) by (simp add: new_id_def)
  have "active_of (cs_userId req) (w_db ?w1) = []" "can_subscribe (new_id E (tick ?w1)) req (w_db ?w1)"
    "can_publish E (w_tick ?w1 + 4) (new_id E (tick ?w1)) (w_db ?w1)"
    using assms(3,10,11) id2 by (simp_all add: eval_nat_numeral)
  from createSubscription_run [OF assms(1,2) this(1) assms(4) this(2,3)] obtain w2 r2 where
    second: "run (createSubscription E req) ?w1 = (Inr sid2, w2)"
    and core2: "core w2 = core (?w1\<lparr>w_db := add_event r2 ((w_db ?w1)\<lparr>subscriptions :=
       subscriptions (w_db ?w1) @ [new_subscription_row E req plan (tick ?w1)]\<rparr>)\<rparr>)"
    and r2: "se_aggregateId r2 = sid2" "se_eventId r2 = uuid E (w_tick w + 6)" and tick2: "w_tick w2 = w_tick w + 9"
    using assms(5) id2 by (auto simp: handlers_of_def eval_nat_numeral)
  note w2 = core_eqD [OF core2, simplified]
  have id1: "new_id E w2 = sid1" using assms(6) tick2 by (simp add: new_id_def)
  have row: "s_subscriptionId (new_subscription_row E req plan v) = new_id E v"
      "s_userId (new_subscription_row E req plan v) = cs_userId req"
      "s_status (new_subscription_row E req plan v) = ACTIVE" for v
    by (simp_all add: new_subscription_row_def Let_def)
  have "can_subscribe sid1 req (w_db w2)"
    using assms(8,9) w2(2) id2 by (simp add: can_subscribe_def subscription_select_def find_row_append row)
  moreover have "latest_version sid1 (w_db w2) = latest_version sid1 (w_db w)"
    using w2(3) r2 assms(8) by (intro latest_version_add_other [of r2]) simp_all
  then have "can_publish E (w_tick w2 + 3) sid1 (w_db w2)"
    using assms(12,13) w2(3) r2 tick2 by (auto simp: can_publish_def eval_nat_numeral)
  ultimately obtain w3 r3 where first: "run (subscribe_rest E req) w2 = (Inr sid1, w3)"
    and core3: "core w3 = core (w2\<lparr>w_db := add_event r3 ((w_db w2)\<lparr>subscriptions :=
       subscriptions (w_db w2) @ [new_subscription_row E req plan w2]\<rparr>)\<rparr>)"
    using subscribe_rest_run [OF assms(1,4), of w2] id1 by auto
  from race [OF subscribe_to_guard [OF assms(1-3)] second first]
  obtain sched where "run_schedule sched (w, [createSubscription E req, createSubscription E req]) = (w3, [Done sid1, Done sid2])"
    by blast
  moreover have "map s_subscriptionId (active_of (cs_userId req) (w_db w3)) = [sid2, sid1]"
    using core_eqD(2) [OF core3] w2(2) assms(3) id1 id2 by (simp add: active_of_def row)
  ultimately show ?thesis by (intro exI [of _ sched] exI [of _ w3] conjI)
qed

lemma createSubscription_race_witness:
  "\<exists>sched w' sid1 sid2. run_schedule sched (booted, [createSubscription calm (sample_plan_request ''MONTHLY''),
      createSubscription calm (sample_plan_request ''MONTHLY'')]) = (w', [Done sid1, Done sid2]) \<and>
    length (active_of ''alice'' (w_db w')) = 2"
proof -
  let ?w = booted and ?req = "sample_plan_request ''MONTHLY''"
  let ?sid1 = "subscription_id (uuid calm (w_tick ?w + 9))" and ?sid2 = "subscription_id (uuid calm (w_tick ?w + 2))"
  have "reads_all calm" "active_of (cs_userId ?req) (w_db ?w) = []" "plan_of_str (cs_plan ?req) = Some MONTHLY"
    "handlers_of SUBSCRIPTION_CREATED ?w = []" "?sid1 \<noteq> ?sid2" "can_subscribe ?sid1 ?req (w_db ?w)"
    "can_subscribe ?sid2 ?req (w_db ?w)" "can_publish calm (w_tick ?w + 5) ?sid2 (w_db ?w)"
    "can_publish calm (w_tick ?w + 12) ?sid1 (w_db ?w)" "uuid calm (w_tick ?w + 6) \<noteq> uuid calm (w_tick ?w + 13)"
    by (simp_all add: reads_all_def active_of_def sample_plan_request_def plan_of_str_def can_subscribe_def
        subscription_id_def subscription_select_def can_publish_def booted_handlers eval_nat_numeral)
  from createSubscription_race [OF calm_reliable this(1-4) refl refl this(5-10)] obtain sched w' where
    s: "run_schedule sched (?w, [createSubscription calm ?req, createSubscription calm ?req]) = (w', [Done ?sid1, Done ?sid2])"
    "map s_subscriptionId (active_of (cs_userId ?req) (w_db w')) = [?sid2, ?sid1]" by (elim exE conjE) (rule that)
  from s(2) have "length (active_of ''alice'' (w_db w')) = 2"
    by (metis length_map length_Cons list.size(3) create_subscription_request.select_convs(1) sample_plan_request_def numeral_2_eq_2)
  with s(1) show ?thesis by blast
qed

section \<open>One payment completed twice\<close>

lemma complete_to_guard:
  assumes "reliable E" "payment_select (co_orderNumber req) (w_db w) = Some p" "p_status p = PENDING"
  shows "run_schedule [0] (w, [completePayment E req, q]) = (tick w, [complete_rest E req, q])"
  using assms(2,3) by (simp add: completePayment_rest PaymentRepository_findByOrderNumber_def sql_def
      Act_act [OF assms(1)] sql_effect_def reading_def)

text \<open>
  C29: Two concurrent completions of one pending payment: there is a schedule in which both
  succeed and the log has two PAYMENT_COMPLETED events of the order, with consecutive versions.
\<close>

theorem completePayment_race:
  assumes "reliable E" "payment_select (co_orderNumber req) (w_db w) = Some p" "p_status p = PENDING"
    and "length (co_transactionId req) \<le> 128" "handlers_of PAYMENT_COMPLETED w = [OnPaymentCompleted]"
    and "can_publish E (w_tick w + 5) (co_orderNumber req) (w_db w)"
    and "can_publish E (w_tick w + 13) (co_orderNumber req) (w_db w)"
    and "uuid E (w_tick w + 6) \<noteq> uuid E (w_tick w + 14)"
    and "latest_version (co_orderNumber req) (w_db w) < 2 ^ 31 - 2"
  shows "\<exists>sched w' r1 r2. run_schedule sched (w, [completePayment E req, completePayment E req]) =
      (w', [Done (), Done ()]) \<and>
    event_store (w_db w') = event_store (w_db w) @ [r1, r2] \<and>
    se_eventType r1 = ''PAYMENT_COMPLETED'' \<and> se_eventType r2 = ''PAYMENT_COMPLETED'' \<and>
    se_aggregateId r1 = co_orderNumber req \<and> se_aggregateId r2 = co_orderNumber req \<and>
    se_version r2 = se_version r1 + 1"
proof -
  let ?on = "co_orderNumber req"
  have "payment_select ?on (w_db (tick w)) = Some p" "can_publish E (w_tick (tick w) + 4) ?on (w_db (tick w))"
    using assms(2,6) by (simp_all add: eval_nat_numeral)
  from completePayment_run [OF assms(1) this(1) assms(3,4) this(2)] obtain w2 r1 ps where
    second: "run (completePayment E req) (tick w) = (Inr (), w2)"
    and core2: "core w2 = core ((tick w)\<lparr>w_db := add_event r1 ((w_db (tick w))\<lparr>payments := ps\<rparr>)\<rparr>)"
    and r1: "se_eventType r1 = ''PAYMENT_COMPLETED''" "se_aggregateId r1 = ?on" "se_eventId r1 = uuid E (w_tick w + 6)"
      "se_version r1 = latest_version ?on (w_db w) + 1"
    and tick2: "w_tick w2 = w_tick w + 10"
    using assms(5) by (auto simp: handlers_of_def eval_nat_numeral)
  note w2 = core_eqD [OF core2, simplified]
  have v2: "latest_version ?on (w_db w2) = latest_version ?on (w_db w) + 1"
    using latest_version_next [OF w2(3)] r1 by simp
  have "can_publish E (w_tick w2 + 3) ?on (w_db w2)"
    using assms(7-9) w2(3) r1 tick2 v2 by (auto simp: can_publish_def eval_nat_numeral)
  from complete_rest_run [OF assms(1,4) this] obtain w3 r2 ps' where
    first: "run (complete_rest E req) w2 = (Inr (), w3)"
    and core3: "core w3 = core (w2\<lparr>w_db := add_event r2 ((w_db w2)\<lparr>payments := ps'\<rparr>)\<rparr>)"
    and r2: "se_eventType r2 = ''PAYMENT_COMPLETED''" "se_aggregateId r2 = ?on"
      "se_version r2 = latest_version ?on (w_db w2) + 1"
    by auto
  from race [OF complete_to_guard [OF assms(1-3)] second first]
  obtain sched where "run_schedule sched (w, [completePayment E req, completePayment E req]) = (w3, [Done (), Done ()])"
    by blast
  moreover have "event_store (w_db w3) = event_store (w_db w) @ [r1, r2]"
    using core_eqD(3) [OF core3] w2(3) by simp
  ultimately show ?thesis using r1 r2 v2 by (intro exI [of _ sched] exI [of _ w3] exI [of _ r1] exI [of _ r2]) simp
qed

lemma completePayment_race_witness:
  "\<exists>sched w'. run_schedule sched (with_payment PENDING, [completePayment calm sample_completion, completePayment calm sample_completion]) =
      (w', [Done (), Done ()]) \<and> map se_version (event_store (w_db w')) \<noteq> []"
proof -
  let ?w = "with_payment PENDING" and ?req = sample_completion
  have "payment_select (co_orderNumber ?req) (w_db ?w) = Some (sample_payment PENDING)"
    "p_status (sample_payment PENDING) = PENDING" "length (co_transactionId ?req) \<le> 128"
    "handlers_of PAYMENT_COMPLETED ?w = [OnPaymentCompleted]"
    "can_publish calm (w_tick ?w + 5) (co_orderNumber ?req) (w_db ?w)"
    "can_publish calm (w_tick ?w + 13) (co_orderNumber ?req) (w_db ?w)"
    "uuid calm (w_tick ?w + 6) \<noteq> uuid calm (w_tick ?w + 14)"
    "latest_version (co_orderNumber ?req) (w_db ?w) < 2 ^ 31 - 2"
    by (simp_all add: sample_completion_def can_publish_def booted_handlers)
  from completePayment_race [OF calm_reliable this] show ?thesis by fastforce
qed

section \<open>A cancelled subscription that is renewed\<close>

lemma renew_to_guard:
  assumes "reliable E" "job_name job \<noteq> ''scan-expired''"
    and "subscription_select (rj_subscriptionId (job_data job)) (w_db w) = Some s" "s_status s = ACTIVE" "s_autoRenew s"
  shows "run_schedule [0] (w, [processRenewal E job, q]) =
    (tick w, [catch (renew_body E (job_data job) s) (on_renewal_error E job), q])"
  using assms(3-5) by (simp add: processRenewal_renew [OF assms(2)] Let_def Act_act [OF assms(1)]
      SubscriptionRepository_findBySubscriptionId_def sql_def sql_effect_def reading_def)

definition fresh_ids :: "env \<Rightarrow> nat list \<Rightarrow> database \<Rightarrow> bool" where
  "fresh_ids E ns db \<longleftrightarrow> distinct (map (uuid E) ns) \<and>
     list_all (\<lambda>u. length u \<le> 36 \<and> u \<notin> se_eventId ` set (event_store db)) (map (uuid E) ns)"

text \<open>
  What the cancellation leaves is still a state the renewal's body runs in: its checks are behind
  it, and none of its writes looks at the status of the row.
\<close>

lemma renew_body_after_cancel:
  assumes "reliable E" "sid = rj_subscriptionId d"
    and "length sid \<le> 128" "- 1 \<le> latest_version sid (w_db w)" "latest_version sid (w_db w) < 2 ^ 31 - 2"
    and "on = order_number (clock E (w_tick w + 9)) (uuid E (w_tick w + 10))" "on \<noteq> sid"
    and "live_order E (renewal_request d) (w\<lparr>w_tick := w_tick w + 9\<rparr>) = None"
    and "can_insert on (renewal_request d) (w_db w)" "events_of on (w_db w) = []"
    and "fresh_ids E [w_tick w + 6, w_tick w + 15, w_tick w + 25, w_tick w + 31] (w_db w)"
    and "length (show_int (clock E (w_tick w + 19))) \<le> 100"
    and "handlers_of PAYMENT_CREATED w = []" "handlers_of PAYMENT_COMPLETED w = [OnPaymentCompleted]"
    and w2: "payments (w_db w2) = payments (w_db w)" "event_store (w_db w2) = event_store (w_db w) @ [r2]"
      "w_redis w2 = w_redis w" "w_handlers w2 = w_handlers w" "w_tick w2 = w_tick w + 9"
    and r2: "se_aggregateId r2 = sid" "se_eventId r2 = uuid E (w_tick w + 6)"
      "se_version r2 = latest_version sid (w_db w) + 1"
  shows "\<exists>w3 p. run (renew_body E d s) w2 = (Inr (), w3) \<and>
    payments (w_db w3) = payments (w_db w2) @ [p] \<and> p_status p = COMPLETED \<and>
    subscriptions (w_db w3) = with_key s_subscriptionId sid (renew_row (calculateNewEndDate (tz E) (s_endDate s) (rj_plan d))
      (sql_now (db_clock E (w_tick w2 + 20)))) (subscriptions (w_db w2))"
proof -
  note ids = assms(11) [unfolded fresh_ids_def, simplified]
  have ticks: "w_tick w2 + 6 = w_tick w + 15" "w_tick w2 + 10 = w_tick w + 19" "w_tick w2 + 16 = w_tick w + 25"
    "w_tick w2 + 22 = w_tick w + 31" "w_tick w2 + 21 + 1 = w_tick w + 31" using w2(5) by simp_all
  have on: "on = order_in E w2" using assms(6) w2(5) by (simp add: order_in_def add.commute)
  have "live_order E (renewal_request d) w2 = None"
    using assms(8) w2(3,5) by (simp add: live_order_def)
  moreover have "can_insert on (renewal_request d) (w_db w2)"
    using assms(9) w2(1) by (simp add: can_insert_def payment_select_def)
  moreover have "events_of on (w_db w2) = []"
    using assms(7,10) w2(2) r2(1) by (simp add: events_of_def)
  then have "can_charge E on w2"
    using ids w2(2) r2(2) assms(12) unfolding can_charge_def Let_def ticks by auto
  then have "can_renew E (rj_subscriptionId d) w2"
    using ids assms(2-5,7) on latest_version_next [OF w2(2) r2(1,3)] w2(2) r2(2)
    unfolding can_renew_def can_publish_def ticks by auto
  moreover have "handlers_of ty w2 = handlers_of ty w" for ty using w2(4) by (simp add: handlers_of_def)
  ultimately show ?thesis using renew_body_run [OF assms(1) _ on, of d s] assms(2,13,14) by auto
qed

text \<open>
  C30: A cancellation that arrives while a renewal job is between its check and its update is
  lost: there is a schedule in which both return, the payment is charged, and the subscription is
  ACTIVE again with a new end date, although it carries the reason of its cancellation.
\<close>

theorem cancel_renew_race:
  assumes "reliable E" "job_name job \<noteq> ''scan-expired''" "d = job_data job" "sid = rj_subscriptionId d"
    and "subscription_select sid (w_db w) = Some s" "s_status s = ACTIVE" "s_autoRenew s"
    and "length reason \<le> 65535" "length sid \<le> 128"
    and "- 1 \<le> latest_version sid (w_db w)" "latest_version sid (w_db w) < 2 ^ 31 - 2"
    and "on = order_number (clock E (w_tick w + 9)) (uuid E (w_tick w + 10))" "on \<noteq> sid"
    and "live_order E (renewal_request d) (w\<lparr>w_tick := w_tick w + 9\<rparr>) = None"
    and "can_insert on (renewal_request d) (w_db w)" "events_of on (w_db w) = []"
    and "fresh_ids E [w_tick w + 6, w_tick w + 15, w_tick w + 25, w_tick w + 31] (w_db w)"
    and "length (show_int (clock E (w_tick w + 19))) \<le> 100"
    and "handlers_of SUBSCRIPTION_CANCELLED w = []" "handlers_of PAYMENT_CREATED w = []"
    and "handlers_of PAYMENT_COMPLETED w = [OnPaymentCompleted]"
  shows "\<exists>sched w' p r. run_schedule sched (w, [processRenewal E job, cancelSubscription E sid reason]) =
      (w', [Done (), Done ()]) \<and>
    payments (w_db w') = payments (w_db w) @ [p] \<and> p_status p = COMPLETED \<and>
    subscription_select sid (w_db w') = Some r \<and> s_status r = ACTIVE \<and> \<not> s_autoRenew r \<and>
    s_cancelReason r = Some reason \<and>
    s_endDate r = sql_datetime (calculateNewEndDate (tz E) (s_endDate s) (rj_plan d))"
proof -
  let ?w1 = "tick w"
  note ids = assms(17) [unfolded fresh_ids_def, simplified]
  have sel: "subscription_select sid (w_db ?w1) = Some s" using assms(5) by simp
  have "can_publish E (w_tick ?w1 + 4) sid (w_db ?w1)"
    using ids assms(9-11) by (simp add: can_publish_def eval_nat_numeral)
  from cancelSubscription_run [OF assms(1) sel assms(6,8) this] obtain w2 r2 where
    second: "run (cancelSubscription E sid reason) ?w1 = (Inr (), w2)"
    and core2: "core w2 = core (?w1\<lparr>w_db := add_event r2 ((w_db ?w1)\<lparr>subscriptions := with_key s_subscriptionId sid
        (cancelled_row reason (clock E (w_tick ?w1 + 1)) (sql_now (db_clock E (w_tick ?w1 + 2))))
        (subscriptions (w_db ?w1))\<rparr>)\<rparr>)"
    and r2: "se_aggregateId r2 = sid" "se_eventId r2 = uuid E (w_tick w + 6)"
      "se_version r2 = latest_version sid (w_db w) + 1"
    and tick2: "w_tick w2 = w_tick w + 9"
    using assms(19) by (auto simp: handlers_of_def eval_nat_numeral)
  note w2 = core_eqD [OF core2, simplified]
  from renew_body_after_cancel [OF assms(1,4,9-18,20,21) w2(1,3,4,5) tick2 r2, of s] obtain w3 p where
    body: "run (renew_body E d s) w2 = (Inr (), w3)"
    and w3: "payments (w_db w3) = payments (w_db w2) @ [p]" "p_status p = COMPLETED"
      "subscriptions (w_db w3) = with_key s_subscriptionId sid (renew_row (calculateNewEndDate (tz E) (s_endDate s) (rj_plan d))
        (sql_now (db_clock E (w_tick w2 + 20)))) (subscriptions (w_db w2))"
    by blast
  have "run (catch (renew_body E d s) (on_renewal_error E job)) w2 = (Inr (), w3)"
    by (simp add: run_catch body)
  from race [OF renew_to_guard [OF assms(1,2)] second this [unfolded assms(3)]] assms(3-7)
  obtain sched where "run_schedule sched (w, [processRenewal E job, cancelSubscription E sid reason]) = (w3, [Done (), Done ()])"
    by auto
  moreover have "subscription_select sid (w_db w3) = Some (renew_row (calculateNewEndDate (tz E) (s_endDate s) (rj_plan d))
      (sql_now (db_clock E (w_tick w2 + 20)))
      (cancelled_row reason (clock E (w_tick ?w1 + 1)) (sql_now (db_clock E (w_tick ?w1 + 2))) s))"
    using assms(5) w2(2) w3(3)
    by (simp add: subscription_select_def find_row_with_key renew_row_def cancelled_row_def)
  ultimately show ?thesis using w2(1) w3(1,2)
    by (intro exI [of _ sched] exI [of _ w3] exI [of _ p] exI) (auto simp: renew_row_def cancelled_row_def)
qed

lemma cancel_renew_race_witness:
  "\<exists>sched w' r. run_schedule sched (with_subscription ACTIVE True,
      [processRenewal calm (sample_job 0), cancelSubscription calm ''S1'' ''too expensive'']) = (w', [Done (), Done ()]) \<and>
    subscription_select ''S1'' (w_db w') = Some r \<and> s_status r = ACTIVE \<and> s_cancelReason r = Some ''too expensive''"
proof -
  let ?w = "with_subscription ACTIVE True" and ?d = "job_data (sample_job 0)"
  let ?on = "order_number (clock calm (w_tick ?w + 9)) (uuid calm (w_tick ?w + 10))"
  have on: "?on = ''ORD-0-uuuuuuuu''" by (simp add: order_number_def eval_nat_numeral)
  have "job_name (sample_job 0) \<noteq> ''scan-expired''" "''S1'' = rj_subscriptionId ?d"
    "subscription_select ''S1'' (w_db ?w) = Some (sample_subscription ACTIVE True)"
    "length ''too expensive'' \<le> 65535" "length ''S1'' \<le> 128"
    "- 1 \<le> latest_version ''S1'' (w_db ?w)" "latest_version ''S1'' (w_db ?w) < 2 ^ 31 - 2" "?on \<noteq> ''S1''"
    unfolding on by (simp_all add: sample_job_def)
  moreover have
    "live_order calm (renewal_request ?d) (?w\<lparr>w_tick := w_tick ?w + 9\<rparr>) = None"
    "can_insert ?on (renewal_request ?d) (w_db ?w)" "events_of ?on (w_db ?w) = []"
    "fresh_ids calm [w_tick ?w + 6, w_tick ?w + 15, w_tick ?w + 25, w_tick ?w + 31] (w_db ?w)"
    "length (show_int (clock calm (w_tick ?w + 19))) \<le> 100" "handlers_of SUBSCRIPTION_CANCELLED ?w = []"
    "handlers_of PAYMENT_CREATED ?w = []" "handlers_of PAYMENT_COMPLETED ?w = [OnPaymentCompleted]"
    unfolding on by (simp_all add: sample_job_def live_order_def ttl_reply_def can_insert_def fresh_ids_def
        renewal_request_def currency_of_def decimal_ok_def payment_select_def renewal_amount_def won_def
        booted_handlers)
  ultimately obtain sched w' r where
    "run_schedule sched (?w, [processRenewal calm (sample_job 0), cancelSubscription calm ''S1'' ''too expensive'']) =
      (w', [Done (), Done ()])" "subscription_select ''S1'' (w_db w') = Some r" "s_status r = ACTIVE"
    "s_cancelReason r = Some ''too expensive''"
    using cancel_renew_race [OF calm_reliable _ refl, of "sample_job 0" "''S1''" ?w "sample_subscription ACTIVE True"
        "''too expensive''" ?on] by auto
  then show ?thesis by blast
qed

end
