(* ===== verification/Ledger.thy ===== *)
theory Ledger
  imports EventSourcing Operations
begin

text \<open>
  The specification of the payment handler: a ledger that knows of each order its terms and its
  status, and the steps it may take. Each operation, run alone in any environment, refines it: if
  it returns it has taken its step, and if it throws it has taken its step or none, whichever
  remote call failed and whether or not the failed call took effect.
\<close>

section \<open>Programs that take one step\<close>

text \<open>
  \<open>moves view R w p\<close>: run alone from \<open>w\<close>, the program moves what \<open>view\<close> shows of the world by
  \<open>R\<close>, or, if it throws, perhaps not at all.
\<close>

definition moves :: "(world \<Rightarrow> 'b) \<Rightarrow> ('b \<Rightarrow> 'b \<Rightarrow> bool) \<Rightarrow> world \<Rightarrow> 'a io \<Rightarrow> bool" where
  "moves view R w p \<longleftrightarrow>
     (case run p w of
        (Inl e, w') \<Rightarrow> view w' = view w \<or> R (view w) (view w')
      | (Inr x, w') \<Rightarrow> R (view w) (view w'))"

lemma moves_Fail: "moves view R w (Fail e)"
  by (simp add: moves_def)

lemma moves_after:
  assumes "keeps view m" "\<And>x w'. run m w = (Inr x, w') \<Longrightarrow> view w' = view w \<Longrightarrow> moves view R w' (f x)"
  shows "moves view R w (seq m f)"
proof -
  obtain r w' where m: "run m w = (r, w')" by fastforce
  with assms(1) have "view w' = view w" by (rule keepsD)
  with assms(2) m show ?thesis by (cases r) (auto simp: moves_def run_seq split: prod.split sum.split)
qed

lemma moves_then:
  assumes "moves view R w m" "\<And>x. keeps view (f x)"
  shows "moves view R w (seq m f)"
proof -
  obtain r w1 where m: "run m w = (r, w1)" by fastforce
  show ?thesis
  proof (cases r)
    case (Inl e)
    with assms(1) m show ?thesis by (simp add: moves_def run_seq)
  next
    case (Inr x)
    obtain r2 w2 where f: "run (f x) w1 = (r2, w2)" by fastforce
    with assms(2) have "view w2 = view w1" by (rule keepsD)
    with assms(1) m f Inr show ?thesis by (cases r2) (simp_all add: moves_def run_seq)
  qed
qed

lemma moves_sql:
  assumes "view (tick w) = view w"
    and "\<And>now x db. st (w_tick w) now (w_db w) = Inr (x, db) \<Longrightarrow> R (view w) (view ((tick w)\<lparr>w_db := db\<rparr>))"
  shows "moves view R w (sql E st)"
  using assms
  by (auto simp: moves_def sql_def run_remote sql_effect_def split: fault.split sum.split)

text \<open>A publish writes neither payments nor subscriptions.\<close>

lemma keeps_tables_publish:
  "keeps (\<lambda>w. (payments (w_db w), subscriptions (w_db w))) (publish E ty a aty payload)"
  unfolding EventBus_publish_def Let_def EventStoreRepository_getLatestVersion_def EventStoreRepository_append_def
  by (intro keeps_seq keeps_sql keeps_uuidv4 keeps_new_date keeps_act keeps_all_settled keeps_basic)
    (auto simp: reading_def event_insert_Inr intro: keeps_weaken [OF keeps_core_projector] dest: core_eqD)

section \<open>The ledger\<close>

type_synonym terms = "string \<times> string \<times> money \<times> string"

type_synonym ledger = "string \<Rightarrow> (terms \<times> payment_status) option"

definition entry_of :: "payment \<Rightarrow> terms \<times> payment_status" where
  "entry_of p = ((p_userId p, p_productId p, p_amount p, p_currency p), p_status p)"

definition ledger_of :: "world \<Rightarrow> ledger" where
  "ledger_of w = (\<lambda>on. map_option entry_of (payment_select on (w_db w)))"

definition terms_of :: "create_payment_request \<Rightarrow> terms" where
  "terms_of req = (cp_userId req, cp_productId req, cp_amount req, currency_of req)"

inductive ledger_step :: "payment_op \<Rightarrow> ledger \<Rightarrow> ledger \<Rightarrow> bool" where
  opened: "L on = None \<Longrightarrow> ledger_step (Create req) L (L(on \<mapsto> (terms_of req, PENDING)))"
| completed: "L (co_orderNumber req) = Some (t, PENDING) \<Longrightarrow>
    ledger_step (Complete req) L (L(co_orderNumber req \<mapsto> (t, COMPLETED)))"
| refunded: "L (rf_orderNumber req) = Some (t, COMPLETED) \<Longrightarrow>
    ledger_step (Refund req) L (L(rf_orderNumber req \<mapsto> (t, REFUNDED)))"
| rejected: "L on = Some (t, st) \<Longrightarrow> ledger_step (Reject on reason) L (L(on \<mapsto> (t, FAILED)))"

inductive_cases ledger_stepE: "ledger_step op L L'"

lemma ledger_of_payments: "payments (w_db w') = payments (w_db w) \<Longrightarrow> ledger_of w' = ledger_of w"
  by (simp add: ledger_of_def payment_select_def)

lemma ledger_tick [simp]: "ledger_of (tick w) = ledger_of w"
  by (simp add: ledger_of_def)

section \<open>The statements\<close>

lemma update_where_Inr_row:
  "update_where P f rows = Inr rows' \<Longrightarrow> r \<in> set rows \<Longrightarrow> P r \<Longrightarrow> \<exists>r'. f r = Inr r'"
proof (induction rows arbitrary: rows')
  case (Cons x rows)
  from Cons.prems(1) obtain x' rest where
    "(if P x then f x else Inr x) = Inr x'" "update_where P f rows = Inr rest"
    unfolding update_where_Cons by blast
  with Cons show ?case by auto
qed simp

lemma payment_update_ledger:
  assumes upd: "payment_update on st extra now (w_db w) = Inr (u, db)" and sets: "payment_sets_ok st extra"
    and at: "ledger_of w on = Some (t, st0)"
  shows "ledger_of (w\<lparr>w_db := db\<rparr>) = (ledger_of w)(on \<mapsto> (t, st))"
proof
  fix k
  let ?f = "payment_set_row st (map (\<lambda>(k, v). (column_name k, v)) extra) now"
  from upd obtain rows where db: "db = (w_db w)\<lparr>payments := rows\<rparr>"
    and rows: "update_where (\<lambda>r. p_orderNumber r = on) ?f (payments (w_db w)) = Inr rows"
    by (rule payment_update_Inr)
  from at obtain p where p: "find_row p_orderNumber on (payments (w_db w)) = Some p" "entry_of p = (t, st0)"
    by (auto simp: ledger_of_def payment_select_def)
  have "p \<in> set (payments (w_db w))" "p_orderNumber p = on" using find_row_Some [OF p(1)] by auto
  from update_where_Inr_row [OF rows this] obtain p' where p': "?f p = Inr p'" by blast
  have key: "\<And>r r'. p_orderNumber r = on \<Longrightarrow> ?f r = Inr r' \<Longrightarrow> p_orderNumber r' = on"
    by (simp add: payment_set_row_key(1))
  have "find_row p_orderNumber k rows = (if k = on then Some p' else find_row p_orderNumber k (payments (w_db w)))"
    using find_row_update_where [OF rows key, where k' = k] p(1) p' by simp
  moreover have "entry_of p' = (t, st)"
    using sets p' p(2) payment_set_row_key [OF p']
    by (auto simp: payment_sets_ok_def ordered_terms_def entry_of_def)
  ultimately show "ledger_of (w\<lparr>w_db := db\<rparr>) k = ((ledger_of w)(on \<mapsto> (t, st))) k"
    by (simp add: ledger_of_def payment_select_def db)
qed

lemma payment_insert_ledger:
  assumes "payment_insert (new_payment on req) now (w_db w) = Inr (n, db)"
  shows "ledger_of w on = None \<and> ledger_of (w\<lparr>w_db := db\<rparr>) = (ledger_of w)(on \<mapsto> (terms_of req, PENDING))"
  using assms
  by (auto simp: payment_insert_Inr ledger_of_def payment_select_def find_row_append new_payment_def
      payment_data.extend_def entry_of_def terms_of_def fun_eq_iff split: option.split)

section \<open>The operations\<close>

lemma keeps_ledger_publish: "keeps ledger_of (publish E ty a aty payload)"
  using keeps_tables_publish by (rule keeps_weaken) (auto intro!: ledger_of_payments)

lemma keeps_ledger:
  "keeps ledger_of (new_date E)" "keeps ledger_of (uuidv4 E)" "keeps ledger_of (RedisClient_get E key)"
  "keeps ledger_of (RedisClient_set E key v ttl)" "keeps ledger_of (getOrCreateQueue name)"
  "keeps ledger_of (queue_add E q jn jd opts)" "keeps ledger_of (PaymentRepository_findByOrderNumber E on)"
  unfolding new_date_def uuidv4_def RedisClient_get_def RedisClient_set_def getOrCreateQueue_def queue_add_def
    PaymentRepository_findByOrderNumber_def
  by (rule keeps_act keeps_remote keeps_sql; simp add: ledger_of_def Let_def reading_def split: option.split)+

lemma find_ledger:
  assumes "run (PaymentRepository_findByOrderNumber E on) w = (Inr x, w')"
  shows "ledger_of w on = map_option entry_of x"
  using assms unfolding PaymentRepository_findByOrderNumber_def
  by (rule run_sql_Inr) (simp add: reading_def ledger_of_def)

text \<open>An update of the found payment, and what follows it.\<close>

lemma moves_update:
  assumes "ledger_of w on = Some (t, st0)" "payment_sets_ok st extra"
    and "R (ledger_of w) ((ledger_of w)(on \<mapsto> (t, st)))" "\<And>x. keeps ledger_of (f x)"
  shows "moves ledger_of R w (seq (PaymentRepository_updateStatus E on st extra) f)"
proof (rule moves_then)
  show "moves ledger_of R w (PaymentRepository_updateStatus E on st extra)"
    unfolding PaymentRepository_updateStatus_def
  proof (rule moves_sql)
    fix now x db
    assume "payment_update on st extra now (w_db w) = Inr (x, db)"
    then have "payment_update on st extra now (w_db (tick w)) = Inr (x, db)" by simp
    from payment_update_ledger [OF this assms(2), of t st0] assms(1,3)
    show "R (ledger_of w) (ledger_of ((tick w)\<lparr>w_db := db\<rparr>))" by simp
  qed simp
qed (rule assms(4))

lemmas keeps_rest = keeps_seq keeps_ledger keeps_ledger_publish keeps_basic

lemma moves_create: "moves ledger_of (ledger_step (Create req)) w (createPayment E req)"
  unfolding createPayment_def Let_def
proof (intro moves_after keeps_ledger)
  fix now w1 u w2 existing w3
  let ?on = "order_number now u"
  have create: "moves ledger_of (ledger_step (Create req)) w3 (PaymentRepository_create E (new_payment ?on req))"
    unfolding PaymentRepository_create_def
  proof (rule moves_sql)
    fix now' x db
    assume "payment_insert (new_payment ?on req) now' (w_db w3) = Inr (x, db)"
    then have "payment_insert (new_payment ?on req) now' (w_db (tick w3)) = Inr (x, db)" by simp
    from payment_insert_ledger [OF this]
    show "ledger_step (Create req) (ledger_of w3) (ledger_of ((tick w3)\<lparr>w_db := db\<rparr>))"
      using ledger_step.opened [of "ledger_of w3" ?on req] by simp
  qed simp
  show "moves ledger_of (ledger_step (Create req)) w3
     (if existing \<noteq> None \<and> existing \<noteq> Some '''' then Fail (DuplicatePaymentError (the existing)) else
      seq (PaymentRepository_create E (new_payment ?on req)) (\<lambda>_.
      seq (RedisClient_set E (idempotency_key (cp_userId req) (cp_productId req)) ?on (Some IDEMPOTENCY_TTL)) (\<lambda>_.
      seq (publish E PAYMENT_CREATED ?on ''Payment'' (created_payload ?on req)) (\<lambda>_.
      seq (getOrCreateQueue PAYMENT_PROCESSING) (\<lambda>queue.
      seq (queue_add E queue ''process-payment'' (payment_job ?on req) payment_job_options) (\<lambda>_.
      Done ?on))))))"
    by (auto intro!: moves_Fail moves_then [OF create] keeps_rest)
qed

lemma moves_complete: "moves ledger_of (ledger_step (Complete req)) w (completePayment E req)"
  unfolding completePayment_def
proof (rule moves_after [OF keeps_ledger(7)])
  fix x w1
  assume find: "run (PaymentRepository_findByOrderNumber E (co_orderNumber req)) w = (Inr x, w1)"
    and same: "ledger_of w1 = ledger_of w"
  show "moves ledger_of (ledger_step (Complete req)) w1 (case x of
       None \<Rightarrow> Fail (NotFoundError ''Payment'' (co_orderNumber req))
     | Some p \<Rightarrow>
         if p_status p \<noteq> PENDING then Fail (DuplicatePaymentError (co_orderNumber req)) else
         seq (new_date E) (\<lambda>now.
         seq (PaymentRepository_updateStatus E (co_orderNumber req) COMPLETED
               [(''transactionId'', VStr (co_transactionId req)), (''paidAt'', VDate now)]) (\<lambda>_.
         seq (new_date E) (\<lambda>paidAt.
         seq (publish E PAYMENT_COMPLETED (co_orderNumber req) ''Payment''
               (PaymentCompletedPayload (co_orderNumber req) (co_transactionId req)
                  (co_paidAmount req) paidAt)) (\<lambda>_.
         Done ())))))"
    using find_ledger [OF find] same
    by (auto simp: entry_of_def intro!: moves_Fail moves_after [OF keeps_ledger(1)] moves_update payment_sets keeps_rest
        ledger_step.completed split: option.split)
qed

lemma moves_refund: "moves ledger_of (ledger_step (Refund req)) w (refundPayment E req)"
  unfolding refundPayment_def
proof (rule moves_after [OF keeps_ledger(7)])
  fix x w1
  assume find: "run (PaymentRepository_findByOrderNumber E (rf_orderNumber req)) w = (Inr x, w1)"
    and same: "ledger_of w1 = ledger_of w"
  show "moves ledger_of (ledger_step (Refund req)) w1 (case x of
       None \<Rightarrow> Fail (NotFoundError ''Payment'' (rf_orderNumber req))
     | Some p \<Rightarrow>
         if p_status p \<noteq> COMPLETED
         then Fail (PlainError (''Cannot refund payment in '' @ payment_status_str (p_status p) @ '' status''))
         else
         seq (new_date E) (\<lambda>now.
         seq (PaymentRepository_updateStatus E (rf_orderNumber req) REFUNDED
               [(''refundAmount'', VNum (rf_refundAmount req)),
                (''refundReason'', VStr (rf_reason req)), (''refundedAt'', VDate now)]) (\<lambda>_.
         seq (new_date E) (\<lambda>refundedAt.
         seq (publish E PAYMENT_REFUNDED (rf_orderNumber req) ''Payment''
               (PaymentRefundedPayload (rf_orderNumber req) (rf_refundAmount req)
                  (rf_reason req) refundedAt)) (\<lambda>_.
         Done ())))))"
    using find_ledger [OF find] same
    by (auto simp: entry_of_def intro!: moves_Fail moves_after [OF keeps_ledger(1)] moves_update payment_sets keeps_rest
        ledger_step.refunded split: option.split)
qed

lemma moves_reject: "moves ledger_of (ledger_step (Reject on reason)) w (failPayment E on reason)"
  unfolding failPayment_def
proof (rule moves_after [OF keeps_ledger(7)])
  fix x w1
  assume find: "run (PaymentRepository_findByOrderNumber E on) w = (Inr x, w1)"
    and same: "ledger_of w1 = ledger_of w"
  show "moves ledger_of (ledger_step (Reject on reason)) w1 (case x of
       None \<Rightarrow> Fail (NotFoundError ''Payment'' on)
     | Some p \<Rightarrow>
         seq (PaymentRepository_updateStatus E on FAILED []) (\<lambda>_.
         seq (new_date E) (\<lambda>failedAt.
         seq (publish E PAYMENT_FAILED on ''Payment'' (PaymentFailedPayload on reason failedAt)) (\<lambda>_.
         Done ()))))"
    using find_ledger [OF find] same
    by (auto simp: entry_of_def intro!: moves_Fail moves_update payment_sets keeps_rest ledger_step.rejected
        split: option.split)
qed

text \<open>
  C8: The handler refines a ledger that knows of each order its terms and its status. Run alone from
  any world in any environment, an operation that returns has taken its one step of the ledger:
  Create opens a new order as PENDING with the terms of the request, Complete leads from PENDING
  to COMPLETED, Refund from COMPLETED to REFUNDED, and Reject from any status to FAILED; no other
  order changes. An operation that throws has taken this step or left the ledger as it was,
  whichever call failed and whether or not the failed call took effect.
\<close>

theorem payments_refine_ledger: "moves ledger_of (ledger_step op) w (payment_op_prog E op)"
  by (cases op) (auto intro: moves_create moves_complete moves_refund moves_reject moves_then keeps_basic)

end
