(* ===== verification/Registry.thy ===== *)
theory Registry
  imports Ledger SubscriptionLaws HttpLaws
begin

text \<open>
  The specification of the subscriptions: a registry that knows of each subscription its owner,
  plan, status, end date and whether it renews, and the steps it may take. Creating, cancelling
  and a renewal job, each run alone in any environment, refine it; every other activity of the
  process leaves the registry as it is. So if the activities take turns, a user never has two
  active subscriptions, whatever fails (\<open>createSubscription_race\<close> shows that the turns matter).
\<close>

section \<open>The registry\<close>

record registration =
  rg_userId :: string
  rg_planId :: string
  rg_plan :: subscription_plan
  rg_status :: subscription_status
  rg_startDate :: date
  rg_endDate :: date
  rg_autoRenew :: bool

type_synonym registry = "string \<Rightarrow> registration option"

definition registration_of :: "subscription \<Rightarrow> registration" where
  "registration_of s = \<lparr>rg_userId = s_userId s, rg_planId = s_planId s, rg_plan = s_plan s,
     rg_status = s_status s, rg_startDate = s_startDate s, rg_endDate = s_endDate s, rg_autoRenew = s_autoRenew s\<rparr>"

lemma registration_of_simps [simp]:
  "rg_userId (registration_of s) = s_userId s" "rg_status (registration_of s) = s_status s"
  "rg_endDate (registration_of s) = s_endDate s" "rg_autoRenew (registration_of s) = s_autoRenew s"
  by (simp_all add: registration_of_def)

definition registry_of :: "world \<Rightarrow> registry" where
  "registry_of w = (\<lambda>sid. map_option registration_of (subscription_select sid (w_db w)))"

definition active_for :: "string \<Rightarrow> registration \<Rightarrow> bool" where
  "active_for uid m \<longleftrightarrow> rg_userId m = uid \<and> rg_status m = ACTIVE"

datatype subscription_op = Subscribe create_subscription_request | Unsubscribe string string | Renewal job

abbreviation renewed_id :: "job \<Rightarrow> string" where
  "renewed_id job \<equiv> rj_subscriptionId (job_data job)"

text \<open>
  The steps, in the time zone \<open>z\<close> at the time \<open>now\<close>. How long a period is does not come from the code's
  own computation: it is \<open>period_days\<close>, the days of the month or year that begins at the given date.
\<close>

inductive registry_step ::
    "int \<Rightarrow> date \<Rightarrow> subscription_op \<Rightarrow> registry \<Rightarrow> registry \<Rightarrow> bool" for z now where
  subscribed: "(\<forall>k m. R k = Some m \<longrightarrow> \<not> active_for (cs_userId req) m) \<Longrightarrow> R sid = None \<Longrightarrow>
    plan_of_str (cs_plan req) = Some plan \<Longrightarrow>
    registry_step z now (Subscribe req) R (R(sid \<mapsto>
      \<lparr>rg_userId = cs_userId req, rg_planId = cs_planId req, rg_plan = plan, rg_status = ACTIVE,
       rg_startDate = sql_datetime now,
       rg_endDate = sql_datetime (now + period_days z now (cs_plan req) * 86400000), rg_autoRenew = True\<rparr>))"
| unsubscribed: "R sid = Some m \<Longrightarrow> rg_status m = ACTIVE \<Longrightarrow>
    registry_step z now (Unsubscribe sid reason) R
      (R(sid \<mapsto> m\<lparr>rg_status := SUB_CANCELLED, rg_autoRenew := False\<rparr>))"
| renewed: "job_name job \<noteq> ''scan-expired'' \<Longrightarrow> R (renewed_id job) = Some m \<Longrightarrow> rg_status m = ACTIVE \<Longrightarrow>
    rg_autoRenew m \<Longrightarrow> registry_step z now (Renewal job) R (R(renewed_id job \<mapsto>
      m\<lparr>rg_endDate := sql_datetime (rg_endDate m +
        period_days z (rg_endDate m) (rj_plan (job_data job)) * 86400000)\<rparr>))"
| lapsed: "job_name job \<noteq> ''scan-expired'' \<Longrightarrow> R (renewed_id job) = Some m \<Longrightarrow> rg_status m = ACTIVE \<Longrightarrow>
    \<not> rg_autoRenew m \<Longrightarrow> registry_step z now (Renewal job) R (R(renewed_id job \<mapsto> m\<lparr>rg_status := EXPIRED\<rparr>))"
| skipped: "job_name job = ''scan-expired'' \<or> (\<forall>m. R (renewed_id job) = Some m \<longrightarrow> rg_status m \<noteq> ACTIVE) \<Longrightarrow>
    registry_step z now (Renewal job) R R"

inductive_cases registry_stepE: "registry_step z now op R R'"

lemma registry_of_subscriptions: "subscriptions (w_db w') = subscriptions (w_db w) \<Longrightarrow> registry_of w' = registry_of w"
  by (simp add: registry_of_def subscription_select_def)

lemma registry_tick [simp]: "registry_of (tick w) = registry_of w"
  by (simp add: registry_of_def)

section \<open>The statements\<close>

lemma subscription_update_registry:
  assumes upd: "subscription_update sid st extra now (w_db w) = Inr (u, db)" and at: "registry_of w sid = Some m"
    and sets: "\<And>r r'. subscription_set_row st (map (\<lambda>(k, v). (column_name k, v)) extra) now r = Inr r' \<Longrightarrow>
      registration_of r' = f (registration_of r)"
  shows "registry_of (w\<lparr>w_db := db\<rparr>) = (registry_of w)(sid \<mapsto> f m)"
proof
  fix k
  let ?f = "subscription_set_row st (map (\<lambda>(k, v). (column_name k, v)) extra) now"
  from upd obtain rows where db: "db = (w_db w)\<lparr>subscriptions := rows\<rparr>"
    and rows: "update_where (\<lambda>r. s_subscriptionId r = sid) ?f (subscriptions (w_db w)) = Inr rows"
    by (rule subscription_update_Inr)
  from at obtain s where s: "find_row s_subscriptionId sid (subscriptions (w_db w)) = Some s" "registration_of s = m"
    by (auto simp: registry_of_def subscription_select_def)
  have "s \<in> set (subscriptions (w_db w))" "s_subscriptionId s = sid" using find_row_Some [OF s(1)] by auto
  from update_where_Inr_row [OF rows this] obtain s' where s': "?f s = Inr s'" by blast
  have key: "\<And>r r'. s_subscriptionId r = sid \<Longrightarrow> ?f r = Inr r' \<Longrightarrow> s_subscriptionId r' = sid"
    by (simp add: subscription_set_row_key(1))
  have "find_row s_subscriptionId k rows =
      (if k = sid then Some s' else find_row s_subscriptionId k (subscriptions (w_db w)))"
    using find_row_update_where [OF rows key, where k' = k] s(1) s' by simp
  with sets [OF s'] s(2) show "registry_of (w\<lparr>w_db := db\<rparr>) k = ((registry_of w)(sid \<mapsto> f m)) k"
    by (simp add: registry_of_def subscription_select_def db)
qed

text \<open>What the two updates of the handlers do to a registration.\<close>

lemma update_registrations:
  "subscription_set_row SUB_CANCELLED (map (\<lambda>(k, v). (column_name k, v))
      [(''cancelledAt'', VDate t), (''cancelReason'', VStr reason), (''autoRenew'', VBool False)]) now r = Inr r' \<Longrightarrow>
    registration_of r' = registration_of r\<lparr>rg_status := SUB_CANCELLED, rg_autoRenew := False\<rparr>"
  "subscription_set_row EXPIRED (map (\<lambda>(k, v). (column_name k, v)) []) now r = Inr r' \<Longrightarrow>
    registration_of r' = registration_of r\<lparr>rg_status := EXPIRED\<rparr>"
  by (auto simp: subscription_set_row_def set_subscription_column_def column_defs column_name_values
      registration_of_def split: if_splits)

lemma subscription_renew_registry:
  assumes "subscription_renew sid newEnd now (w_db w) = Inr (u, db)" "registry_of w sid = Some m" "rg_status m = ACTIVE"
  shows "registry_of (w\<lparr>w_db := db\<rparr>) = (registry_of w)(sid \<mapsto> m\<lparr>rg_endDate := sql_datetime newEnd\<rparr>)"
proof
  fix k
  let ?f = "\<lambda>r. Inr (renew_row newEnd now r)"
  from assms(1) obtain rows where db: "db = (w_db w)\<lparr>subscriptions := rows\<rparr>"
    and rows: "update_where (\<lambda>r. s_subscriptionId r = sid) ?f (subscriptions (w_db w)) = Inr rows"
    by (auto simp: subscription_renew_def split: sum.splits)
  have "\<And>r r'. s_subscriptionId r = sid \<Longrightarrow> ?f r = Inr r' \<Longrightarrow> s_subscriptionId r' = sid"
    by (auto simp: renew_row_def)
  from find_row_update_where [OF rows this, where k' = k] assms(2,3)
  show "registry_of (w\<lparr>w_db := db\<rparr>) k = ((registry_of w)(sid \<mapsto> m\<lparr>rg_endDate := sql_datetime newEnd\<rparr>)) k"
    by (auto simp: registry_of_def subscription_select_def db renew_row_def registration_of_def)
qed

lemma subscription_insert_registry:
  assumes "subscription_insert (new_subscription sid req start endDate) now (w_db w) = Inr (n, db)"
  shows "\<exists>plan. plan_of_str (cs_plan req) = Some plan \<and> registry_of w sid = None \<and>
    registry_of (w\<lparr>w_db := db\<rparr>) = (registry_of w)(sid \<mapsto>
      \<lparr>rg_userId = cs_userId req, rg_planId = cs_planId req, rg_plan = plan, rg_status = ACTIVE,
       rg_startDate = sql_datetime start,
       rg_endDate = sql_datetime endDate, rg_autoRenew = True\<rparr>)"
  using assms
  by (auto simp: subscription_insert_Inr registry_of_def subscription_select_def find_row_append new_subscription_def
      registration_of_def fun_eq_iff split: option.split)

section \<open>What leaves the registry as it is\<close>

lemma keeps_registry_tables:
  "keeps (\<lambda>w. (payments (w_db w), subscriptions (w_db w))) p \<Longrightarrow> keeps registry_of p"
  by (erule keeps_weaken) (auto intro!: registry_of_subscriptions)

lemma keeps_registry_services:
  "keeps registry_of (new_date E)" "keeps registry_of (uuidv4 E)" "keeps registry_of (RedisClient_get E key)"
  "keeps registry_of (RedisClient_set E key v ttl)" "keeps registry_of (getOrCreateQueue name)"
  "keeps registry_of (queue_add E q jn jd opts)" "keeps registry_of (createWorker name proc c)"
  "keeps registry_of (close_handle E h)" "keeps registry_of (unbound E)"
  unfolding new_date_def uuidv4_def RedisClient_get_def RedisClient_set_def getOrCreateQueue_def queue_add_def
    createWorker_def close_handle_def unbound_def
  by (rule keeps_act keeps_remote; simp add: registry_of_def Let_def split: option.split)+

lemma keeps_registry_sql:
  assumes "\<And>n now db x db'. st n now db = Inr (x, db') \<Longrightarrow> subscriptions db' = subscriptions db"
  shows "keeps registry_of (sql E st)"
  by (rule keeps_sql) (use assms in \<open>auto intro!: registry_of_subscriptions\<close>)

lemma reading_db: "reading q now db = Inr (x, db') \<Longrightarrow> db' = db"
  "reading_page pg now db = Inr (x, db') \<Longrightarrow> db' = db"
  by (auto simp: reading_def reading_page_def split: sum.splits)

lemma keeps_registry_repositories:
  "keeps registry_of (PaymentRepository_create E d)" "keeps registry_of (PaymentRepository_findByOrderNumber E on)"
  "keeps registry_of (PaymentRepository_findByUserId E uid l off)"
  "keeps registry_of (PaymentRepository_updateStatus E on st extra)"
  "keeps registry_of (SubscriptionRepository_findBySubscriptionId E sid)"
  "keeps registry_of (SubscriptionRepository_findActiveByUserId E uid)"
  "keeps registry_of (SubscriptionRepository_findExpiredForRenewal E b)"
  "keeps registry_of (EventStoreRepository_findByAggregateId E a)"
  "keeps registry_of (EventStoreRepository_findByType E ty l off)"
  "keeps registry_of (EventStoreRepository_findRecent E l)"
  "keeps registry_of (getDailySummary E from_day to_day)" "keeps registry_of (getTotalStats E)"
  "keeps registry_of (no_row E)"
  unfolding repository_defs PaymentRepository_findByUserId_def EventStoreRepository_findByType_def
    EventStoreRepository_findRecent_def getDailySummary_def getTotalStats_def no_row_def
  by (rule keeps_registry_sql;
    auto dest: reading_db payment_update_keys(2) simp: payment_insert_Inr)+

lemmas keeps_registry = keeps_seq keeps_basic keeps_registry_services keeps_registry_repositories
  keeps_registry_tables [OF keeps_tables_publish]

lemma keeps_registry_payments:
  "keeps registry_of (createPayment E req)" "keeps registry_of (completePayment E creq)"
  "keeps registry_of (refundPayment E rreq)" "keeps registry_of (failPayment E on reason)"
  "keeps registry_of (getPayment E on)" "keeps registry_of (getUserPayments E uid l off)"
  unfolding createPayment_def completePayment_def refundPayment_def failPayment_def getPayment_def
    getUserPayments_def Let_def
  by (auto intro!: keeps_registry split: option.split)

lemma keeps_registry_renewals:
  "keeps registry_of (scanAndEnqueueExpired E)" "keeps registry_of (on_renewal_error E job e)"
  "keeps registry_of (getSubscription E sid)" "keeps registry_of (getActiveSubscription E uid)"
proof -
  have "keeps registry_of (enqueue_renewals E q subs)" for q subs
    by (induction subs) (auto intro!: keeps_registry)
  then show "keeps registry_of (scanAndEnqueueExpired E)" "keeps registry_of (on_renewal_error E job e)"
    "keeps registry_of (getSubscription E sid)" "keeps registry_of (getActiveSubscription E uid)"
    unfolding scanAndEnqueueExpired_def on_renewal_error_def getSubscription_def getActiveSubscription_def
    by (auto intro!: keeps_registry split: option.split)
qed

section \<open>The operations\<close>

lemma find_registry:
  assumes "run (SubscriptionRepository_findBySubscriptionId E sid) w = (Inr x, w')"
  shows "registry_of w sid = map_option registration_of x"
  using assms unfolding SubscriptionRepository_findBySubscriptionId_def
  by (rule run_sql_Inr) (simp add: reading_def registry_of_def)

lemma find_active_registry:
  assumes "reads_all E" "run (SubscriptionRepository_findActiveByUserId E uid) w = (Inr None, w')" "registry_of w k = Some m"
  shows "\<not> active_for uid m"
proof -
  from assms(2) have "active_of uid (w_db w) = []"
    unfolding SubscriptionRepository_findActiveByUserId_def
    by (rule run_sql_Inr) (simp add: reading_def find_active_None [OF assms(1)])
  moreover from assms(3) obtain s where "s \<in> set (subscriptions (w_db w))" "registration_of s = m"
    by (auto simp: registry_of_def subscription_select_def dest: find_row_Some)
  ultimately show ?thesis by (auto simp: active_of_def filter_empty_conv active_for_def)
qed

lemma moves_subscribe:
  assumes "reads_all E"
  shows "moves registry_of (registry_step (tz E) (clock E (w_tick w + 2)) (Subscribe req)) w (createSubscription E req)"
  unfolding createSubscription_def Let_def
proof (rule moves_after [OF keeps_registry_repositories(6)])
  fix existing w1
  assume find: "run (SubscriptionRepository_findActiveByUserId E (cs_userId req)) w = (Inr existing, w1)"
    and same: "registry_of w1 = registry_of w"
  have create: "moves registry_of (registry_step (tz E) (clock E (w_tick w + 2)) (Subscribe req)) w2
      (SubscriptionRepository_create E (new_subscription sid req start (calculateEndDate (tz E) start (cs_plan req))))"
    if none: "existing = None" and w2: "registry_of w2 = registry_of w" and start: "start = clock E (w_tick w + 2)"
    for w2 sid start
    unfolding SubscriptionRepository_create_def
  proof (rule moves_sql)
    fix now x db
    assume "subscription_insert (new_subscription sid req start (calculateEndDate (tz E) start (cs_plan req)))
      now (w_db w2) = Inr (x, db)"
    then have "subscription_insert (new_subscription sid req start (calculateEndDate (tz E) start (cs_plan req)))
      now (w_db (tick w2)) = Inr (x, db)" by simp
    from subscription_insert_registry [OF this] obtain plan where plan: "plan_of_str (cs_plan req) = Some plan"
      "registry_of w2 sid = None" "registry_of ((tick w2)\<lparr>w_db := db\<rparr>) = (registry_of w2)(sid \<mapsto>
         \<lparr>rg_userId = cs_userId req, rg_planId = cs_planId req, rg_plan = plan, rg_status = ACTIVE,
          rg_startDate = sql_datetime start,
          rg_endDate = sql_datetime (start + period_days (tz E) start (cs_plan req) * 86400000), rg_autoRenew = True\<rparr>)"
      by (auto simp: end_date_days ms_per_day_def)
    have "\<forall>k m. registry_of w2 k = Some m \<longrightarrow> \<not> active_for (cs_userId req) m"
      using find_active_registry [OF assms find [unfolded none]] w2 by simp
    from registry_step.subscribed [OF this plan(2,1)]
    show "registry_step (tz E) (clock E (w_tick w + 2)) (Subscribe req) (registry_of w2) (registry_of ((tick w2)\<lparr>w_db := db\<rparr>))"
      unfolding plan(3) start .
  qed simp
  have tick: "w_tick w1 = Suc (w_tick w)"
    using find by (auto simp: SubscriptionRepository_findActiveByUserId_def sql_def run_remote_Inr sql_effect_def
        reading_def)
  show "moves registry_of (registry_step (tz E) (clock E (w_tick w + 2)) (Subscribe req)) w1
     (if existing \<noteq> None
      then Fail (ConflictError (''User '' @ cs_userId req @ '' already has an active subscription''))
      else seq (uuidv4 E) (\<lambda>u.
     seq (new_date E) (\<lambda>startDate.
     seq (SubscriptionRepository_create E (new_subscription (subscription_id u) req startDate
           (calculateEndDate (tz E) startDate (cs_plan req)))) (\<lambda>_.
     seq (publish E SUBSCRIPTION_CREATED (subscription_id u) ''Subscription''
           (SubscriptionCreatedPayload (subscription_id u) (cs_userId req) (cs_planId req)
              startDate (calculateEndDate (tz E) startDate (cs_plan req)))) (\<lambda>_.
     Done (subscription_id u))))))"
    using same tick
    by (auto simp: run_new_date run_uuidv4 eval_nat_numeral intro!: moves_Fail moves_after [OF keeps_registry_services(1)]
        moves_after [OF keeps_registry_services(2)] moves_then [OF create [unfolded numeral_2_eq_2 add_Suc_right add_0_right]] keeps_registry)
qed

text \<open>An update of the found subscription, and what follows it.\<close>

lemma moves_subscription_update:
  assumes "registry_of w sid = Some m" "R (registry_of w) ((registry_of w)(sid \<mapsto> f m))"
    and "\<And>now r r'. subscription_set_row st (map (\<lambda>(k, v). (column_name k, v)) extra) now r = Inr r' \<Longrightarrow>
      registration_of r' = f (registration_of r)"
    and "\<And>x. keeps registry_of (rest x)"
  shows "moves registry_of R w (seq (SubscriptionRepository_updateStatus E sid st extra) rest)"
proof (rule moves_then)
  show "moves registry_of R w (SubscriptionRepository_updateStatus E sid st extra)"
    unfolding SubscriptionRepository_updateStatus_def
  proof (rule moves_sql)
    fix now x db
    assume "subscription_update sid st extra now (w_db w) = Inr (x, db)"
    then have "subscription_update sid st extra now (w_db (tick w)) = Inr (x, db)" by simp
    from subscription_update_registry [OF this, where m = m and f = f] assms(1-3)
    show "R (registry_of w) (registry_of ((tick w)\<lparr>w_db := db\<rparr>))" by simp
  qed simp
qed (rule assms(4))

lemma moves_set_cancelled:
  assumes "registry_of w sid = Some m" "\<And>x. keeps registry_of (rest x)"
    and "R (registry_of w) ((registry_of w)(sid \<mapsto> m\<lparr>rg_status := SUB_CANCELLED, rg_autoRenew := False\<rparr>))"
  shows "moves registry_of R w (seq (SubscriptionRepository_updateStatus E sid SUB_CANCELLED
      [(''cancelledAt'', VDate t), (''cancelReason'', VStr reason), (''autoRenew'', VBool False)]) rest)"
  using assms
  by (intro moves_subscription_update
      [where f = "\<lambda>m. m\<lparr>rg_status := SUB_CANCELLED, rg_autoRenew := False\<rparr>"] update_registrations(1))

lemma moves_set_expired:
  assumes "registry_of w sid = Some m" "\<And>x. keeps registry_of (rest x)"
    and "R (registry_of w) ((registry_of w)(sid \<mapsto> m\<lparr>rg_status := EXPIRED\<rparr>))"
  shows "moves registry_of R w (seq (SubscriptionRepository_updateStatus E sid EXPIRED []) rest)"
  using assms
  by (intro moves_subscription_update [where f = "\<lambda>m. m\<lparr>rg_status := EXPIRED\<rparr>"] update_registrations(2))

lemma moves_unsubscribe:
  "moves registry_of (registry_step (tz E) (clock E (w_tick w + 2)) (Unsubscribe sid reason)) w (cancelSubscription E sid reason)"
  unfolding cancelSubscription_def
proof (rule moves_after [OF keeps_registry_repositories(5)])
  fix x w1
  assume find: "run (SubscriptionRepository_findBySubscriptionId E sid) w = (Inr x, w1)"
    and same: "registry_of w1 = registry_of w"
  show "moves registry_of (registry_step (tz E) (clock E (w_tick w + 2)) (Unsubscribe sid reason)) w1 (case x of
       None \<Rightarrow> Fail (NotFoundError ''Subscription'' sid)
     | Some s \<Rightarrow>
         if s_status s \<noteq> ACTIVE then Fail (ConflictError (''Subscription '' @ sid @ '' is not active'')) else
         seq (new_date E) (\<lambda>now.
         seq (SubscriptionRepository_updateStatus E sid SUB_CANCELLED
               [(''cancelledAt'', VDate now), (''cancelReason'', VStr reason), (''autoRenew'', VBool False)]) (\<lambda>_.
         seq (new_date E) (\<lambda>cancelledAt.
         seq (publish E SUBSCRIPTION_CANCELLED sid ''Subscription''
               (SubscriptionCancelledPayload sid cancelledAt reason)) (\<lambda>_.
         Done ())))))"
    using find_registry [OF find] same
    by (auto intro!: moves_Fail moves_after [OF keeps_registry_services(1)]
        moves_set_cancelled keeps_registry registry_step.unsubscribed
        split: option.split)
qed

lemma moves_keeps: "keeps view p \<Longrightarrow> R (view w) (view w) \<Longrightarrow> moves view R w p"
  by (auto simp: moves_def dest: keepsD split: prod.split sum.split)

lemma moves_catch_rethrow:
  assumes "moves view R w m" "\<And>e. keeps view (h e)" "\<And>e. ends (\<lambda>_. False) (\<lambda>_. True) (h e)"
  shows "moves view R w (catch m h)"
proof -
  obtain r w1 where m: "run m w = (r, w1)" by fastforce
  show ?thesis
  proof (cases r)
    case (Inr x)
    with assms(1) m show ?thesis by (simp add: moves_def run_catch)
  next
    case (Inl e)
    obtain r2 w2 where h: "run (h e) w1 = (r2, w2)" by fastforce
    with assms(2) have "view w2 = view w1" by (rule keepsD)
    moreover obtain e2 where "r2 = Inl e2" using ends_run [OF assms(3) h] by (cases r2) auto
    ultimately show ?thesis using assms(1) m h Inl by (auto simp: moves_def run_catch)
  qed
qed

lemma renewal_error_throws: "ends (\<lambda>_. False) (\<lambda>_. True) (on_renewal_error E job e)"
  unfolding on_renewal_error_def by (auto intro!: ends_seq [OF ends_any])

lemma moves_renew_body:
  assumes "registry_of w (rj_subscriptionId d) = Some m" "rg_status m = ACTIVE"
    and "R (registry_of w) ((registry_of w)(rj_subscriptionId d \<mapsto>
      m\<lparr>rg_endDate := sql_datetime (calculateNewEndDate (tz E) (s_endDate s) (rj_plan d))\<rparr>))"
  shows "moves registry_of R w (renew_body E d s)"
  unfolding renew_body_def Let_def
proof (rule moves_after [OF keeps_registry_payments(1)], rule moves_after [OF keeps_registry_services(1)],
    rule moves_after [OF keeps_registry_payments(2)], rule moves_then)
  fix w1 w2 w3
  assume "registry_of w1 = registry_of w" "registry_of w2 = registry_of w1" "registry_of w3 = registry_of w2"
  then have w3: "registry_of w3 = registry_of w" by simp
  let ?until = "calculateNewEndDate (tz E) (s_endDate s) (rj_plan d)"
  show "moves registry_of R w3 (SubscriptionRepository_renewSubscription E (rj_subscriptionId d) ?until)"
    unfolding SubscriptionRepository_renewSubscription_def
  proof (rule moves_sql)
    fix now x db
    assume "subscription_renew (rj_subscriptionId d) ?until now (w_db w3) = Inr (x, db)"
    then have "subscription_renew (rj_subscriptionId d) ?until now (w_db (tick w3)) = Inr (x, db)" by simp
    from subscription_renew_registry [OF this, of m] assms w3
    show "R (registry_of w3) (registry_of ((tick w3)\<lparr>w_db := db\<rparr>))" by simp
  qed simp
qed (intro keeps_registry)

lemma moves_renewal:
  "moves registry_of (registry_step (tz E) (clock E (w_tick w + 2)) (Renewal job)) w (processRenewal E job)"
proof (cases "job_name job = ''scan-expired''")
  case True
  then show ?thesis
    by (simp add: processRenewal_def moves_keeps [OF keeps_registry_renewals(1)] registry_step.skipped)
next
  case False
  let ?d = "job_data job"
  have "moves registry_of (registry_step (tz E) (clock E (w_tick w + 2)) (Renewal job)) w (seq
        (SubscriptionRepository_findBySubscriptionId E (rj_subscriptionId ?d)) (\<lambda>found.
        case found of
          None \<Rightarrow> Done ()
        | Some subscription \<Rightarrow>
            if s_status subscription \<noteq> ACTIVE then Done ()
            else if \<not> s_autoRenew subscription then
              seq (SubscriptionRepository_updateStatus E (rj_subscriptionId ?d) EXPIRED []) (\<lambda>_.
              seq (new_date E) (\<lambda>expiredAt.
              seq (publish E SUBSCRIPTION_EXPIRED (rj_subscriptionId ?d) ''Subscription''
                    (SubscriptionExpiredPayload (rj_subscriptionId ?d) expiredAt)) (\<lambda>_.
              Done ())))
            else catch (renew_body E ?d subscription) (on_renewal_error E job)))"
  proof (rule moves_after [OF keeps_registry_repositories(5)])
    fix found w1
    assume find: "run (SubscriptionRepository_findBySubscriptionId E (rj_subscriptionId ?d)) w = (Inr found, w1)"
      and same: "registry_of w1 = registry_of w"
    note at = find_registry [OF find, folded same]
    show "moves registry_of (registry_step (tz E) (clock E (w_tick w + 2)) (Renewal job)) w1 (case found of
          None \<Rightarrow> Done ()
        | Some subscription \<Rightarrow>
            if s_status subscription \<noteq> ACTIVE then Done ()
            else if \<not> s_autoRenew subscription then
              seq (SubscriptionRepository_updateStatus E (rj_subscriptionId ?d) EXPIRED []) (\<lambda>_.
              seq (new_date E) (\<lambda>expiredAt.
              seq (publish E SUBSCRIPTION_EXPIRED (rj_subscriptionId ?d) ''Subscription''
                    (SubscriptionExpiredPayload (rj_subscriptionId ?d) expiredAt)) (\<lambda>_.
              Done ())))
            else catch (renew_body E ?d subscription) (on_renewal_error E job))"
      using at False registry_step.renewed [of job "registry_of w1" _ "tz E" "clock E (w_tick w + 2)"]
      by (auto simp: new_end_days ms_per_day_def intro!: moves_keeps [OF keeps_basic(1)] keeps_registry moves_set_expired moves_catch_rethrow moves_renew_body
          keeps_registry_renewals renewal_error_throws registry_step.lapsed registry_step.skipped
          split: option.split)
  qed
  with False show ?thesis unfolding processRenewal_def Let_def by (simp only: if_False)
qed

fun subscription_op_prog :: "env \<Rightarrow> subscription_op \<Rightarrow> unit io" where
  "subscription_op_prog E (Subscribe req) = seq (createSubscription E req) (\<lambda>_. Done ())"
| "subscription_op_prog E (Unsubscribe sid reason) = cancelSubscription E sid reason"
| "subscription_op_prog E (Renewal job) = processRenewal E job"

lemma subscription_moves:
  "reads_all E \<Longrightarrow> moves registry_of (registry_step (tz E) (clock E (w_tick w + 2)) op) w (subscription_op_prog E op)"
  by (cases op) (auto simp del: add_2_eq_Suc' intro: moves_subscribe moves_unsubscribe moves_renewal moves_then keeps_basic)

text \<open>
  C9: The subscription handler and the renewal worker refine a registry that knows of each
  subscription its owner, plan, status, start and end date and whether it renews. Run alone, in any
  environment whose database reads every row, an operation that returns has taken its one step:
  Subscribe adds a new ACTIVE, renewing entry of a valid plan, for a user who had no ACTIVE one, which
  starts at the time the clock showed during the call and ends one period of its plan later;
  Unsubscribe leads from ACTIVE to CANCELLED and turns renewing off; and a renewal job extends an
  ACTIVE, renewing entry by one period of the job's plan from its old end, expires an ACTIVE entry
  that does not renew, and skips any other. A period is the days of the month the date lies in for
  MONTHLY, and otherwise 365 or 366 days. An operation that throws has taken this step or none,
  whichever call failed.
\<close>

theorem subscriptions_refine_registry:
  assumes "reads_all E"
  shows "moves registry_of (registry_step (tz E) (clock E (w_tick w + 2)) op) w (subscription_op_prog E op)"
  using assms by (rule subscription_moves)

lemma subscriptions_refine_registry_witness:
  "moves registry_of (registry_step (tz calm) (clock calm (w_tick (with_subscription ACTIVE True) + 2)) (Unsubscribe ''S1'' ''moved''))
    (with_subscription ACTIVE True) (subscription_op_prog calm (Unsubscribe ''S1'' ''moved''))"
  by (rule subscriptions_refine_registry) (simp add: reads_all_def)

section \<open>Activities that take turns\<close>

definition one_active :: "registry \<Rightarrow> bool" where
  "one_active R \<longleftrightarrow> (\<forall>uid k k' m m'. R k = Some m \<longrightarrow> R k' = Some m' \<longrightarrow>
     active_for uid m \<longrightarrow> active_for uid m' \<longrightarrow> k = k')"

lemma one_active_update:
  assumes "one_active R" "R k = Some m" "\<And>uid. active_for uid m' \<Longrightarrow> active_for uid m"
  shows "one_active (R(k \<mapsto> m'))"
  using assms unfolding one_active_def by (auto split: if_splits; metis)

lemma one_active_step: "registry_step z now op R R' \<Longrightarrow> one_active R \<Longrightarrow> one_active R'"
proof (induction rule: registry_step.induct)
  case (subscribed R req sid plan)
  then show ?case unfolding one_active_def active_for_def by (auto split: if_splits; blast)
qed (auto intro!: one_active_update simp: active_for_def)

text \<open>Run alone, the program takes every view with \<open>J\<close> to one with \<open>J\<close>.\<close>

definition preserves :: "(world \<Rightarrow> 'b) \<Rightarrow> ('b \<Rightarrow> bool) \<Rightarrow> 'a io \<Rightarrow> bool" where
  "preserves view J p \<longleftrightarrow> (\<forall>w. J (view w) \<longrightarrow> J (view (snd (run p w))))"

lemma preserves_keeps: "keeps view p \<Longrightarrow> preserves view J p"
  by (simp add: preserves_def keeps_def)

lemma preserves_moves:
  assumes "\<And>w. moves view (R w) w p" "\<And>w x y. R w x y \<Longrightarrow> J x \<Longrightarrow> J y"
  shows "preserves view J p"
  unfolding preserves_def
proof (intro allI impI)
  fix w assume "J (view w)"
  with assms(1) [of w] assms(2) show "J (view (snd (run p w)))"
    by (cases "run p w"; cases "fst (run p w)") (auto simp: moves_def)
qed

lemma preserves_seq: "preserves view J m \<Longrightarrow> (\<And>x. preserves view J (f x)) \<Longrightarrow> preserves view J (seq m f)"
  by (fastforce simp: preserves_def run_seq split: prod.split sum.split)

lemma preserves_then: "preserves view J p \<Longrightarrow> preserves view J (seq p (\<lambda>x. Done (f x)))"
  by (erule preserves_seq) (intro preserves_keeps keeps_basic)

lemma preserves_catch: "preserves view J m \<Longrightarrow> (\<And>e. preserves view J (h e)) \<Longrightarrow> preserves view J (catch m h)"
  by (fastforce simp: preserves_def run_catch split: prod.split sum.split)

lemma preserves_writer:
  assumes "\<And>f. preserves view J (m f)"
  shows "preserves view J (or_next (seq (body_fields b) (\<lambda>f. seq (m f) (\<lambda>x. reply status (h x)))))"
  unfolding or_next_def reply_def body_fields_def
  by (rule preserves_catch, intro preserves_seq assms)
    (auto intro!: preserves_keeps keeps_basic split: request_body.split)

lemma preserves_controller:
  "preserves view J m \<Longrightarrow> preserves view J (or_next (seq m (\<lambda>x. reply status (f x))))"
  unfolding or_next_def reply_def
  by (rule preserves_catch, erule preserves_seq) (intro preserves_keeps keeps_basic)+

lemma preserves_operations:
  assumes "reads_all E"
  shows "preserves registry_of one_active (createSubscription E req)"
    "preserves registry_of one_active (cancelSubscription E sid reason)"
    "preserves registry_of one_active (processRenewal E job)"
  by (rule preserves_moves, (rule moves_subscribe [OF assms] moves_unsubscribe moves_renewal), erule one_active_step, assumption)+

lemma keeps_registry_process:
  "keeps registry_of (closeAll E)"
  "keeps registry_of (startServer E)" "keeps registry_of (processDeadLetter d)"
proof -
  have each: "keeps registry_of (close_from E handles i n)" for handles i n
    by (induction n arbitrary: i) (auto intro!: keeps_registry keeps_act split: option.split)
  show "keeps registry_of (closeAll E)"
    unfolding closeAll_def by (intro keeps_seq each)
  show "keeps registry_of (startServer E)"
    unfolding startServer_def Autopay_start_def
    by (intro keeps_seq keeps_act keeps_registry)
      (auto simp: Projector_register_def EventBus_subscribe_def intro!: registry_of_subscriptions)
qed (auto simp: processDeadLetter_def intro: keeps_registry)

lemmas preserves_kept = keeps_registry_payments [THEN preserves_keeps]
  keeps_registry_renewals [THEN preserves_keeps] keeps_registry_repositories [THEN preserves_keeps]
  keeps_registry_process [THEN preserves_keeps]

lemma preserves_reply: "preserves registry_of J (seq (new_date E) (\<lambda>now. reply st (f now)))"
  unfolding reply_def by (intro preserves_keeps keeps_registry)

lemma keeps_registry_fields:
  "keeps registry_of (createPayment_fields E f)" "keeps registry_of (completePayment_fields E f)"
  "keeps registry_of (refundPayment_fields E on f)"
  "subscription_request f = None \<Longrightarrow> keeps registry_of (createSubscription_fields E f)"
  "rq_reason f = None \<Longrightarrow> keeps registry_of (cancelSubscription_fields E sid f)"
  unfolding request_defs
  by (auto intro!: keeps_registry_payments keeps_registry split: option.split)

lemma preserves_fields:
  assumes "reads_all E"
  shows "preserves registry_of one_active (createSubscription_fields E f)"
    "preserves registry_of one_active (cancelSubscription_fields E sid f)"
proof -
  show "preserves registry_of one_active (createSubscription_fields E f)"
    using preserves_operations [OF assms] preserves_keeps [OF keeps_registry_fields(4)]
    by (cases "subscription_request f") (simp_all add: createSubscription_fields_def)
  show "preserves registry_of one_active (cancelSubscription_fields E sid f)"
    using preserves_operations [OF assms] preserves_keeps [OF keeps_registry_fields(5)]
    by (cases "rq_reason f") (simp_all add: cancelSubscription_fields_def)
qed

lemma preserves_serve:
  assumes "reads_all E"
  shows "preserves registry_of one_active (serve E ep q b)"
  using preserves_fields [OF assms]
  by (cases ep) (auto simp: writer_defs(2-) reader_defs
      intro!: preserves_writer preserves_controller preserves_kept preserves_reply
        keeps_registry_fields(1-3) [THEN preserves_keeps])

lemma preserves_activity:
  assumes "reads_all E"
  shows "preserves registry_of one_active (activity_prog E a)"
proof -
  have finishing: "preserves registry_of one_active (finishing p)" if "preserves registry_of one_active p" for p
    unfolding finishing_def using that by (rule preserves_then)
  show ?thesis
  proof (cases a)
    case (Request ep q b)
    then show ?thesis
      using preserves_serve [OF assms, of ep q b]
      by (auto intro: preserves_then preserves_keeps keeps_basic split: option.split)
  qed (auto intro!: finishing preserves_operations [OF assms] preserves_kept)
qed

text \<open>The activities one after the other, each to its end.\<close>

definition in_turn :: "env \<Rightarrow> activity list \<Rightarrow> world \<Rightarrow> world" where
  "in_turn E as w = fold (\<lambda>a w. snd (run (activity_prog E a) w)) as w"

lemma in_turn_one_active:
  "reads_all E \<Longrightarrow> one_active (registry_of w) \<Longrightarrow> one_active (registry_of (in_turn E as w))"
  unfolding in_turn_def
  by (induction as arbitrary: w) (use preserves_activity in \<open>auto simp: preserves_def\<close>)

lemma in_turn_inv: "world_inv w \<Longrightarrow> world_inv (in_turn E as w)"
  unfolding in_turn_def
proof (induction as arbitrary: w)
  case (Cons a as)
  from sys.safe_run [OF to_activity Cons.prems, of E a] have "world_inv (snd (run (activity_prog E a) w))"
    by (metis prod.collapse)
  with Cons.IH show ?case by simp
qed simp

text \<open>In a table with one row per id, the registry tells how many active rows a user has.\<close>

lemma one_active_rows:
  assumes "distinct (map s_subscriptionId (subscriptions (w_db w)))" "one_active (registry_of w)"
  shows "length (active_of uid (w_db w)) \<le> 1"
proof (rule ccontr)
  let ?rows = "active_of uid (w_db w)"
  assume "\<not> length ?rows \<le> 1"
  then obtain r r' rest where rows: "?rows = r # r' # rest"
    by (cases ?rows; cases "tl ?rows") auto
  have reg: "registry_of w (s_subscriptionId s) = Some (registration_of s)" if "s \<in> set ?rows" for s
    using that find_row_unique [OF assms(1)]
    by (auto simp: registry_of_def subscription_select_def active_of_def)
  have act: "active_for uid (registration_of s)" if "s \<in> set ?rows" for s
    using that by (auto simp: active_for_def active_of_def)
  have "distinct (map s_subscriptionId ?rows)"
    unfolding active_of_def using assms(1) by (simp add: distinct_map_filter)
  then have "s_subscriptionId r \<noteq> s_subscriptionId r'" unfolding rows by simp
  with assms(2) reg act rows show False unfolding one_active_def by (metis list.set_intros)
qed

text \<open>
  C10: If the activities of the process take turns, each run to its end before the next begins, then
  no user ever has two ACTIVE subscriptions: whatever requests, jobs, failures and shutdowns come
  in whatever order, and whichever remote calls fail, before or after they took effect. (It takes
  an interleaving of two creations to break this, see createSubscription_race.)
\<close>

theorem one_active_subscription_in_turn:
  assumes "reads_all E"
  shows "length (active_of uid (w_db (in_turn E as init_world))) \<le> 1"
proof (rule one_active_rows)
  show "distinct (map s_subscriptionId (subscriptions (w_db (in_turn E as init_world))))"
    using in_turn_inv [OF world_inv_init, of E as] by (simp add: world_inv_def db_inv_def)
  have "one_active (registry_of init_world)"
    by (simp add: one_active_def registry_of_def subscription_select_def init_world_def empty_db_def)
  with assms show "one_active (registry_of (in_turn E as init_world))" by (rule in_turn_one_active)
qed

lemma one_active_subscription_in_turn_witness:
  "length (active_of ''alice'' (w_db (in_turn calm
    [StartServer, Request EP_createSubscription (\<lambda>_. None) (CreateSubscriptionBody (sample_plan_request ''MONTHLY'')),
     Request EP_createSubscription (\<lambda>_. None) (CreateSubscriptionBody (sample_plan_request ''ANNUAL''))] init_world))) \<le> 1"
  by (rule one_active_subscription_in_turn) (simp add: reads_all_def)

end
