(* ===== verification/ReadModel.thy ===== *)
theory ReadModel
  imports PaymentLaws
begin

text \<open>
  The read model against the events it projects. \<open>projected\<close> is what a handler takes from an
  event; \<open>project\<close> applies the handlers' statements one after the other. Revenue, refunds and
  the counts of successes, failures and refunds of the whole table are exactly the sums over the
  projected events, in whatever order they came. The count of all transactions is not: a failure
  that opens its day's row is left out.
\<close>

section \<open>Sums over the table\<close>

lemma sum_update_where:
  fixes f :: "'r \<Rightarrow> int"
  assumes "update_where (\<lambda>x. key x = k) F rows = Inr rows'" "distinct (map key rows)"
    and "find_row key k rows = Some r" "F r = Inr r'"
  shows "sum_list (map f rows') = sum_list (map f rows) + (f r' - f r)"
  using assms
proof (induction rows arbitrary: rows')
  case (Cons x rows)
  from Cons.prems(1) obtain x' rest where
    *: "rows' = x' # rest" "(if key x = k then F x else Inr x) = Inr x'"
       "update_where (\<lambda>x. key x = k) F rows = Inr rest"
    unfolding update_where_Cons by blast
  show ?case
  proof (cases "key x = k")
    case True
    with Cons.prems(2) have "k \<notin> key ` set rows" by auto
    then have "rest = rows" using *(3) by (simp add: update_where_none)
    moreover have "x = r" using True Cons.prems(3) by (simp add: find_row_def)
    ultimately show ?thesis using * True Cons.prems(4) by simp
  next
    case False
    with Cons.prems(3) have "find_row key k rows = Some r" by (simp add: find_row_def)
    with Cons.IH [OF *(3)] Cons.prems(2,4) * False show ?thesis by simp
  qed
qed simp

definition table_sum :: "(summary_row \<Rightarrow> int) \<Rightarrow> database \<Rightarrow> int" where
  "table_sum f db = sum_list (map f (payment_summary db))"

lemma summary_upsert_sum:
  assumes up: "summary_upsert ins upd now db = Inr (u, db')" and dist: "distinct (map sm_date (payment_summary db))"
    and date: "\<And>r. sm_date (upd r) = sm_date r" and time: "\<And>r t. f (r\<lparr>sm_updatedAt := t\<rparr>) = f r"
  shows "table_sum f db' = table_sum f db +
      (case summary_of (sm_date ins) db of None \<Rightarrow> f ins | Some r \<Rightarrow> f (upd r) - f r)"
    "distinct (map sm_date (payment_summary db'))"
proof -
  let ?d = "sm_date ins" and ?F = "\<lambda>x. summary_store ((upd x)\<lparr>sm_updatedAt := now\<rparr>)"
  from up have ins: "summary_store ins = Inr ins"
    by (auto simp: summary_upsert_def summary_store_def split: if_splits)
  have "table_sum f db' = table_sum f db +
      (case summary_of ?d db of None \<Rightarrow> f ins | Some r \<Rightarrow> f (upd r) - f r)
    \<and> distinct (map sm_date (payment_summary db'))"
  proof (cases "summary_of ?d db")
    case None
    then have new: "find_row sm_date ?d (payment_summary db) = None" by (simp add: summary_of_def)
    with up ins have "db' = db\<lparr>payment_summary := payment_summary db @ [ins]\<rparr>"
      by (simp add: summary_upsert_def)
    with None new dist show ?thesis by (auto simp: table_sum_def find_row_None)
  next
    case (Some r)
    then have r: "find_row sm_date ?d (payment_summary db) = Some r" by (simp add: summary_of_def)
    with up ins obtain rows where rows: "db' = db\<lparr>payment_summary := rows\<rparr>"
        "update_where (\<lambda>x. sm_date x = ?d) ?F (payment_summary db) = Inr rows"
      by (auto simp: summary_upsert_def split: sum.splits)
    have "summary_of ?d db' = Some ((upd r)\<lparr>sm_updatedAt := now\<rparr>)"
      using summary_upsert_of [OF up date, of ?d] Some by simp
    then have "find_row sm_date ?d rows = Some ((upd r)\<lparr>sm_updatedAt := now\<rparr>)"
      using rows(1) by (simp add: summary_of_def)
    moreover have "find_row sm_date ?d rows = (case ?F r of Inl e \<Rightarrow> None | Inr r' \<Rightarrow> Some r')"
    proof -
      have key: "\<And>x r'. sm_date x = ?d \<Longrightarrow> ?F x = Inr r' \<Longrightarrow> sm_date r' = ?d"
        using date by (auto simp: summary_store_def split: if_splits)
      show ?thesis by (subst find_row_update_where [OF rows(2) key]) (simp_all add: r)
    qed
    ultimately have F: "?F r = Inr ((upd r)\<lparr>sm_updatedAt := now\<rparr>)" by (auto split: sum.splits)
    have "map sm_date rows = map sm_date (payment_summary db)"
      using rows(2) by (rule update_where_keys) (auto simp: summary_store_def date split: if_splits)
    with sum_update_where [OF rows(2) dist r F, of f] Some rows(1) dist show ?thesis
      by (simp add: table_sum_def time)
  qed
  then show "table_sum f db' = table_sum f db +
      (case summary_of ?d db of None \<Rightarrow> f ins | Some r \<Rightarrow> f (upd r) - f r)"
    "distinct (map sm_date (payment_summary db'))" by simp_all
qed

section \<open>Projecting a sequence of events\<close>

datatype projected = ProjCompleted int money | ProjRefunded int money | ProjFailed int

fun projected_day :: "projected \<Rightarrow> int" where
  "projected_day (ProjCompleted d a) = d"
| "projected_day (ProjRefunded d a) = d"
| "projected_day (ProjFailed d) = d"

fun projected_stmt :: "projected \<Rightarrow> unit stmt" where
  "projected_stmt (ProjCompleted d a) = upsert_completed d a"
| "projected_stmt (ProjRefunded d a) = upsert_refunded d a"
| "projected_stmt (ProjFailed d) = upsert_failed (iso_day d)"

primrec project :: "(projected \<times> date) list \<Rightarrow> database \<Rightarrow> sql_error + database" where
  "project [] db = Inr db"
| "project (x # xs) db =
     (case projected_stmt (fst x) (snd x) db of Inl e \<Rightarrow> Inl e | Inr (u, db') \<Rightarrow> project xs db')"

fun paid :: "projected \<Rightarrow> money" where
  "paid (ProjCompleted d a) = a" | "paid p = 0"

fun refunded :: "projected \<Rightarrow> money" where
  "refunded (ProjRefunded d a) = a" | "refunded p = 0"

fun is_completed :: "projected \<Rightarrow> bool" where
  "is_completed (ProjCompleted d a) = True" | "is_completed p = False"

fun is_refunded :: "projected \<Rightarrow> bool" where
  "is_refunded (ProjRefunded d a) = True" | "is_refunded p = False"

fun is_failed :: "projected \<Rightarrow> bool" where
  "is_failed (ProjFailed d) = True" | "is_failed p = False"

definition count_int :: "('a \<Rightarrow> bool) \<Rightarrow> 'a list \<Rightarrow> int" where
  "count_int P xs = int (length (filter P xs))"

text \<open>The failures whose day had no row yet.\<close>

fun opening_failures :: "int set \<Rightarrow> projected list \<Rightarrow> int" where
  "opening_failures days [] = 0"
| "opening_failures days (p # ps) =
     (if is_failed p \<and> projected_day p \<notin> days then 1 else 0)
     + opening_failures (insert (projected_day p) days) ps"

definition days_of :: "database \<Rightarrow> int set" where
  "days_of db = sm_date ` set (payment_summary db)"

lemma summary_of_days: "summary_of d db = None \<longleftrightarrow> d \<notin> days_of db"
  by (simp add: summary_of_def days_of_def find_row_None)

lemma days_of_upsert:
  assumes "summary_upsert ins upd now db = Inr (u, db')" "\<And>r. sm_date (upd r) = sm_date r"
  shows "days_of db' = insert (sm_date ins) (days_of db)"
proof -
  have "d \<in> days_of db' \<longleftrightarrow> d \<in> insert (sm_date ins) (days_of db)" for d
    using summary_upsert_of [OF assms, of d] summary_of_days [of d db] summary_of_days [of d db']
    by (auto split: if_splits)
  then show ?thesis by blast
qed

definition day_ok :: "projected \<Rightarrow> bool" where
  "day_ok p \<longleftrightarrow> 0 \<le> year_from_day (projected_day p) \<and> year_from_day (projected_day p) \<le> 9999"

lemma upsert_failed_day:
  "day_ok (ProjFailed d) \<Longrightarrow> upsert_failed (iso_day d) now db = summary_upsert (failed_insert d now) failed_update now db"
  by (simp add: upsert_failed_def parse_iso_day day_ok_def)

lemma projected_step:
  assumes step: "projected_stmt p now db = Inr (u, db')" and ok: "day_ok p"
    and dist: "distinct (map sm_date (payment_summary db))"
  shows "table_sum sm_totalRevenue db' = table_sum sm_totalRevenue db + paid p"
    "table_sum sm_totalRefunds db' = table_sum sm_totalRefunds db + refunded p"
    "table_sum sm_successfulTransactions db' = table_sum sm_successfulTransactions db + of_bool (is_completed p)"
    "table_sum sm_refundCount db' = table_sum sm_refundCount db + of_bool (is_refunded p)"
    "table_sum sm_failedTransactions db' = table_sum sm_failedTransactions db + of_bool (is_failed p)"
    "table_sum sm_totalTransactions db' = table_sum sm_totalTransactions db
       + of_bool (is_completed p) + of_bool (is_failed p \<and> projected_day p \<in> days_of db)"
    "distinct (map sm_date (payment_summary db'))"
    "days_of db' = insert (projected_day p) (days_of db)"
proof -
  have ex: "\<exists>ins upd. summary_upsert ins upd now db = Inr (u, db') \<and> sm_date ins = projected_day p
      \<and> (\<forall>r. sm_date (upd r) = sm_date r) \<and>
      (ins, upd) = (case p of ProjCompleted d a \<Rightarrow> (completed_insert d a now, completed_update a)
        | ProjRefunded d a \<Rightarrow> (refunded_insert d a now, refunded_update a)
        | ProjFailed d \<Rightarrow> (failed_insert d now, failed_update))"
    using step ok by (cases p) (auto simp: upsert_completed_def upsert_refunded_def upsert_failed_day)
  then obtain ins upd where up: "summary_upsert ins upd now db = Inr (u, db')"
    and day: "sm_date ins = projected_day p" and date: "\<And>r. sm_date (upd r) = sm_date r"
    and iu: "(ins, upd) = (case p of ProjCompleted d a \<Rightarrow> (completed_insert d a now, completed_update a)
        | ProjRefunded d a \<Rightarrow> (refunded_insert d a now, refunded_update a)
        | ProjFailed d \<Rightarrow> (failed_insert d now, failed_update))" by blast
  note sums = summary_upsert_sum(1) [OF up dist date]
  show "distinct (map sm_date (payment_summary db'))"
    by (rule summary_upsert_sum(2) [OF up dist date, where f = sm_date]) simp
  show "days_of db' = insert (projected_day p) (days_of db)"
    using days_of_upsert [OF up date] day by simp
  show "table_sum sm_totalRevenue db' = table_sum sm_totalRevenue db + paid p"
    "table_sum sm_totalRefunds db' = table_sum sm_totalRefunds db + refunded p"
    "table_sum sm_successfulTransactions db' = table_sum sm_successfulTransactions db + of_bool (is_completed p)"
    "table_sum sm_refundCount db' = table_sum sm_refundCount db + of_bool (is_refunded p)"
    "table_sum sm_failedTransactions db' = table_sum sm_failedTransactions db + of_bool (is_failed p)"
    using iu by (subst sums; cases p; auto simp: upsert_defs split: option.split)+
  show "table_sum sm_totalTransactions db' = table_sum sm_totalTransactions db
       + of_bool (is_completed p) + of_bool (is_failed p \<and> projected_day p \<in> days_of db)"
    using iu summary_of_days [of "projected_day p" db] day
    by (subst sums; cases p; auto simp: upsert_defs split: option.split)
qed

text \<open>
  C14: The read model is the sum of its events: after any sequence of projected completions,
  refunds and failures the table's totals of revenue, refunds, successes, refund count and
  failures have grown by exactly the sums over the events; the count of all transactions has
  grown by completions and failures less the failures that opened their day's row.
\<close>

theorem projected_totals:
  assumes "project xs db = Inr db'" "distinct (map sm_date (payment_summary db))"
    and "list_all (\<lambda>x. day_ok (fst x)) xs"
  shows "table_sum sm_totalRevenue db' = table_sum sm_totalRevenue db + sum_list (map (paid \<circ> fst) xs)
    \<and> table_sum sm_totalRefunds db' = table_sum sm_totalRefunds db + sum_list (map (refunded \<circ> fst) xs)
    \<and> table_sum sm_successfulTransactions db' =
       table_sum sm_successfulTransactions db + count_int is_completed (map fst xs)
    \<and> table_sum sm_refundCount db' = table_sum sm_refundCount db + count_int is_refunded (map fst xs)
    \<and> table_sum sm_failedTransactions db' =
       table_sum sm_failedTransactions db + count_int is_failed (map fst xs)
    \<and> table_sum sm_totalTransactions db' = table_sum sm_totalTransactions db
       + count_int is_completed (map fst xs) + count_int is_failed (map fst xs)
       - opening_failures (days_of db) (map fst xs)"
  using assms
proof (induction xs arbitrary: db)
  case Nil
  then show ?case by (simp add: count_int_def)
next
  case (Cons x xs)
  then obtain u db1 where step: "projected_stmt (fst x) (snd x) db = Inr (u, db1)" "project xs db1 = Inr db'"
    by (auto split: sum.splits)
  have ok: "day_ok (fst x)" "list_all (\<lambda>x. day_ok (fst x)) xs" using Cons.prems(3) by simp_all
  note s = projected_step [OF step(1) ok(1) Cons.prems(2)]
  show ?case
    using Cons.IH [OF step(2) s(7) ok(2)] unfolding s(8) s(1-6) by (simp add: count_int_def)
qed

lemma projected_totals_witness:
  "\<exists>db. project [(ProjCompleted 0 500, 0), (ProjFailed 0, 0)] empty_db = Inr db \<and> table_sum sm_totalRevenue db = 500"
proof -
  have day: "day_ok (ProjCompleted 0 500)" "day_ok (ProjFailed 0)" by code_simp+
  have "\<exists>db. project [(ProjCompleted 0 500, 0), (ProjFailed 0, 0)] empty_db = Inr db"
    by (simp add: upsert_completed_def upsert_failed_day [OF day(2)] summary_upsert_def summary_store_def upsert_defs summary_fits_def decimal_ok_def int_ok_def)
  then obtain db where db: "project [(ProjCompleted 0 500, 0), (ProjFailed 0, 0)] empty_db = Inr db" ..
  from projected_totals [OF db] day have "table_sum sm_totalRevenue db = 500"
    by (simp add: table_sum_def)
  with db show ?thesis by blast
qed

section \<open>The handlers\<close>

text \<open>
  The day of a completed or refunded payment is that of its event, in the process's time zone;
  the day of a failure is the UTC day on which the handler runs.
\<close>

fun projection_of :: "env \<Rightarrow> handler_ref \<Rightarrow> domain_event \<Rightarrow> nat \<Rightarrow> projected option" where
  "projection_of E OnPaymentCompleted ev n =
     (case e_payload ev of
        PaymentCompletedPayload on tid a at \<Rightarrow> Some (ProjCompleted (sql_date (tz E) at) a) | _ \<Rightarrow> None)"
| "projection_of E OnPaymentRefunded ev n =
     (case e_payload ev of
        PaymentRefundedPayload on a r at \<Rightarrow> Some (ProjRefunded (sql_date (tz E) at) a) | _ \<Rightarrow> None)"
| "projection_of E OnPaymentFailed ev n = Some (ProjFailed (day_of (clock E n)))"

fun handler_ticks :: "handler_ref \<Rightarrow> nat" where
  "handler_ticks OnPaymentFailed = 2" | "handler_ticks h = 1"

lemma sql_as_effect:
  assumes "reliable E"
  shows "run (sql E (\<lambda>_. st)) w =
    (case st (sql_now (db_clock E (w_tick w))) (w_db w) of
       Inl e \<Rightarrow> (Inl (SqlErr e), tick w) | Inr (x, db) \<Rightarrow> (Inr x, (tick w)\<lparr>w_db := db\<rparr>))"
  by (simp add: run_sql_reliable [OF assms] sql_effect_def split: sum.split)

text \<open>
  Each handler of the projector implements the projection of its event: it performs exactly
  the statement of the abstract projection, on the event's own day for completions and refunds
  and on the UTC day at which it runs for failures, and reports the statement's error.
\<close>

lemma handler_projects:
  assumes "reliable E" "projection_of E h ev (w_tick w) = Some p" "day_ok p"
  shows "run (projector_exec E h ev) w =
    (case projected_stmt p (sql_now (db_clock E (w_tick w + handler_ticks h - 1))) (w_db w) of
       Inl e \<Rightarrow> (Inl (SqlErr e), w\<lparr>w_tick := w_tick w + handler_ticks h\<rparr>)
     | Inr (u, db) \<Rightarrow> (Inr (), w\<lparr>w_tick := w_tick w + handler_ticks h, w_db := db\<rparr>))"
proof (cases h)
  case OnPaymentCompleted
  with assms(2) show ?thesis
    by (auto simp: onPaymentCompleted_def sql_as_effect [OF assms(1)] tick_def
      split: event_payload.splits sum.split)
next
  case OnPaymentRefunded
  with assms(2) show ?thesis
    by (auto simp: onPaymentRefunded_def sql_as_effect [OF assms(1)] tick_def
      split: event_payload.splits sum.split)
next
  case OnPaymentFailed
  with assms(2) have p: "p = ProjFailed (day_of (clock E (w_tick w)))" by simp
  with OnPaymentFailed show ?thesis
    by (auto simp: onPaymentFailed_def Let_def run_seq run_new_date sql_as_effect [OF assms(1)] tick_def
      split_iso split: sum.split)
qed

lemma handler_projects_witness:
  "fst (run (projector_exec calm OnPaymentCompleted (published calm PAYMENT_COMPLETED ''O1'' ''Payment''
      (PaymentCompletedPayload ''O1'' ''T1'' 500 0) booted)) booted) = Inr ()"
proof -
  have day: "day_ok (ProjCompleted 0 500)" by code_simp
  have "projection_of calm OnPaymentCompleted (published calm PAYMENT_COMPLETED ''O1'' ''Payment''
      (PaymentCompletedPayload ''O1'' ''T1'' 500 0) booted) (w_tick booted) = Some (ProjCompleted 0 500)"
    by (simp add: sql_date_def day_of_def ms_per_day_def)
  from handler_projects [OF calm_reliable this day] show ?thesis
    by (simp add: upsert_completed_def summary_upsert_def summary_store_def upsert_defs summary_fits_def decimal_ok_def int_ok_def)
qed

text \<open>Completing a payment, through to the read model.\<close>

lemma update_where_total:
  "\<forall>x \<in> set rows. P x \<longrightarrow> (\<exists>y. f x = Inr y) \<Longrightarrow> \<exists>rows'. update_where P f rows = Inr rows'"
  by (induction rows) auto

lemma summary_fits_upsert:
  assumes "summary_fits ins" "distinct (map sm_date (payment_summary db))"
    and "\<And>r. sm_date (upd r) = sm_date r"
    and "\<And>r. summary_of (sm_date ins) db = Some r \<Longrightarrow> summary_fits ((upd r)\<lparr>sm_updatedAt := now\<rparr>)"
  shows "\<exists>db'. summary_upsert ins upd now db = Inr ((), db')"
proof (cases "find_row sm_date (sm_date ins) (payment_summary db)")
  case None
  with assms(1) show ?thesis by (simp add: summary_upsert_def summary_store_def)
next
  case (Some r)
  have "\<exists>rows. update_where (\<lambda>x. sm_date x = sm_date ins)
      (\<lambda>x. summary_store ((upd x)\<lparr>sm_updatedAt := now\<rparr>)) (payment_summary db) = Inr rows"
  proof -
    have "x = r" if "x \<in> set (payment_summary db)" "sm_date x = sm_date ins" for x
      using that find_row_unique [OF assms(2), of "sm_date ins" x] Some by simp
    then have "\<forall>x \<in> set (payment_summary db). sm_date x = sm_date ins \<longrightarrow>
        (\<exists>y. summary_store ((upd x)\<lparr>sm_updatedAt := now\<rparr>) = Inr y)"
      using assms(4) Some by (auto simp: summary_of_def summary_store_def)
    then show ?thesis by (rule update_where_total)
  qed
  with Some assms(1) show ?thesis by (auto simp: summary_upsert_def summary_store_def)
qed

text \<open>
  With the projector registered, the same call carries the completion into the read model:
  the row of the completion's day gains the paid amount, one transaction and one success, or is
  opened with them, and no other day changes.
\<close>

lemma completePayment_summary:
  assumes "reliable E" "payment_select (co_orderNumber req) (w_db w) = Some p" "p_status p = PENDING"
    and "length (co_transactionId req) \<le> 128" "can_publish E (w_tick w + 4) (co_orderNumber req) (w_db w)"
    and "handlers_of PAYMENT_COMPLETED w = [OnPaymentCompleted]"
    and "distinct (map sm_date (payment_summary (w_db w)))"
    and "d = sql_date (tz E) (clock E (w_tick w + 3))" "now = sql_now (db_clock E (w_tick w + 8))"
    and "summary_fits (completed_insert d (co_paidAmount req) now)"
    and "\<And>r. summary_of d (w_db w) = Some r \<Longrightarrow> summary_fits (completed_update (co_paidAmount req) r)"
  shows "\<exists>w'. run (completePayment E req) w = (Inr (), w') \<and>
    summary_of d (w_db w') = Some (case summary_of d (w_db w) of
        None \<Rightarrow> completed_insert d (co_paidAmount req) now
      | Some r \<Rightarrow> (completed_update (co_paidAmount req) r)\<lparr>sm_updatedAt := now\<rparr>) \<and>
    (\<forall>d'. d' \<noteq> d \<longrightarrow> summary_of d' (w_db w') = summary_of d' (w_db w))"
proof -
  let ?on = "co_orderNumber req" and ?a = "co_paidAmount req"
  define w1 where "w1 = completed_in E req (tick w)"
  define w2 where "w2 = after_append E PAYMENT_COMPLETED ?on ''Payment'' (completion_payload E req (tick w)) w1"
  have pub: "can_publish E (w_tick (tick w) + 3) ?on (w_db (tick w))"
    using assms(5) by (simp add: eval_nat_numeral)
  have handler: "handlers_of PAYMENT_COMPLETED (tick w) = [OnPaymentCompleted]"
    using assms(6) by (simp add: handlers_of_def)
  from complete_rest_run [OF assms(1,4) pub] obtain w' where rest: "run (complete_rest E req) (tick w) = (Inr (), w')"
    by blast
  have run: "run (completePayment E req) w = (Inr (), w')"
    using rest by (simp add: run_completePayment_rest [OF assms(1-3)])
  have w': "w' = snd (run (sql E (\<lambda>_. upsert_completed d ?a)) w2)"
    using complete_rest_handler [OF assms(1) handler rest assms(4) pub] assms(8)
    by (simp add: w2_def w1_def eval_nat_numeral)
  have same: "payment_summary (w_db w2) = payment_summary (w_db w)" "w_tick w2 = w_tick w + 8"
    by (simp_all add: after_append_def w1_def w2_def completed_in_def completing_def)
  have sum: "summary_of d' (w_db w2) = summary_of d' (w_db w)" for d' by (simp only: summary_of_def same)
  have "\<exists>db'. summary_upsert (completed_insert d ?a now) (completed_update ?a) now (w_db w2) = Inr ((), db')"
  proof (rule summary_fits_upsert)
    show "summary_fits ((completed_update ?a r)\<lparr>sm_updatedAt := now\<rparr>)"
      if "summary_of (sm_date (completed_insert d ?a now)) (w_db w2) = Some r" for r
      using assms(11) [of r] that sum by (simp add: summary_fits_def)
  qed (use assms(7,10) same in simp_all)
  then obtain db' where up: "summary_upsert (completed_insert d ?a now) (completed_update ?a) now (w_db w2) = Inr ((), db')"
    by blast
  have "w' = (tick w2)\<lparr>w_db := db'\<rparr>"
    using up assms(8,9) by (simp add: w' sql_as_effect [OF assms(1)] same(2)
      upsert_completed_def)
  with summary_upsert_of [OF up] sum run show ?thesis by auto
qed

lemma completePayment_summary_witness:
  "\<exists>w' r. run (completePayment calm sample_completion) (with_payment PENDING) = (Inr (), w') \<and>
    summary_of 0 (w_db w') = Some r \<and> sm_totalRevenue r = 500"
proof -
  have "can_publish calm (w_tick (with_payment PENDING) + 4) (co_orderNumber sample_completion) (w_db (with_payment PENDING))"
    by (simp add: can_publish_def sample_completion_def)
  from completePayment_summary [OF calm_reliable _ _ _ this, of "sample_payment PENDING" 0 0] show ?thesis
    by (auto simp: sample_completion_def booted_handlers sql_date_def day_of_def ms_per_day_def
        upsert_defs summary_fits_def decimal_ok_def int_ok_def summary_of_def)
qed

end
