(* ===== verification/Bodies.thy ===== *)
theory Bodies
  imports Registry ReadModel
begin

text \<open>
  Bodies with a gap. \<open>lacks\<close> tells which \<open>POST\<close> requests miss a member that a statement of their
  operation binds: such a request never succeeds and leaves no trace, whatever fails. The one
  member that is missed by no statement is the paid amount of a completion: the payment is
  completed and its event stored, and only the read model, whose error nobody sees, stays behind.
\<close>

section \<open>Requests that cannot succeed\<close>

definition lacks :: "endpoint \<Rightarrow> request_body \<Rightarrow> bool" where
  "lacks ep b =
     (case ep of
        EP_createPayment \<Rightarrow> (case b of NoBody \<Rightarrow> True | JsonBody f \<Rightarrow> create_request f = None)
      | EP_completePayment \<Rightarrow> (case b of NoBody \<Rightarrow> True
          | JsonBody f \<Rightarrow> rq_orderNumber f = None \<or> rq_transactionId f = None)
      | EP_refundPayment on \<Rightarrow> (case b of NoBody \<Rightarrow> True
          | JsonBody f \<Rightarrow> rq_refundAmount f = None \<or> rq_reason f = None)
      | EP_createSubscription \<Rightarrow> (case b of NoBody \<Rightarrow> True | JsonBody f \<Rightarrow> subscription_request f = None)
      | EP_cancelSubscription sid \<Rightarrow> (case b of NoBody \<Rightarrow> True | JsonBody f \<Rightarrow> rq_reason f = None)
      | _ \<Rightarrow> False)"

text \<open>All of the world but the count of the actions.\<close>

definition timeless :: "world \<Rightarrow> world" where
  "timeless w = w\<lparr>w_tick := 0\<rparr>"

definition barren :: "'a io \<Rightarrow> bool" where
  "barren p \<longleftrightarrow> keeps timeless p \<and> ends (\<lambda>_. False) known_error p"

definition traceless :: "'a io \<Rightarrow> bool" where
  "traceless p \<longleftrightarrow> keeps timeless p \<and> throws known_error p"

lemma timeless_tick [simp]: "timeless (tick w) = timeless w"
  by (simp add: timeless_def tick_def)

lemma barren_seq: "traceless m \<Longrightarrow> (\<And>x. barren (f x)) \<Longrightarrow> barren (seq m f)"
  unfolding barren_def traceless_def by (blast intro: keeps_seq throws_seq)

lemma barren_Fail: "known_error e \<Longrightarrow> barren (Fail e)"
  by (simp add: barren_def keeps_basic)

lemma barren_unbound: "barren (unbound E)"
proof -
  have "keeps timeless (unbound E)" unfolding unbound_def by (rule keeps_remote) simp_all
  moreover have "ends (\<lambda>_. False) known_error (unbound E)"
    unfolding unbound_def remote_def by (rule ends_act) (simp add: undefined_parameter_def split: fault.split)
  ultimately show ?thesis by (simp add: barren_def)
qed

lemma keeps_timeless_reading: "keeps timeless (sql E (\<lambda>n. reading (q n)))"
  by (rule keeps_sql) (auto simp: reading_def)

lemma traceless_reads:
  "traceless (new_date E)" "traceless (uuidv4 E)" "traceless (RedisClient_get E key)" "traceless (no_row E)"
  "traceless (PaymentRepository_findByOrderNumber E on)"
  "traceless (SubscriptionRepository_findBySubscriptionId E sid)"
  "traceless (SubscriptionRepository_findActiveByUserId E uid)"
proof -
  have "keeps timeless (RedisClient_get E key)"
    unfolding RedisClient_get_def by (rule keeps_remote) simp_all
  moreover have "keeps timeless (new_date E)" "keeps timeless (uuidv4 E)"
    by (simp_all add: keeps_new_date keeps_uuidv4)
  ultimately show "traceless (new_date E)" "traceless (uuidv4 E)" "traceless (RedisClient_get E key)"
    "traceless (no_row E)" "traceless (PaymentRepository_findByOrderNumber E on)"
    "traceless (SubscriptionRepository_findBySubscriptionId E sid)"
    "traceless (SubscriptionRepository_findActiveByUserId E uid)"
    by (simp_all add: traceless_def throws_services throws_requests throws_repositories)
      (simp_all add: repository_defs no_row_def keeps_timeless_reading)
qed

lemmas barren_rules = barren_seq barren_Fail barren_unbound traceless_reads

lemma barren_fields:
  "create_request f = None \<Longrightarrow> barren (createPayment_fields E f)"
  "rq_orderNumber f = None \<or> rq_transactionId f = None \<Longrightarrow> barren (completePayment_fields E f)"
  "rq_refundAmount f = None \<or> rq_reason f = None \<Longrightarrow> barren (refundPayment_fields E on f)"
  "subscription_request f = None \<Longrightarrow> barren (createSubscription_fields E f)"
  "rq_reason f = None \<Longrightarrow> barren (cancelSubscription_fields E sid f)"
  unfolding request_defs by (auto intro!: barren_rules split: option.split)

lemma barren_run:
  assumes "barren m"
  shows "\<exists>e w'. run m w = (Inl e, w') \<and> known_error e \<and> timeless w' = timeless w"
proof -
  obtain r w' where r: "run m w = (r, w')" by fastforce
  with assms have "timeless w' = timeless w" unfolding barren_def by (blast dest: keepsD)
  moreover have "case r of Inl e \<Rightarrow> known_error e | Inr x \<Rightarrow> False"
    using assms r ends_run [of "\<lambda>_. False" known_error m w r w'] by (simp add: barren_def)
  ultimately show ?thesis using r by (cases r) auto
qed

lemma barren_writer:
  assumes "\<And>f. b = JsonBody f \<Longrightarrow> barren (m f)"
  shows "\<exists>e w'. run (or_next (seq (body_fields b) (\<lambda>f. seq (m f) (\<lambda>x. reply status (h x))))) w =
    (Inr (error_response e), w') \<and> known_error e \<and> timeless w' = timeless w"
proof (cases b)
  case NoBody
  then show ?thesis by (auto simp: body_fields_def run_or_next run_basic)
next
  case (JsonBody f)
  with barren_run [OF assms, of f w] obtain e w' where
    "run (m f) w = (Inl e, w')" "known_error e" "timeless w' = timeless w" by blast
  with JsonBody show ?thesis by (auto simp: body_fields_def run_or_next run_seq)
qed

text \<open>
  C25: A request whose body lacks a member it needs, or which has no body at all, leaves no trace: in
  every environment, whatever fails, it is answered with an error and the database, the event log,
  the Redis commands and the queues are exactly as before. The needed members are the user, product
  and amount of a payment, the order and transaction of a completion, the amount and reason of a
  refund, the user, plan id and plan of a subscription, and the reason of a cancellation.
\<close>

theorem incomplete_body_leaves_no_trace:
  assumes "lacks ep b"
  shows "\<exists>code msg status w'. run (serve E ep q b) w =
      (Inr \<lparr>rs_status = status, rs_body = Failure code msg\<rparr>, w') \<and>
    w'\<lparr>w_tick := w_tick w\<rparr> = w \<and> 400 \<le> status"
proof -
  have fields: "\<exists>e w'. run (serve E ep q b) w = (Inr (error_response e), w') \<and>
      known_error e \<and> timeless w' = timeless w"
    using assms unfolding lacks_def
    by (cases ep; simp add: writer_defs(2-); intro barren_writer; auto intro: barren_fields)
  then obtain e w' where run: "run (serve E ep q b) w = (Inr (error_response e), w')"
    and "known_error e" "timeless w' = timeless w" by blast
  then have "w'\<lparr>w_tick := w_tick w\<rparr> = w" by (cases w; cases w') (simp add: timeless_def)
  moreover have "\<exists>code msg status. error_response e = \<lparr>rs_status = status, rs_body = Failure code msg\<rparr> \<and> 400 \<le> status"
    using \<open>known_error e\<close> by (auto simp: error_response_def known_error_def split: js_error.splits)
  ultimately show ?thesis using run by (elim exE conjE) (intro exI conjI; simp)
qed

lemma incomplete_body_leaves_no_trace_witness:
  "\<exists>code msg status w'. run (serve calm (EP_refundPayment ''O1'') (\<lambda>_. None) (JsonBody no_fields))
      (with_payment COMPLETED) = (Inr \<lparr>rs_status = status, rs_body = Failure code msg\<rparr>, w') \<and>
    payments (w_db w') = [sample_payment COMPLETED]"
proof -
  have "lacks (EP_refundPayment ''O1'') (JsonBody no_fields)" by (simp add: lacks_def no_fields_def)
  from incomplete_body_leaves_no_trace [OF this, of calm "\<lambda>_. None" "with_payment COMPLETED"]
  obtain code msg status w' where w': "run (serve calm (EP_refundPayment ''O1'') (\<lambda>_. None) (JsonBody no_fields))
      (with_payment COMPLETED) = (Inr \<lparr>rs_status = status, rs_body = Failure code msg\<rparr>, w')"
    "w'\<lparr>w_tick := w_tick (with_payment COMPLETED)\<rparr> = with_payment COMPLETED" by blast
  then have "w_db w' = w_db (with_payment COMPLETED)" by (metis world.select_convs(2) world.simps(12) world.surjective world.update_convs(1))
  with w'(1) show ?thesis by auto
qed

section \<open>A completion without its amount\<close>

lemma completePayment_unpriced:
  assumes "rq_orderNumber f = Some on" "rq_transactionId f = Some tid" "rq_paidAmount f = None"
  shows "completePayment_fields E f =
     seq (PaymentRepository_findByOrderNumber E on) (\<lambda>payment.
     case payment of
       None \<Rightarrow> Fail (NotFoundError ''Payment'' on)
     | Some p \<Rightarrow>
         if p_status p \<noteq> PENDING then Fail (DuplicatePaymentError on)
         else complete_with E on tid (UnpricedCompletedPayload on tid))"
  by (simp only: completePayment_fields_def assms option.case prod.case complete_with_def)

text \<open>
  C26: A completion whose body has no paidAmount succeeds and loses the revenue: with the projector
  registered, it is answered with 200, the payment is COMPLETED, its event is stored without an
  amount, and the read model is left as it was: neither the revenue nor the transaction is counted.
\<close>

theorem completion_without_amount:
  assumes "reliable E" "payment_select on (w_db w) = Some p" "p_status p = PENDING"
    and "length tid \<le> 128" "can_publish E (w_tick w + 4) on (w_db w)"
    and "handlers_of PAYMENT_COMPLETED w = [OnPaymentCompleted]"
    and "rq_orderNumber f = Some on" "rq_transactionId f = Some tid" "rq_paidAmount f = None"
  shows "\<exists>w'. run (serve E EP_completePayment q (JsonBody f)) w = (Inr \<lparr>rs_status = 200, rs_body = Success NoData\<rparr>, w') \<and>
    w_db w' = add_event (publish_row E (w_tick w + 4) PAYMENT_COMPLETED on ''Payment''
        (UnpricedCompletedPayload on tid (clock E (w_tick w + 3))) (w_db w))
      ((w_db w)\<lparr>payments := with_key p_orderNumber on
        (completed_row tid (clock E (w_tick w + 1)) (sql_now (db_clock E (w_tick w + 2)))) (payments (w_db w))\<rparr>) \<and>
    payment_summary (w_db w') = payment_summary (w_db w)"
proof -
  let ?pl = "UnpricedCompletedPayload on tid (clock E (w_tick w + 3))"
  define w1 where "w1 = completing E on tid (tick w)"
  have w1: "w_tick w1 = w_tick w + 4" "handlers_of PAYMENT_COMPLETED w1 = [OnPaymentCompleted]"
    "w_db w1 = (w_db w)\<lparr>payments := with_key p_orderNumber on
        (completed_row tid (clock E (w_tick w + 1)) (sql_now (db_clock E (w_tick w + 2)))) (payments (w_db w))\<rparr>"
    using assms(6) by (simp_all add: w1_def completing_def handlers_of_def eval_nat_numeral)
  have "can_publish E (w_tick w1) on (w_db w1)" "length ''Payment'' \<le> 64" using assms(5) w1 by simp_all
  from run_publish_done [OF assms(1) this, of PAYMENT_COMPLETED ?pl "()"] obtain w' where
    pub: "run (seq (publish E PAYMENT_COMPLETED on ''Payment'' ?pl) (\<lambda>_. Done ())) w1 = (Inr (), w')"
    and w': "w' = snd (run (all_settled (map (\<lambda>h. projector_exec E h (published E PAYMENT_COMPLETED on ''Payment'' ?pl w1))
       (handlers_of PAYMENT_COMPLETED w1))) (after_append E PAYMENT_COMPLETED on ''Payment'' ?pl w1))" by blast
  have "w' = tick (after_append E PAYMENT_COMPLETED on ''Payment'' ?pl w1)"
    unfolding w' w1(2)
    by (simp add: run_all_settled_single onPaymentCompleted_def run_unbound_reliable [OF assms(1)] del: all_settled.simps)
  then have db: "w_db w' = add_event (publish_row E (w_tick w1) PAYMENT_COMPLETED on ''Payment'' ?pl (w_db w1)) (w_db w1)"
    by (simp add: after_append_def)
  have "run (complete_with E on tid (UnpricedCompletedPayload on tid)) (tick w) = (Inr (), w')"
    using pub complete_with_until_publish [OF assms(1,4), of on "UnpricedCompletedPayload on tid" "tick w"]
    by (simp add: w1_def eval_nat_numeral)
  then have "run (completePayment_fields E f) w = (Inr (), w')"
    using assms(2,3) by (simp add: completePayment_unpriced [OF assms(7-9)] run_seq run_find_payment [OF assms(1)])
  then have "run (serve E EP_completePayment q (JsonBody f)) w = (Inr \<lparr>rs_status = 200, rs_body = Success NoData\<rparr>, w')"
    by (simp add: writer_defs run_or_next run_seq run_reply)
  with db w1 show ?thesis by (intro exI [of _ w']) simp
qed

lemma completion_without_amount_witness:
  "\<exists>w'. run (serve calm EP_completePayment (\<lambda>_. None) (JsonBody (no_fields\<lparr>rq_orderNumber := Some ''O1'',
      rq_transactionId := Some ''T1''\<rparr>))) (with_payment PENDING) = (Inr \<lparr>rs_status = 200, rs_body = Success NoData\<rparr>, w') \<and>
    map p_status (payments (w_db w')) = [COMPLETED] \<and> payment_summary (w_db w') = []"
proof -
  let ?w = "with_payment PENDING"
  let ?f = "no_fields\<lparr>rq_orderNumber := Some ''O1'', rq_transactionId := Some ''T1''\<rparr>"
  have "can_publish calm (w_tick ?w + 4) ''O1'' (w_db ?w)" by (simp add: can_publish_def)
  from completion_without_amount [OF calm_reliable _ _ _ this, of "sample_payment PENDING" "''T1''" ?f "\<lambda>_. None"]
  obtain w' where "run (serve calm EP_completePayment (\<lambda>_. None) (JsonBody ?f)) ?w =
      (Inr \<lparr>rs_status = 200, rs_body = Success NoData\<rparr>, w')"
    "payments (w_db w') = with_key p_orderNumber ''O1'' (completed_row ''T1'' 0 0) (payments (w_db ?w))"
    "payment_summary (w_db w') = payment_summary (w_db ?w)"
    by (auto simp: no_fields_def booted_handlers)
  then show ?thesis
    by (intro exI [of _ w']) (simp add: with_key_def completed_row_def sample_payment_def)
qed

end
