(* ===== verification/Faults.thy ===== *)
theory Faults
  imports AutopayLaws
begin

text \<open>
  Faults matter only where they strike. \<open>spared E p q\<close> relates a program to the same program in
  the environment without faults: if none of the calls the second one makes is at a tick with a
  fault, the first runs just as the second does. All operations are spared in this sense, so what
  is shown of reliable environments holds of the fault-free stretches of any other. With it, the
  last section follows a renewal whose last but one statement fails, and the next renewal of the
  same subscription.
\<close>

section \<open>Fault-free stretches\<close>

definition faultless :: "env \<Rightarrow> env" where
  "faultless E = E\<lparr>fault := (\<lambda>_. NoFault)\<rparr>"

lemma faultless_simps [simp]:
  "clock (faultless E) = clock E" "db_clock (faultless E) = db_clock E" "uuid (faultless E) = uuid E"
  "redis_reply (faultless E) = redis_reply E" "subscription_order (faultless E) = subscription_order E"
  "payment_order (faultless E) = payment_order E" "event_order (faultless E) = event_order E"
  "tz (faultless E) = tz E" "fault (faultless E) n = NoFault" "reliable (faultless E)"
  by (simp_all add: faultless_def reliable_def)

lemma message_of_faultless [simp]: "message_of (faultless E) e = message_of E e"
  by (simp add: message_of_def faultless_def split: js_error.split)

definition spared :: "env \<Rightarrow> 'a io \<Rightarrow> 'a io \<Rightarrow> bool" where
  "spared E p q \<longleftrightarrow> (\<forall>w r w'. run q w = (r, w') \<longrightarrow> w_tick w \<le> w_tick w' \<and>
     ((\<forall>n. w_tick w \<le> n \<and> n < w_tick w' \<longrightarrow> fault E n = NoFault) \<longrightarrow> run p w = (r, w')))"

lemma sparedI:
  assumes "\<And>w r w'. run q w = (r, w') \<Longrightarrow> w_tick w \<le> w_tick w'"
    and "\<And>w r w'. run q w = (r, w') \<Longrightarrow> (\<And>n. w_tick w \<le> n \<Longrightarrow> n < w_tick w' \<Longrightarrow> fault E n = NoFault) \<Longrightarrow>
      run p w = (r, w')"
  shows "spared E p q"
  using assms unfolding spared_def by blast

lemma sparedD:
  assumes "spared E p q" "run q w = (r, w')"
  shows "w_tick w \<le> w_tick w'"
    "(\<And>n. w_tick w \<le> n \<Longrightarrow> n < w_tick w' \<Longrightarrow> fault E n = NoFault) \<Longrightarrow> run p w = (r, w')"
  using assms unfolding spared_def by blast+

lemma spared_basic: "spared E (Done x) (Done x)" "spared E (Fail e) (Fail e)"
  by (simp_all add: spared_def)

lemma spared_bind:
  assumes "run q w = (r1, w1)" "w_tick w \<le> w_tick w1" "w_tick w1 \<le> w_tick w'"
    and "\<And>n. w_tick w \<le> n \<Longrightarrow> n < w_tick w' \<Longrightarrow> fault E n = NoFault" "spared E p q"
  shows "run p w = (r1, w1)"
  using sparedD(2) [OF assms(5,1)] assms(3,4) by simp

lemma spared_seq:
  assumes "spared E p q" "\<And>x. spared E (f x) (g x)"
  shows "spared E (seq p f) (seq q g)"
proof (rule sparedI)
  fix w r w'
  assume run: "run (seq q g) w = (r, w')"
  obtain r1 w1 where q: "run q w = (r1, w1)" by fastforce
  have t1: "w_tick w \<le> w_tick w1" using sparedD(1) [OF assms(1) q] .
  show t: "w_tick w \<le> w_tick w'"
    using run q t1 sparedD(1) [OF assms(2)] by (cases r1) (auto simp: run_seq intro: order_trans)
  assume free: "\<And>n. w_tick w \<le> n \<Longrightarrow> n < w_tick w' \<Longrightarrow> fault E n = NoFault"
  show "run (seq p f) w = (r, w')"
  proof (cases r1)
    case (Inl e)
    with run q sparedD(2) [OF assms(1) q] free show ?thesis by (simp add: run_seq)
  next
    case (Inr x)
    with run q have g: "run (g x) w1 = (r, w')" by (simp add: run_seq)
    have "run p w = (r1, w1)"
      by (rule spared_bind [OF q t1 sparedD(1) [OF assms(2) g] free assms(1)])
    moreover have "run (f x) w1 = (r, w')"
      using sparedD(2) [OF assms(2) g] free t1 by (meson order_trans)
    ultimately show ?thesis using Inr by (simp add: run_seq)
  qed
qed

lemma spared_catch:
  assumes "spared E p q" "\<And>e. spared E (h e) (k e)"
  shows "spared E (catch p h) (catch q k)"
proof (rule sparedI)
  fix w r w'
  assume run: "run (catch q k) w = (r, w')"
  obtain r1 w1 where q: "run q w = (r1, w1)" by fastforce
  have t1: "w_tick w \<le> w_tick w1" using sparedD(1) [OF assms(1) q] .
  show t: "w_tick w \<le> w_tick w'"
    using run q t1 sparedD(1) [OF assms(2)] by (cases r1) (auto simp: run_catch intro: order_trans)
  assume free: "\<And>n. w_tick w \<le> n \<Longrightarrow> n < w_tick w' \<Longrightarrow> fault E n = NoFault"
  show "run (catch p h) w = (r, w')"
  proof (cases r1)
    case (Inr x)
    with run q sparedD(2) [OF assms(1) q] free show ?thesis by (auto simp: run_catch)
  next
    case (Inl e)
    with run q have k: "run (k e) w1 = (r, w')" by (simp add: run_catch)
    have "run p w = (r1, w1)"
      by (rule spared_bind [OF q t1 sparedD(1) [OF assms(2) k] free assms(1)])
    moreover have "run (h e) w1 = (r, w')"
      using sparedD(2) [OF assms(2) k] free t1 by (meson order_trans)
    ultimately show ?thesis using Inl by (simp add: run_catch)
  qed
qed

lemma spared_act: "(\<And>w. w_tick w \<le> w_tick (snd (f w))) \<Longrightarrow> spared E (act f) (act f)"
  by (rule sparedI) (metis run_act snd_conv)+

lemma spared_remote:
  assumes "\<And>n v. w_tick (snd (f n v)) = w_tick v"
  shows "spared E (remote E f) (remote (faultless E) f)"
proof (rule sparedI)
  fix w r w'
  assume "run (remote (faultless E) f) w = (r, w')"
  then have f: "f (w_tick w) (tick w) = (r, w')" by (simp add: run_remote)
  with assms [of "w_tick w" "tick w"] have t: "w_tick w' = Suc (w_tick w)" by simp
  then show "w_tick w \<le> w_tick w'" by simp
  assume "\<And>n. w_tick w \<le> n \<Longrightarrow> n < w_tick w' \<Longrightarrow> fault E n = NoFault"
  with t have "fault E (w_tick w) = NoFault" by simp
  with f show "run (remote E f) w = (r, w')" by (simp add: run_remote)
qed

lemma spared_unbound: "spared E (unbound E) (unbound (faultless E))"
  unfolding unbound_def by (rule spared_remote) simp

lemma spared_sql: "spared E (sql E st) (sql (faultless E) st)"
  unfolding sql_def faultless_simps
  by (rule spared_remote) (simp add: sql_effect_def split: sum.split)

section \<open>The operations are spared\<close>

lemma spared_services:
  "spared E (new_date E) (new_date (faultless E))" "spared E (uuidv4 E) (uuidv4 (faultless E))"
  "spared E (RedisClient_get E key) (RedisClient_get (faultless E) key)"
  "spared E (RedisClient_set E key v ttl) (RedisClient_set (faultless E) key v ttl)"
  "spared E (getOrCreateQueue name) (getOrCreateQueue name)"
  "spared E (queue_add E q jn jd opts) (queue_add (faultless E) q jn jd opts)"
  unfolding new_date_def uuidv4_def RedisClient_get_def RedisClient_set_def getOrCreateQueue_def queue_add_def
    faultless_simps
  by (rule spared_act spared_remote; simp add: Let_def tick_def split: option.split)+

lemma spared_repositories:
  "spared E (PaymentRepository_create E d) (PaymentRepository_create (faultless E) d)"
  "spared E (PaymentRepository_findByOrderNumber E on) (PaymentRepository_findByOrderNumber (faultless E) on)"
  "spared E (PaymentRepository_updateStatus E on st extra) (PaymentRepository_updateStatus (faultless E) on st extra)"
  "spared E (SubscriptionRepository_findBySubscriptionId E sid) (SubscriptionRepository_findBySubscriptionId (faultless E) sid)"
  "spared E (SubscriptionRepository_findExpiredForRenewal E b) (SubscriptionRepository_findExpiredForRenewal (faultless E) b)"
  "spared E (SubscriptionRepository_updateStatus E sid ss extra) (SubscriptionRepository_updateStatus (faultless E) sid ss extra)"
  "spared E (SubscriptionRepository_renewSubscription E sid t) (SubscriptionRepository_renewSubscription (faultless E) sid t)"
  "spared E (EventStoreRepository_append E ev) (EventStoreRepository_append (faultless E) ev)"
  "spared E (EventStoreRepository_getLatestVersion E a) (EventStoreRepository_getLatestVersion (faultless E) a)"
  unfolding repository_defs faultless_simps by (rule spared_sql)+

lemma spared_projector: "spared E (projector_exec E h ev) (projector_exec (faultless E) h ev)"
  by (cases h) (auto simp: onPaymentCompleted_def onPaymentRefunded_def onPaymentFailed_def Let_def
      intro!: spared_basic spared_seq spared_services spared_unbound spared_sql split: event_payload.split)

lemma spared_all_settled:
  "spared E (all_settled (map (\<lambda>h. projector_exec E h ev) hs)) (all_settled (map (\<lambda>h. projector_exec (faultless E) h ev) hs))"
  by (induction hs) (auto intro!: spared_basic spared_seq spared_catch spared_projector)

lemma spared_publish: "spared E (publish E ty a aty payload) (publish (faultless E) ty a aty payload)"
  unfolding EventBus_publish_def Let_def
  by (intro spared_seq spared_repositories spared_services spared_act spared_all_settled spared_basic) simp

lemmas spared_rules = spared_seq spared_catch spared_basic spared_services spared_repositories spared_publish

lemma spared_createPayment: "spared E (createPayment E req) (createPayment (faultless E) req)"
  unfolding createPayment_def Let_def by (auto intro!: spared_rules)

lemma spared_completePayment: "spared E (completePayment E req) (completePayment (faultless E) req)"
  unfolding completePayment_def by (auto intro!: spared_rules split: option.split)

lemma spared_renew_body: "spared E (renew_body E d s) (renew_body (faultless E) d s)"
  unfolding renew_body_def Let_def faultless_simps
  by (intro spared_rules spared_createPayment spared_completePayment)

lemma spared_processRenewal: "spared E (processRenewal E job) (processRenewal (faultless E) job)"
proof -
  have enq: "spared E (enqueue_renewals E q subs) (enqueue_renewals (faultless E) q subs)" for q subs
    by (induction subs) (auto intro!: spared_rules)
  have err: "spared E (on_renewal_error E job e) (on_renewal_error (faultless E) job e)" for e
    unfolding on_renewal_error_def dead_letter_def message_of_faultless by (auto intro!: spared_rules)
  show ?thesis
    unfolding processRenewal_def scanAndEnqueueExpired_def Let_def
    by (auto intro!: spared_rules enq err spared_renew_body split: option.split)
qed

section \<open>A renewal that fails after the charge\<close>

text \<open>An operation that meets no fault runs as in the reliable environment.\<close>

lemma run_spared:
  assumes "spared E p q" "run q w = (r, w')" "w_tick w' \<le> t" "\<And>n. w_tick w \<le> n \<Longrightarrow> n < t \<Longrightarrow> fault E n = NoFault"
  shows "run p w = (r, w')"
  using sparedD(2) [OF assms(1,2)] assms(3,4) by simp

lemma renew_body_unextended:
  assumes "\<And>n. fault E n = (if n = w_tick w + 20 then NotApplied m else NoFault)"
    and "live_order E (renewal_request d) w = None" "on = order_in E w"
    and "can_insert on (renewal_request d) (w_db w)" "can_charge E on w"
    and "handlers_of PAYMENT_CREATED w = []" "handlers_of PAYMENT_COMPLETED w = [OnPaymentCompleted]"
  shows "\<exists>w' p r1 r2. run (renew_body E d s) w = (Inl (Unavailable m), w') \<and>
    payments (w_db w') = payments (w_db w) @ [p] \<and> p_status p = COMPLETED \<and>
    (p_orderNumber p, p_userId p, p_productId p, p_amount p) = (on, rj_userId d, rj_planId d, renewal_amount (rj_plan d)) \<and>
    subscriptions (w_db w') = subscriptions (w_db w) \<and> event_store (w_db w') = event_store (w_db w) @ [r1, r2] \<and>
    map (\<lambda>r. (se_eventType r, se_aggregateId r, se_eventId r)) [r1, r2] =
      [(''PAYMENT_CREATED'', on, uuid E (w_tick w + 6)), (''PAYMENT_COMPLETED'', on, uuid E (w_tick w + 16))] \<and>
    w_handlers w' = w_handlers w \<and> w_tick w' = w_tick w + 21"
proof -
  let ?E = "faultless E" and ?req = "renewal_request d" and ?n = "w_tick w"
  let ?txn = "''TXN-RENEW-'' @ show_int (clock E (?n + 10))"
  let ?creq = "\<lparr>co_orderNumber = on, co_transactionId = ?txn, co_paidAmount = renewal_amount (rj_plan d)\<rparr>"
  have prem: "reliable ?E" "live_order ?E ?req w = None" "on = order_in ?E w" "can_charge ?E on w"
      "?txn = ''TXN-RENEW-'' @ show_int (clock ?E (?n + 10))"
    using assms(2,3,5) by (simp_all add: live_order_def order_in_def can_charge_def)
  from charge_run [OF prem(1-3) assms(4) prem(4) assms(6,7) prem(5), of "renewal_amount (rj_plan d)"]
  obtain w1 w2 p r1 r2 where
    create: "run (createPayment ?E ?req) w = (Inr on, w1)" and tick1: "w_tick w1 = ?n + 10"
    and complete: "run (completePayment ?E ?creq) (tick w1) = (Inr (), w2)"
    and w2: "payments (w_db w2) = payments (w_db w) @ [p]" "subscriptions (w_db w2) = subscriptions (w_db w)"
      "event_store (w_db w2) = event_store (w_db w) @ [r1, r2]" "w_handlers w2 = w_handlers w" "w_tick w2 = ?n + 20"
      "w_redis w2 = w_redis w @ [RSet (?n + 4) (key_of ?req) on (Some 3600)]"
    and p: "p_status p = COMPLETED"
      "(p_orderNumber p, p_userId p, p_productId p, p_amount p) = (on, cp_userId ?req, cp_productId ?req, cp_amount ?req)"
    and r12: "map (\<lambda>r. (se_eventType r, se_aggregateId r, se_eventId r)) [r1, r2] =
      [(''PAYMENT_CREATED'', on, uuid ?E (?n + 6)), (''PAYMENT_COMPLETED'', on, uuid ?E (?n + 16))]"
    by (elim exE conjE) (rule that)
  have create': "run (createPayment E ?req) w = (Inr on, w1)"
    by (rule run_spared [OF spared_createPayment create, of "?n + 20"]) (simp_all add: assms(1) tick1)
  have complete': "run (completePayment E ?creq) (tick w1) = (Inr (), w2)"
    by (rule run_spared [OF spared_completePayment complete, of "?n + 20"]) (simp_all add: assms(1) w2(5) tick1)
  have extend: "run (SubscriptionRepository_renewSubscription E sid t) w2 = (Inl (Unavailable m), tick w2)" for sid t
    by (simp add: SubscriptionRepository_renewSubscription_def sql_def run_remote assms(1) w2(5))
  have "run (renew_body E d s) w = (Inl (Unavailable m), tick w2)"
    unfolding renew_body_def Let_def
    by (simp only: run_seq [of "createPayment E ?req"] create' run_seq [of "new_date E"] run_new_date
        run_seq [of "completePayment E ?creq"] tick1 complete' prod.case sum.case
        run_seq [of "SubscriptionRepository_renewSubscription E _ _"] extend)
  then show ?thesis using w2 p r12
    by (intro exI [of _ "tick w2"] exI [of _ p] exI [of _ r1] exI [of _ r2]) (simp add: renewal_request_def tick_def)
qed

text \<open>The charge of a renewal: who pays, for what and how much.\<close>

definition charge_of :: "payment \<Rightarrow> string \<times> string \<times> money \<times> payment_status" where
  "charge_of p = (p_userId p, p_productId p, p_amount p, p_status p)"

definition renewal_charge :: "renewal_job_data \<Rightarrow> string \<times> string \<times> money \<times> payment_status" where
  "renewal_charge d = (rj_userId d, rj_planId d, renewal_amount (rj_plan d), COMPLETED)"

text \<open>What a renewal job needs to go through in \<open>w\<close>, apart from the subscription.\<close>

definition renewable :: "env \<Rightarrow> job \<Rightarrow> world \<Rightarrow> bool" where
  "renewable E job w \<longleftrightarrow> job_name job \<noteq> ''scan-expired'' \<and>
     live_order E (renewal_request (job_data job)) (tick w) = None \<and>
     can_insert (order_in E (tick w)) (renewal_request (job_data job)) (w_db w) \<and>
     can_renew E (rj_subscriptionId (job_data job)) (tick w) \<and>
     handlers_of PAYMENT_CREATED w = [] \<and> handlers_of PAYMENT_COMPLETED w = [OnPaymentCompleted]"

lemma renewable_faultless: "renewable (faultless E) job w = renewable E job w"
  by (simp add: renewable_def live_order_def order_in_def can_renew_def can_charge_def can_publish_def)

lemma processRenewal_unextended:
  assumes "\<And>n. fault E n = (if n = w_tick w + 21 then NotApplied m else NoFault)"
    and "d = job_data job" "subscription_select (rj_subscriptionId d) (w_db w) = Some s" "s_status s = ACTIVE" "s_autoRenew s"
    and "renewable E job w" "\<not> last_attempt job" "on = order_in E (tick w)"
  shows "\<exists>w1 p r1 r2. run (processRenewal E job) w = (Inl (Unavailable m), w1) \<and>
    payments (w_db w1) = payments (w_db w) @ [p] \<and> p_orderNumber p = on \<and> charge_of p = renewal_charge d \<and>
    subscriptions (w_db w1) = subscriptions (w_db w) \<and> event_store (w_db w1) = event_store (w_db w) @ [r1, r2] \<and>
    map (\<lambda>r. (se_eventType r, se_aggregateId r, se_eventId r)) [r1, r2] =
      [(''PAYMENT_CREATED'', on, uuid E (w_tick w + 7)), (''PAYMENT_COMPLETED'', on, uuid E (w_tick w + 17))] \<and>
    w_tick w1 = w_tick w + 22"
proof -
  note ready = assms(6) [unfolded renewable_def, folded assms(2) assms(8)]
  have fault: "\<And>n. fault E n = (if n = w_tick (tick w) + 20 then NotApplied m else NoFault)" using assms(1) by simp
  have "can_insert on (renewal_request d) (w_db (tick w))"
    "can_charge E on (tick w)" "handlers_of ty (tick w) = handlers_of ty w" for ty
    using ready assms(8) by (simp_all add: can_renew_def handlers_of_def)
  with renew_body_unextended [OF fault _ assms(8), of d s] ready obtain w1 p r1 r2 where
    body: "run (renew_body E d s) (tick w) = (Inl (Unavailable m), w1)"
    and w1: "payments (w_db w1) = payments (w_db w) @ [p]" "p_status p = COMPLETED"
      "(p_orderNumber p, p_userId p, p_productId p, p_amount p) = (on, rj_userId d, rj_planId d, renewal_amount (rj_plan d))"
      "subscriptions (w_db w1) = subscriptions (w_db w)" "w_tick w1 = w_tick w + 22"
      "event_store (w_db w1) = event_store (w_db w) @ [r1, r2]"
      "map (\<lambda>r. (se_eventType r, se_aggregateId r, se_eventId r)) [r1, r2] =
        [(''PAYMENT_CREATED'', on, uuid E (w_tick w + 7)), (''PAYMENT_COMPLETED'', on, uuid E (w_tick w + 17))]"
    by (auto simp: eval_nat_numeral)
  have find: "run (SubscriptionRepository_findBySubscriptionId E (rj_subscriptionId d)) w = (Inr (Some s), tick w)"
    using assms(1,3) by (simp add: SubscriptionRepository_findBySubscriptionId_def sql_def run_remote sql_effect_reading)
  have "run (processRenewal E job) w = (Inl (Unavailable m), w1)"
    using ready assms(4,5,7) body
    by (simp add: processRenewal_renew Let_def assms(2) [symmetric] run_seq find run_catch on_renewal_error_def run_basic)
  with w1 show ?thesis
    by (intro exI [of _ w1] exI [of _ p] exI [of _ r1] exI [of _ r2]) (simp add: charge_of_def renewal_charge_def)
qed

text \<open>
  C21: A renewal can charge twice for one period. If the statement that extends the subscription
  fails, the attempt fails with its payment already COMPLETED and the subscription as it was; and
  once the hour of the idempotency key is over, the next renewal job of the same subscription
  charges the same user the same amount again and extends the subscription by one period, counted
  from the same old end date.
\<close>

theorem renewal_charged_twice:
  assumes "\<And>n. fault E n = (if n = w_tick w + 21 then NotApplied m else NoFault)"
    and "d = job_data job" "subscription_select (rj_subscriptionId d) (w_db w) = Some s" "s_status s = ACTIVE" "s_autoRenew s"
    and "renewable E job w" "\<not> last_attempt job"
  shows "\<exists>w1 p. run (processRenewal E job) w = (Inl (Unavailable m), w1) \<and>
    payments (w_db w1) = payments (w_db w) @ [p] \<and> charge_of p = renewal_charge d \<and>
    subscriptions (w_db w1) = subscriptions (w_db w) \<and>
    (\<forall>job' w2. job_data job' = d \<and> w_db w2 = w_db w1 \<and> w_tick w1 \<le> w_tick w2 \<and> renewable E job' w2 \<longrightarrow>
      (\<exists>w3 p'. run (processRenewal E job') w2 = (Inr (), w3) \<and>
         payments (w_db w3) = payments (w_db w) @ [p, p'] \<and> charge_of p' = renewal_charge d \<and>
         subscriptions (w_db w3) = with_key s_subscriptionId (rj_subscriptionId d)
           (renew_row (calculateNewEndDate (tz E) (s_endDate s) (rj_plan d)) (sql_now (db_clock E (w_tick w2 + 21))))
           (subscriptions (w_db w))))"
proof -
  from processRenewal_unextended [OF assms(1-7) refl] obtain w1 p where
    first: "run (processRenewal E job) w = (Inl (Unavailable m), w1)"
    and w1: "payments (w_db w1) = payments (w_db w) @ [p]" "charge_of p = renewal_charge d"
      "subscriptions (w_db w1) = subscriptions (w_db w)" "w_tick w1 = w_tick w + 22"
    by (elim exE conjE) (rule that)
  have second: "\<exists>w3 p'. run (processRenewal E job') w2 = (Inr (), w3) \<and>
      payments (w_db w3) = payments (w_db w) @ [p, p'] \<and> charge_of p' = renewal_charge d \<and>
      subscriptions (w_db w3) = with_key s_subscriptionId (rj_subscriptionId d)
        (renew_row (calculateNewEndDate (tz E) (s_endDate s) (rj_plan d)) (sql_now (db_clock E (w_tick w2 + 21))))
        (subscriptions (w_db w))"
    if job': "job_data job' = d" and w2: "w_db w2 = w_db w1" "w_tick w1 \<le> w_tick w2" and re: "renewable E job' w2"
    for job' w2
  proof -
    have "renewable (faultless E) job' w2" using re by (simp only: renewable_faultless)
    note re' = this [unfolded renewable_def job']
    have sel: "subscription_select (rj_subscriptionId d) (w_db w2) = Some s"
      using assms(3) w1(3) w2(1) by (simp add: subscription_select_def)
    from re' processRenewal_run [of "faultless E" job' d w2 s, OF _ _ job' [symmetric] sel assms(4,5) _ refl]
    obtain w3 p' where run: "run (processRenewal (faultless E) job') w2 = (Inr (), w3)"
      and w3: "payments (w_db w3) = payments (w_db w2) @ [p']" "p_status p' = COMPLETED"
        "(p_userId p', p_productId p', p_amount p') = (rj_userId d, rj_planId d, renewal_amount (rj_plan d))"
        "subscriptions (w_db w3) = with_key s_subscriptionId (rj_subscriptionId d)
          (renew_row (calculateNewEndDate (tz E) (s_endDate s) (rj_plan d)) (sql_now (db_clock E (w_tick w2 + 21))))
          (subscriptions (w_db w2))"
      by auto
    have "run (processRenewal E job') w2 = (Inr (), w3)"
      by (rule run_spared [OF spared_processRenewal run order_refl]) (use assms(1) w1(4) w2(2) in simp)
    with w3 w1 w2(1) show ?thesis by (intro exI [of _ w3] exI [of _ p']) (simp add: charge_of_def renewal_charge_def)
  qed
  show ?thesis using first w1 second by (intro exI [of _ w1] exI [of _ p]) simp
qed

definition flaky :: env where
  "flaky = calm\<lparr>uuid := (\<lambda>n. pad 8 (int n)), fault := (\<lambda>n. if n = 21 then NotApplied ''gone'' else NoFault)\<rparr>"

lemma flaky_simps [simp]:
  "clock flaky n = 0" "db_clock flaky n = 0" "uuid flaky n = pad 8 (int n)" "tz flaky = 0"
  "fault flaky n = (if n = 21 then NotApplied ''gone'' else NoFault)" "redis_reply flaky = ttl_reply (\<lambda>_. 0)"
  by (simp_all add: flaky_def)

lemma flaky_numbers [simp]:
  "pad 8 7 = ''00000007''" "pad 8 17 = ''00000017''" "pad 8 23 = ''00000023''" "pad 8 29 = ''00000029''"
  "pad 8 39 = ''00000039''" "pad 8 45 = ''00000045''"
  "order_number 0 (pad 8 2) = ''ORD-0-00000002''" "order_number 0 (pad 8 24) = ''ORD-0-00000024''"
  by code_simp+

lemma renewal_charged_twice_witness:
  "\<exists>w1 w2 w3 p p'. run (processRenewal flaky (sample_job 0)) (with_subscription ACTIVE True) = (Inl (Unavailable ''gone''), w1) \<and>
    w_db w2 = w_db w1 \<and> run (processRenewal flaky (sample_job 0)) w2 = (Inr (), w3) \<and>
    payments (w_db w3) = [p, p'] \<and> charge_of p = charge_of p'"
proof -
  let ?w = "with_subscription ACTIVE True" and ?d = "job_data (sample_job 0)"
  note ready_defs = renewable_def sample_job_def live_order_def ttl_reply_def can_insert_def order_in_def
    renewal_request_def currency_of_def decimal_ok_def payment_select_def renewal_amount_def won_def
    can_renew_def can_charge_def can_publish_def events_of_def
  have fault: "\<And>n. fault flaky n = (if n = w_tick ?w + 21 then NotApplied ''gone'' else NoFault)" by simp
  have sel: "subscription_select (rj_subscriptionId ?d) (w_db ?w) = Some (sample_subscription ACTIVE True)"
    by (simp add: sample_job_def)
  have act: "s_status (sample_subscription ACTIVE True) = ACTIVE" "s_autoRenew (sample_subscription ACTIVE True)"
    by simp_all
  have last: "\<not> last_attempt (sample_job 0)" by (simp add: last_attempt_def sample_job_def)
  have ren: "renewable flaky (sample_job 0) ?w"
    by (simp add: ready_defs booted_handlers)
  from processRenewal_unextended [OF fault refl sel act ren last refl]
  obtain w1 p r1 r2 where w1: "run (processRenewal flaky (sample_job 0)) ?w = (Inl (Unavailable ''gone''), w1)"
    "payments (w_db w1) = [p]" "p_orderNumber p = ''ORD-0-00000002''" "event_store (w_db w1) = [r1, r2]"
    "map (\<lambda>r. (se_eventType r, se_aggregateId r, se_eventId r)) [r1, r2] =
      [(''PAYMENT_CREATED'', ''ORD-0-00000002'', pad 8 7), (''PAYMENT_COMPLETED'', ''ORD-0-00000002'', pad 8 17)]"
    "w_tick w1 = 22"
    by (auto simp: order_in_def)
  define w2 where "w2 = ?w\<lparr>w_db := w_db w1, w_tick := 22\<rparr>"
  have w2: "w_tick w2 = 22" "w_redis w2 = []" "w_db w2 = w_db w1" "handlers_of ty w2 = handlers_of ty booted" for ty
    by (simp_all add: w2_def handlers_of_def with_subscription_def)
  have "renewable flaky (sample_job 0) w2"
    using w1 w2 by (simp add: ready_defs booted_handlers latest_version_def)
  moreover obtain w1' q where "run (processRenewal flaky (sample_job 0)) ?w = (Inl (Unavailable ''gone''), w1')"
    and q: "charge_of q = renewal_charge ?d" and again: "\<And>job' w2. job_data job' = ?d \<Longrightarrow> w_db w2 = w_db w1' \<Longrightarrow>
      w_tick w1' \<le> w_tick w2 \<Longrightarrow> renewable flaky job' w2 \<Longrightarrow>
      \<exists>w3 p'. run (processRenewal flaky job') w2 = (Inr (), w3) \<and>
        payments (w_db w3) = payments (w_db ?w) @ [q, p'] \<and> charge_of p' = renewal_charge ?d"
    using renewal_charged_twice [OF fault refl sel act ren last] by (elim exE conjE) (rule that, assumption+, blast)
  moreover from this(1) w1(1) have "w1' = w1" by simp
  ultimately obtain w3 p' where "run (processRenewal flaky (sample_job 0)) w2 = (Inr (), w3)"
    "payments (w_db w3) = [q, p']" "charge_of q = charge_of p'"
    using w1(6) w2(1,3) by fastforce
  with w1(1) w2(3) show ?thesis by (intro exI conjI)
qed

end
