(* ===== verification/Renewals.thy ===== *)
theory Renewals
  imports Faults Invariants
begin

text \<open>
  The renewal of a whole batch: what the scan puts into the queue is worked off job by job. Each job
  leaves the next ones as they were found, because it touches only its own subscription, its own
  idempotency key, and ids that are new; so all of them go through. And what becomes of a job that
  failed after its charge: BullMQ's further attempts at it.
\<close>

section \<open>Ids that are new\<close>

text \<open>The order number of a payment whose creation starts at tick \<open>t\<close>.\<close>

definition number_at :: "env \<Rightarrow> nat \<Rightarrow> string" where
  "number_at E t = order_number (clock E t) (uuid E (t + 1))"

lemma order_in_number_at: "order_in E w = number_at E (w_tick w)"
  by (simp add: order_in_def number_at_def)

definition event_ids :: "database \<Rightarrow> string set" where
  "event_ids db = se_eventId ` set (event_store db)"

definition aggregate_ids :: "database \<Rightarrow> string set" where
  "aggregate_ids db = p_orderNumber ` set (payments db) \<union> se_aggregateId ` set (event_store db) \<union>
     s_subscriptionId ` set (subscriptions db)"

text \<open>All ids generated from tick \<open>m\<close> up to \<open>N\<close> fit their columns, differ, and are not yet in use.\<close>

definition unused_ids :: "env \<Rightarrow> nat \<Rightarrow> nat \<Rightarrow> database \<Rightarrow> bool" where
  "unused_ids E m N db \<longleftrightarrow> inj_on (uuid E) {m..<N} \<and> inj_on (number_at E) {m..<N} \<and>
     (\<forall>t \<in> {m..<N}. length (uuid E t) \<le> 36 \<and> length (number_at E t) \<le> 64 \<and> length (show_int (clock E t)) \<le> 100 \<and>
       uuid E t \<notin> event_ids db \<and> number_at E t \<notin> aggregate_ids db)"

lemma unused_at:
  assumes "unused_ids E m N db" "m \<le> t" "t < N"
  shows "length (uuid E t) \<le> 36" "length (number_at E t) \<le> 64" "length (show_int (clock E t)) \<le> 100"
    "uuid E t \<notin> event_ids db" "number_at E t \<notin> aggregate_ids db"
  using assms unfolding unused_ids_def by auto

lemma unused_uuids: "unused_ids E m N db \<Longrightarrow> m \<le> s \<Longrightarrow> s < t \<Longrightarrow> t < N \<Longrightarrow> uuid E s \<noteq> uuid E t"
  unfolding unused_ids_def inj_on_def by (metis atLeastLessThan_iff nat_less_le less_trans order_trans)

text \<open>After a renewal that used the ids of some of the ticks before \<open>m'\<close>, the later ones are still new.\<close>

lemma unused_later:
  assumes "unused_ids E m N db" "m \<le> m'"
    and "event_ids db' \<subseteq> event_ids db \<union> uuid E ` {m..<m'}" "aggregate_ids db' \<subseteq> aggregate_ids db \<union> number_at E ` {m..<m'}"
  shows "unused_ids E m' N db'"
proof -
  have inj: "inj_on (uuid E) {m..<N}" "inj_on (number_at E) {m..<N}" using assms(1) unfolding unused_ids_def by blast+
  have new: "f t \<notin> f ` {m..<m'}" if "inj_on f {m..<N}" "t \<in> {m'..<N}" for f :: "nat \<Rightarrow> string" and t
  proof
    assume "f t \<in> f ` {m..<m'}"
    then obtain x where "f t = f x" "x \<in> {m..<m'}" by blast
    with inj_onD [OF that(1), of t x] that(2) assms(2) show False by auto
  qed
  have sub: "{m'..<N} \<subseteq> {m..<N}" using assms(2) by auto
  show ?thesis
    unfolding unused_ids_def
  proof (intro conjI ballI)
    show "inj_on (uuid E) {m'..<N}" "inj_on (number_at E) {m'..<N}"
      using inj_on_subset [OF inj(1) sub] inj_on_subset [OF inj(2) sub] .
    fix t
    assume t: "t \<in> {m'..<N}"
    then have "m \<le> t" "t < N" using assms(2) by simp_all
    note at = unused_at [OF assms(1) this]
    show "length (uuid E t) \<le> 36" "length (number_at E t) \<le> 64" "length (show_int (clock E t)) \<le> 100" by (rule at)+
    from at(4) new [OF inj(1) t] assms(3) show "uuid E t \<notin> event_ids db'" by blast
    from at(5) new [OF inj(2) t] assms(4) show "number_at E t \<notin> aggregate_ids db'" by blast
  qed
qed

section \<open>One job of the batch\<close>

definition renewal_data :: "subscription \<Rightarrow> renewal_job_data" where
  "renewal_data s = \<lparr>rj_subscriptionId = s_subscriptionId s, rj_userId = s_userId s,
     rj_planId = s_planId s, rj_plan = plan_str (s_plan s)\<rparr>"

text \<open>BullMQ hands the processor the name, the data and the attempts a job was added with.\<close>

definition handed :: "job_call \<Rightarrow> job \<Rightarrow> bool" where
  "handed c job \<longleftrightarrow> job_name job = jc_name c \<and> RenewalJob (job_data job) = jc_data c \<and>
     job_attempts job = jo_attempts (jc_options c) \<and> job_attemptsMade job = 0"

text \<open>The columns a renewal writes can hold its values.\<close>

definition renewal_fits :: "subscription \<Rightarrow> database \<Rightarrow> bool" where
  "renewal_fits s db \<longleftrightarrow> length (s_userId s) \<le> 64 \<and> length (s_planId s) \<le> 64 \<and> length (s_subscriptionId s) \<le> 128 \<and>
     - 1 \<le> latest_version (s_subscriptionId s) db \<and> latest_version (s_subscriptionId s) db < 2 ^ 31 - 1"

definition renewal_key :: "subscription \<Rightarrow> string" where
  "renewal_key s = idempotency_key (s_userId s) (s_planId s)"

text \<open>A subscription to renew, whose plan was not charged within the hour before any tick up to \<open>N\<close>.\<close>

definition awaits :: "env \<Rightarrow> nat \<Rightarrow> world \<Rightarrow> subscription \<Rightarrow> bool" where
  "awaits E N w s \<longleftrightarrow> subscription_select (s_subscriptionId s) (w_db w) = Some s \<and>
     s_status s = ACTIVE \<and> s_autoRenew s \<and> renewal_fits s (w_db w) \<and>
     (\<forall>n \<in> {w_tick w..<N}. redis_reply E (w_redis w) n (renewal_key s) = None)"

definition renewed_end :: "env \<Rightarrow> subscription \<Rightarrow> date" where
  "renewed_end E s = sql_datetime (calculateNewEndDate (tz E) (s_endDate s) (plan_str (s_plan s)))"

lemma renewal_request_data:
  "key_of (renewal_request (renewal_data s)) = renewal_key s"
  "cp_userId (renewal_request (renewal_data s)) = s_userId s"
  "cp_productId (renewal_request (renewal_data s)) = s_planId s"
  "currency_of (renewal_request (renewal_data s)) = ''KRW''"
  "decimal_ok 12 (cp_amount (renewal_request (renewal_data s)))"
  by (simp_all add: key_of_def renewal_key_def renewal_request_def renewal_data_def currency_of_def
      renewal_amount_def won_def decimal_ok_def)

text \<open>What a renewal makes of the world: one payment, one end date, three events, one key, 26 ticks.\<close>

definition renewed :: "env \<Rightarrow> subscription \<Rightarrow> world \<Rightarrow> world \<Rightarrow> payment \<Rightarrow> stored_event list \<Rightarrow> date \<Rightarrow> bool" where
  "renewed E s w w' p rs now \<longleftrightarrow>
    payments (w_db w') = payments (w_db w) @ [p] \<and> charge_of p = renewal_charge (renewal_data s) \<and>
    p_orderNumber p = number_at E (w_tick w + 1) \<and>
    subscriptions (w_db w') = with_key s_subscriptionId (s_subscriptionId s)
      (renew_row (calculateNewEndDate (tz E) (s_endDate s) (plan_str (s_plan s))) now) (subscriptions (w_db w)) \<and>
    event_store (w_db w') = event_store (w_db w) @ rs \<and>
    map se_aggregateId rs = [number_at E (w_tick w + 1), number_at E (w_tick w + 1), s_subscriptionId s] \<and>
    map se_eventId rs = map (uuid E) [w_tick w + 7, w_tick w + 17, w_tick w + 23] \<and>
    w_redis w' = w_redis w @ [RSet (w_tick w + 5) (renewal_key s) (number_at E (w_tick w + 1)) (Some 3600)] \<and>
    w_handlers w' = w_handlers w \<and> w_tick w' = w_tick w + 26"

lemma renewal_step:
  assumes "reliable E" "w_handlers w = w_handlers booted" "awaits E N w s"
    and "unused_ids E (w_tick w) N (w_db w)" "w_tick w + 26 \<le> N"
    and "job_name job = ''renew''" "job_data job = renewal_data s"
  shows "\<exists>w' p rs now. run (processRenewal E job) w = (Inr (), w') \<and> renewed E s w w' p rs now"
proof -
  let ?d = "renewal_data s" and ?on = "number_at E (w_tick w + 1)"
  note fresh = unused_at [OF assms(4)]
  have s: "subscription_select (s_subscriptionId s) (w_db w) = Some s" "s_status s = ACTIVE" "s_autoRenew s"
    "renewal_fits s (w_db w)" using assms(3) unfolding awaits_def by blast+
  have on: "?on \<notin> aggregate_ids (w_db w)" "length ?on \<le> 64" by (rule fresh; use assms(5) in simp)+
  then have free: "payment_select ?on (w_db w) = None" "events_of ?on (w_db w) = []"
    by (auto simp: aggregate_ids_def payment_select_def find_row_None events_of_def filter_empty_conv image_iff)
  have sid: "s_subscriptionId s \<in> s_subscriptionId ` set (subscriptions (w_db w))"
    using s(1) by (auto simp: subscription_select_def dest: find_row_Some)
  with on have other: "s_subscriptionId s \<noteq> ?on" by (auto simp: aggregate_ids_def)
  have live: "live_order E (renewal_request ?d) (tick w) = None"
    using assms(3,5) by (simp add: awaits_def live_order_def renewal_request_data)
  have insert: "can_insert ?on (renewal_request ?d) (w_db (tick w))"
    using s(4) free on by (simp add: can_insert_def renewal_request_data renewal_fits_def)
  have u: "uuid E (w_tick w + 7) \<noteq> uuid E (w_tick w + 17)" "uuid E (w_tick w + 7) \<noteq> uuid E (w_tick w + 23)"
    "uuid E (w_tick w + 17) \<noteq> uuid E (w_tick w + 23)" by (rule unused_uuids [OF assms(4)]; use assms(5) in simp)+
  have charge: "can_charge E (order_in E (tick w)) (tick w)"
    using u(1) fresh(1,4) [of "w_tick w + 7"] fresh(1,4) [of "w_tick w + 17"] fresh(3) [of "w_tick w + 11"] assms(5) free
    by (simp add: can_charge_def order_in_number_at event_ids_def eval_nat_numeral)
  have renew: "can_renew E (rj_subscriptionId ?d) (tick w)"
    using charge u(2,3) fresh(1,4) [of "w_tick w + 23"] assms(5) s(4) other
    by (simp add: can_renew_def can_publish_def renewal_data_def renewal_fits_def order_in_number_at event_ids_def
        eval_nat_numeral)
  have handlers: "handlers_of PAYMENT_CREATED (tick w) = []" "handlers_of PAYMENT_COMPLETED (tick w) = [OnPaymentCompleted]"
    "handlers_of SUBSCRIPTION_RENEWED (tick w) = []"
    using booted_handlers assms(2) by (simp_all add: handlers_of_def)
  have on': "?on = order_in E (tick w)" by (simp add: order_in_number_at)
  from renew_body_run [OF assms(1) live on' insert renew handlers(1,2), of s] handlers(3)
  obtain w' p rs where run: "run (renew_body E ?d s) (tick w) = (Inr (), w')"
    and w': "payments (w_db w') = payments (w_db w) @ [p]" "p_status p = COMPLETED"
      "(p_orderNumber p, p_userId p, p_productId p, p_amount p) = (?on, rj_userId ?d, rj_planId ?d, renewal_amount (rj_plan ?d))"
      "subscriptions (w_db w') = with_key s_subscriptionId (rj_subscriptionId ?d)
        (renew_row (calculateNewEndDate (tz E) (s_endDate s) (rj_plan ?d)) (sql_now (db_clock E (w_tick w + 21))))
        (subscriptions (w_db w))" "event_store (w_db w') = event_store (w_db w) @ rs"
      "map (\<lambda>r. (se_eventType r, se_aggregateId r)) rs = [(''PAYMENT_CREATED'', ?on), (''PAYMENT_COMPLETED'', ?on),
        (''SUBSCRIPTION_RENEWED'', rj_subscriptionId ?d)]"
      "map se_eventId rs = map (uuid E) [w_tick w + 7, w_tick w + 17, w_tick w + 23]"
      "w_redis w' = w_redis w @ [RSet (w_tick w + 5) (key_of (renewal_request ?d)) ?on (Some 3600)]"
      "w_handlers w' = w_handlers w" "w_tick w' = w_tick w + 26"
    by (auto simp: eval_nat_numeral)
  have sel: "subscription_select (rj_subscriptionId (job_data job)) (w_db w) = Some s"
    using s(1) assms(7) by (simp add: renewal_data_def)
  have "run (processRenewal E job) w = (Inr (), w')"
    using run by (simp add: run_processRenewal_active [OF assms(1) _ sel s(2,3)] assms(6,7) run_catch)
  moreover have "map se_aggregateId rs = map snd (map (\<lambda>r. (se_eventType r, se_aggregateId r)) rs)" by simp
  then have "map se_aggregateId rs = [?on, ?on, s_subscriptionId s]" unfolding w'(6) by (simp add: renewal_data_def)
  ultimately show ?thesis using w'(1-5,7-) unfolding renewed_def
    by (intro exI [of _ w'] exI [of _ p] exI [of _ rs] exI [of _ "sql_now (db_clock E (w_tick w + 21))"])
      (simp add: charge_of_def renewal_charge_def renewal_data_def renewal_request_data [unfolded renewal_data_def])
qed

text \<open>It leaves every other subscription of the batch as it was found.\<close>

lemma redis_reply_other:
  assumes "redis_ok E" "redis_key c \<noteq> key"
  shows "redis_reply E (calls @ [c]) n key = redis_reply E calls n key"
proof (cases "\<exists>d \<in> set calls. redis_key d = key")
  case False
  with assms(2) have "key \<notin> redis_key ` set calls" "key \<notin> redis_key ` set (calls @ [c])" by auto
  with assms(1) show ?thesis unfolding redis_ok_def by metis
next
  case True
  from split_list_last_prop [OF this] obtain before d later where
    calls: "calls = before @ d # later" and d: "redis_key d = key" and "\<forall>z \<in> set later. redis_key z \<noteq> key" by blast
  then have no: "key \<notin> redis_key ` set later" by auto
  from no assms(2) have no': "key \<notin> redis_key ` set (later @ [c])" by auto
  show ?thesis
  proof (cases d)
    case (RSet m k v ttl)
    with d no no' assms(1) show ?thesis unfolding calls redis_ok_def by (cases ttl) simp_all
  next
    case (RDel m k)
    with d no no' assms(1) show ?thesis unfolding calls redis_ok_def by simp
  qed
qed

lemma awaits_other:
  assumes "redis_ok E" "awaits E N w s" "redis_key c \<noteq> renewal_key s" "w_redis w' = w_redis w @ [c]" "w_tick w \<le> w_tick w'"
    and "subscriptions (w_db w') = with_key s_subscriptionId sid (renew_row newEnd now) (subscriptions (w_db w))"
    and "s_subscriptionId s \<noteq> sid" "event_store (w_db w') = event_store (w_db w) @ rs"
    and "s_subscriptionId s \<notin> se_aggregateId ` set rs"
  shows "awaits E N w' s"
proof -
  have "subscription_select (s_subscriptionId s) (w_db w') = subscription_select (s_subscriptionId s) (w_db w)"
    using assms(6,7) by (simp add: subscription_select_def find_row_with_key renew_row_def)
  moreover have "filter (\<lambda>r. se_aggregateId r = s_subscriptionId s) rs = []" using assms(9) by (auto simp: filter_empty_conv image_iff)
  then have "events_of (s_subscriptionId s) (w_db w') = events_of (s_subscriptionId s) (w_db w)"
    using assms(8) by (simp add: events_of_def)
  then have "latest_version (s_subscriptionId s) (w_db w') = latest_version (s_subscriptionId s) (w_db w)"
    by (simp add: latest_version_def)
  ultimately show ?thesis
    using assms(2,4,5) redis_reply_other [OF assms(1,3)] unfolding awaits_def renewal_fits_def by auto
qed

section \<open>The jobs of a batch, one after another\<close>

fun work_off :: "env \<Rightarrow> job list \<Rightarrow> world \<Rightarrow> (js_error + unit) list \<times> world" where
  "work_off E [] w = ([], w)"
| "work_off E (job # jobs) w =
     (case run (processRenewal E job) w of (r, w1) \<Rightarrow> (case work_off E jobs w1 of (rs, w2) \<Rightarrow> (r # rs, w2)))"

text \<open>A row apart from the time of its last update, and the row with its end date moved.\<close>

definition standing :: "subscription \<Rightarrow> subscription" where
  "standing s = s\<lparr>s_updatedAt := 0\<rparr>"

definition extended :: "env \<Rightarrow> string set \<Rightarrow> subscription \<Rightarrow> subscription" where
  "extended E ids s = (if s_subscriptionId s \<in> ids then s\<lparr>s_endDate := renewed_end E s, s_status := ACTIVE\<rparr> else s)"

lemma renew_row_standing:
  "standing (renew_row newEnd now r) = standing (r\<lparr>s_endDate := sql_datetime newEnd, s_status := ACTIVE\<rparr>)"
  by (simp add: standing_def renew_row_def)

lemma extended_step:
  assumes "distinct (map s_subscriptionId rows)" "s \<in> set rows" "s_subscriptionId s \<notin> ids"
  shows "map (standing \<circ> extended E ids) (with_key s_subscriptionId (s_subscriptionId s)
      (renew_row (calculateNewEndDate (tz E) (s_endDate s) (plan_str (s_plan s))) now) rows) =
    map (standing \<circ> extended E (insert (s_subscriptionId s) ids)) rows"
  unfolding with_key_def map_map
proof (rule map_cong [OF refl])
  fix r
  assume r: "r \<in> set rows"
  show "((standing \<circ> extended E ids) \<circ> (\<lambda>r. if s_subscriptionId r = s_subscriptionId s
      then renew_row (calculateNewEndDate (tz E) (s_endDate s) (plan_str (s_plan s))) now r else r)) r =
    (standing \<circ> extended E (insert (s_subscriptionId s) ids)) r"
  proof (cases "s_subscriptionId r = s_subscriptionId s")
    case True
    with assms(1,2) r have "r = s" by (auto simp: distinct_map dest: inj_onD)
    with assms(3) show ?thesis by (simp add: extended_def renewed_end_def standing_def renew_row_def)
  next
    case False
    then show ?thesis by (simp add: extended_def)
  qed
qed

lemma renewed_unused:
  assumes "renewed E s w w' p rs now" "unused_ids E (w_tick w) N (w_db w)" "s \<in> set (subscriptions (w_db w))"
  shows "unused_ids E (w_tick w') N (w_db w')"
proof (rule unused_later [OF assms(2)])
  let ?on = "number_at E (w_tick w + 1)" and ?sid = "s_subscriptionId s"
  note w' = assms(1) [unfolded renewed_def]
  have rs: "se_aggregateId ` set rs = set [?on, ?on, ?sid]"
    "se_eventId ` set rs = set (map (uuid E) [w_tick w + 7, w_tick w + 17, w_tick w + 23])"
    using w' by (metis set_map)+
  have "map s_subscriptionId (subscriptions (w_db w')) = map s_subscriptionId (subscriptions (w_db w))"
    using w' by (simp add: with_key_def renew_row_def)
  then have "s_subscriptionId ` set (subscriptions (w_db w')) = s_subscriptionId ` set (subscriptions (w_db w))"
    by (metis set_map)
  then have "event_ids (w_db w') = event_ids (w_db w) \<union> set (map (uuid E) [w_tick w + 7, w_tick w + 17, w_tick w + 23])"
    "aggregate_ids (w_db w') = aggregate_ids (w_db w) \<union> {?on, ?sid}"
    using w' by (auto simp: event_ids_def aggregate_ids_def image_Un rs)
  moreover have "?sid \<in> aggregate_ids (w_db w)" using assms(3) by (simp add: aggregate_ids_def)
  ultimately show "event_ids (w_db w') \<subseteq> event_ids (w_db w) \<union> uuid E ` {w_tick w..<w_tick w'}"
    "aggregate_ids (w_db w') \<subseteq> aggregate_ids (w_db w) \<union> number_at E ` {w_tick w..<w_tick w'}"
    using w' by auto
qed (use assms(1) in \<open>simp add: renewed_def\<close>)

lemma renewed_awaits:
  assumes "renewed E s w w' p rs now" "redis_ok E" "awaits E N w s'" "unused_ids E (w_tick w) N (w_db w)" "w_tick w + 26 \<le> N"
    and "s_subscriptionId s' \<noteq> s_subscriptionId s" "renewal_key s' \<noteq> renewal_key s"
  shows "awaits E N w' s'"
proof (rule awaits_other [OF assms(2,3)])
  let ?on = "number_at E (w_tick w + 1)"
  note w' = assms(1) [unfolded renewed_def]
  show "w_redis w' = w_redis w @ [RSet (w_tick w + 5) (renewal_key s) ?on (Some 3600)]" "w_tick w \<le> w_tick w'"
    "subscriptions (w_db w') = with_key s_subscriptionId (s_subscriptionId s)
      (renew_row (calculateNewEndDate (tz E) (s_endDate s) (plan_str (s_plan s))) now) (subscriptions (w_db w))"
    "event_store (w_db w') = event_store (w_db w) @ rs" using w' by simp_all
  show "redis_key (RSet (w_tick w + 5) (renewal_key s) ?on (Some 3600)) \<noteq> renewal_key s'" using assms(7) by simp
  have "s' \<in> set (subscriptions (w_db w))"
    using assms(3) by (auto simp: awaits_def subscription_select_def dest: find_row_Some)
  moreover have "?on \<notin> aggregate_ids (w_db w)" by (rule unused_at [OF assms(4)]; use assms(5) in simp)
  ultimately have "s_subscriptionId s' \<noteq> ?on" by (auto simp: aggregate_ids_def image_iff)
  moreover have "se_aggregateId ` set rs = set [?on, ?on, s_subscriptionId s]" using w' by (metis set_map)
  ultimately show "s_subscriptionId s' \<notin> se_aggregateId ` set rs" using assms(6) by simp
qed (rule assms(6))

lemma batch_renewed:
  assumes "reliable E" "redis_ok E"
  shows "w_handlers w = w_handlers booted \<Longrightarrow> distinct (map s_subscriptionId (subscriptions (w_db w))) \<Longrightarrow>
    \<forall>s \<in> set ss. awaits E N w s \<Longrightarrow> unused_ids E (w_tick w) N (w_db w) \<Longrightarrow> w_tick w + 26 * length ss \<le> N \<Longrightarrow>
    distinct (map s_subscriptionId ss) \<Longrightarrow> distinct (map renewal_key ss) \<Longrightarrow>
    list_all2 (\<lambda>s job. job_name job = ''renew'' \<and> job_data job = renewal_data s) ss jobs \<Longrightarrow>
    \<exists>w' ps. work_off E jobs w = (replicate (length ss) (Inr ()), w') \<and>
      payments (w_db w') = payments (w_db w) @ ps \<and> map charge_of ps = map (renewal_charge \<circ> renewal_data) ss \<and>
      map standing (subscriptions (w_db w')) =
        map (standing \<circ> extended E (s_subscriptionId ` set ss)) (subscriptions (w_db w))"
proof (induction ss arbitrary: w jobs)
  case Nil
  have "standing \<circ> extended E {} = standing" by (simp add: fun_eq_iff extended_def)
  with Nil show ?case by simp
next
  case (Cons s ss)
  from Cons.prems(8) obtain job jobs' where jobs: "jobs = job # jobs'" "job_name job = ''renew''" "job_data job = renewal_data s"
    "list_all2 (\<lambda>s job. job_name job = ''renew'' \<and> job_data job = renewal_data s) ss jobs'"
    by (auto simp: list_all2_Cons1)
  have s: "awaits E N w s" and steps: "w_tick w + 26 \<le> N" using Cons.prems(3,5) by simp_all
  from renewal_step [OF assms(1) Cons.prems(1) s Cons.prems(4) steps jobs(2,3)] obtain w1 p rs now where
    run: "run (processRenewal E job) w = (Inr (), w1)" and r: "renewed E s w w1 p rs now" by blast
  note w1 = r [unfolded renewed_def]
  have row: "s \<in> set (subscriptions (w_db w))"
    using s by (auto simp: awaits_def subscription_select_def dest: find_row_Some)
  have ids: "map s_subscriptionId (subscriptions (w_db w1)) = map s_subscriptionId (subscriptions (w_db w))"
    using w1 by (simp add: with_key_def renew_row_def)
  have "awaits E N w1 s'" if "s' \<in> set ss" for s'
    using Cons.prems(3,6,7) that by (intro renewed_awaits [OF r assms(2) _ Cons.prems(4) steps]) (auto simp: image_iff)
  then have "\<forall>s \<in> set ss. awaits E N w1 s" ..
  from Cons.IH [OF _ _ this renewed_unused [OF r Cons.prems(4) row] _ _ _ jobs(4)] Cons.prems(1,2,5-7) ids w1 obtain w' ps where
    w': "work_off E jobs' w1 = (replicate (length ss) (Inr ()), w')" "payments (w_db w') = payments (w_db w1) @ ps"
      "map charge_of ps = map (renewal_charge \<circ> renewal_data) ss"
      "map standing (subscriptions (w_db w')) = map (standing \<circ> extended E (s_subscriptionId ` set ss)) (subscriptions (w_db w1))"
    by auto
  have "s_subscriptionId s \<notin> s_subscriptionId ` set ss" using Cons.prems(6) by simp
  from extended_step [OF Cons.prems(2) row this] w'(4) w1 have
    "map standing (subscriptions (w_db w')) = map (standing \<circ> extended E (s_subscriptionId ` set (s # ss))) (subscriptions (w_db w))"
    by simp
  moreover have "work_off E jobs w = (replicate (length (s # ss)) (Inr ()), w')" by (simp add: jobs(1) run w'(1))
  ultimately show ?case using w'(2,3) w1
    by (intro exI [of _ w'] exI [of _ "p # ps"]) simp
qed

lemma batch_distinct:
  assumes "reliable E" "reads_all E" "distinct (map s_subscriptionId (subscriptions (w_db w)))"
  shows "distinct (map s_subscriptionId (expired_batch E w))"
proof -
  let ?rows = "subscription_order E (w_tick w) (subscriptions (w_db w))"
  have "mset (map s_subscriptionId ?rows) = mset (map s_subscriptionId (subscriptions (w_db w)))"
    using assms(2) by (simp add: reads_all_def)
  then have "distinct (map s_subscriptionId ?rows)" using assms(3) mset_eq_imp_distinct_iff by blast
  then have "distinct (map s_subscriptionId (filter P ?rows))" for P by (rule distinct_map_filter)
  moreover have "mset (map s_subscriptionId (sort_key s_endDate xs)) = mset (map s_subscriptionId xs)" for xs by simp
  ultimately have "distinct (map s_subscriptionId (sort_key s_endDate (filter P ?rows)))" for P
    using mset_eq_imp_distinct_iff by blast
  then show ?thesis unfolding expired_batch_eq [OF assms(1)] by (simp add: take_map [symmetric])
qed

lemma batch_rows:
  assumes "reliable E" "reads_all E" "s \<in> set (expired_batch E w)"
  shows "s \<in> set (subscriptions (w_db w))" "s_status s = ACTIVE" "s_autoRenew s"
proof -
  have "oldest_due 50 (sql_now (db_clock E (w_tick w))) (subscriptions (w_db w)) (expired_batch E w)"
    unfolding expired_batch_eq [OF assms(1)] using assms(2) by (intro oldest_due_take) (simp add: reads_all_def)
  from oldest_due_rows [OF this] assms(3)
  show "s \<in> set (subscriptions (w_db w))" "s_status s = ACTIVE" "s_autoRenew s" by auto
qed

text \<open>The price and the period of a plan, spelled out.\<close>

lemma renewal_terms:
  "renewal_charge (renewal_data s) = (s_userId s, s_planId s, (if s_plan s = ANNUAL then 99000 else 9900) * 100, COMPLETED)"
  "renewed_end E s = sql_datetime (s_endDate s + period_days (tz E) (s_endDate s)
     (if s_plan s = ANNUAL then ''ANNUAL'' else ''MONTHLY'') * 86400000)"
  by (cases "s_plan s"; simp add: renewal_charge_def renewal_data_def renewal_amount_def won_def)
    (cases "s_plan s"; simp add: renewed_end_def new_end_days ms_per_day_def)

text \<open>
  C13: A scan and the jobs it enqueues renew the whole batch, if the jobs are worked off one after
  another. (The worker takes up to five at once; jobs that overlap are not covered here.) Suppose that
  no call fails, Redis answers as documented, the generated ids are new, no two subscriptions of the
  batch have the same user and plan id (two such rows share an idempotency key, and the second job would
  be refused), none of these pairs was charged within the hour, and the rows fit the columns.
  Then every job of the scan goes through: for each subscription of the batch one COMPLETED payment
  of its user and plan id is added, in the order of the batch, of 99,000 won if its plan is ANNUAL and
  9,900 won if it is MONTHLY (in hundredths); its end date moves on from the old one by the days of a
  year or a month (as C38 counts them); and nothing else changes in any subscription but the time of
  its last update.
\<close>

theorem scanned_batch_is_renewed:
  assumes "reliable E" "redis_ok E" "reads_all E" "world_inv w" "w_handlers w = w_handlers booted"
    and "run (scanAndEnqueueExpired E) w = (Inr (), w1)" "w_jobs w1 = w_jobs w @ cs" "list_all2 handed cs jobs"
    and "distinct (map renewal_key (expired_batch E w))" "w_tick w1 + 26 * length (expired_batch E w) \<le> N"
    and "\<forall>s \<in> set (expired_batch E w). renewal_fits s (w_db w) \<and>
      (\<forall>n \<in> {w_tick w1..<N}. redis_reply E (w_redis w) n (renewal_key s) = None)"
    and "unused_ids E (w_tick w1) N (w_db w)" "renewed_ids = s_subscriptionId ` set (expired_batch E w)"
  shows "\<exists>w2 ps. work_off E jobs w1 = (replicate (length (expired_batch E w)) (Inr ()), w2) \<and>
    payments (w_db w2) = payments (w_db w) @ ps \<and>
    map (\<lambda>p. (p_userId p, p_productId p, p_amount p, p_status p)) ps =
      map (\<lambda>s. (s_userId s, s_planId s, (if s_plan s = ANNUAL then 99000 else 9900) * 100, COMPLETED)) (expired_batch E w) \<and>
    map (\<lambda>s. s\<lparr>s_updatedAt := 0\<rparr>) (subscriptions (w_db w2)) = map (\<lambda>s. (if s_subscriptionId s \<in> renewed_ids
      then s\<lparr>s_endDate := sql_datetime (s_endDate s + period_days (tz E) (s_endDate s)
               (if s_plan s = ANNUAL then ''ANNUAL'' else ''MONTHLY'') * 86400000), s_status := ACTIVE\<rparr>
      else s)\<lparr>s_updatedAt := 0\<rparr>) (subscriptions (w_db w))"
proof -
  let ?batch = "expired_batch E w"
  from scan_enqueues_batch [OF assms(1), of w] assms(6,7) have
    w1: "w_db w1 = w_db w" "w_redis w1 = w_redis w" "w_handlers w1 = w_handlers w"
    and "\<exists>q. list_all2 (renewal_call E q) ?batch cs" by auto
  then have cs: "list_all2 (\<lambda>s c. jc_data c = renewal_job s \<and> jc_name c = ''renew'') ?batch cs"
    by (auto elim!: list_all2_mono simp: renewal_call_data) (simp add: renewal_call_def)
  have ids: "distinct (map s_subscriptionId (subscriptions (w_db w1)))"
    using assms(4) w1(1) by (simp add: world_inv_def db_inv_def)
  have "\<forall>s \<in> set ?batch. awaits E N w1 s"
    using assms(11) batch_rows [OF assms(1,3)] ids find_row_unique [OF ids]
    by (auto simp: awaits_def subscription_select_def w1)
  moreover have len: "length cs = length ?batch" "length jobs = length cs"
    using cs assms(8) by (auto dest: list_all2_lengthD)
  have "job_name (jobs ! i) = ''renew'' \<and> job_data (jobs ! i) = renewal_data (?batch ! i)" if i: "i < length ?batch" for i
  proof -
    from i len assms(8) have "handed (cs ! i) (jobs ! i)" by (auto dest: list_all2_nthD)
    with list_all2_nthD [OF cs i] show ?thesis by (simp add: handed_def renewal_job_def renewal_data_def)
  qed
  then have "list_all2 (\<lambda>s job. job_name job = ''renew'' \<and> job_data job = renewal_data s) ?batch jobs"
    using len by (simp add: list_all2_conv_all_nth)
  moreover have "distinct (map s_subscriptionId ?batch)" by (rule batch_distinct [OF assms(1,3)]) (use ids w1(1) in simp)
  ultimately obtain w2 ps where "work_off E jobs w1 = (replicate (length ?batch) (Inr ()), w2)"
    "payments (w_db w2) = payments (w_db w) @ ps" "map charge_of ps = map (\<lambda>s. renewal_charge (renewal_data s)) ?batch"
    "map standing (subscriptions (w_db w2)) = map (\<lambda>s. standing (extended E renewed_ids s)) (subscriptions (w_db w))"
    using batch_renewed [OF assms(1,2), of w1 ?batch N jobs] assms(5,9,10,12,13) ids
    by (auto simp: w1 o_def)
  then show ?thesis
    by (intro exI [of _ w2] exI [of _ ps])
      (simp add: charge_of_def [abs_def] standing_def [abs_def] extended_def renewal_terms)
qed

text \<open>An environment whose ids are single characters, and two subscriptions that are due.\<close>

definition lettered :: env where
  "lettered = calm\<lparr>uuid := (\<lambda>n. [char_of n])\<rparr>"

lemma lettered_simps [simp]:
  "reliable lettered" "redis_ok lettered" "reads_all lettered" "clock lettered n = 0" "db_clock lettered n = 0"
  "tz lettered = 0" "subscription_order lettered n ss = ss" "redis_reply lettered = ttl_reply (\<lambda>_. 0)"
  "uuid lettered n = [char_of n]"
  using calm_redis_ok by (simp_all add: lettered_def reliable_def redis_ok_def reads_all_def)

definition two_due :: world where
  "two_due = booted\<lparr>w_db := empty_db\<lparr>subscriptions := [sample_subscription ACTIVE True,
     (sample_subscription ACTIVE True)\<lparr>s_id := 2, s_subscriptionId := ''S2'', s_userId := ''bob'', s_plan := ANNUAL\<rparr>]\<rparr>\<rparr>"

lemma two_due_unused: "N \<le> 255 \<Longrightarrow> unused_ids lettered m N (w_db two_due)"
proof -
  assume N: "N \<le> 255"
  have inj: "inj_on (char_of :: nat \<Rightarrow> char) {m..<Suc N}" by (rule inj_on_inverseI [where g = of_char]) (use N in simp)
  have "number_at lettered = (\<lambda>t. ''ORD-0-'' @ [char_of (t + 1)])" by (simp add: number_at_def order_number_def fun_eq_iff)
  moreover have "Suc x mod 256 = Suc x" "x mod 256 = x" if "x < N" for x using that N by simp_all
  ultimately show ?thesis using inj
    by (auto simp: unused_ids_def inj_on_def event_ids_def aggregate_ids_def two_due_def sample_subscription_def)
qed

lemma two_due_inv: "world_inv two_due"
  by (simp add: world_inv_def db_inv_def registry_ok_def two_due_def log_gapless_def rooted_def versions_of_def subscription_ok_def)
    (simp add: sample_subscription_def booted_def Projector_register_def EventBus_subscribe_def Let_def init_world_def)

lemma two_due_batch: "expired_batch lettered two_due = subscriptions (w_db two_due)"
  by (simp add: expired_batch_eq two_due_def due_for_renewal_def)

fun job_of_call :: "job_call \<Rightarrow> job" where
  "job_of_call c = \<lparr>job_id = ''J1'', job_name = jc_name c, job_data = (case jc_data c of
       RenewalJob d \<Rightarrow> d | _ \<Rightarrow> job_data (sample_job 0)), job_attemptsMade = 0, job_attempts = jo_attempts (jc_options c)\<rparr>"

lemma scanned_batch_is_renewed_witness:
  "\<exists>w1 jobs w2. run (scanAndEnqueueExpired lettered) two_due = (Inr (), w1) \<and> work_off lettered jobs w1 = ([Inr (), Inr ()], w2) \<and>
    map (\<lambda>p. (p_userId p, p_productId p, p_amount p, p_status p)) (payments (w_db w2)) =
      [(''alice'', ''gold'', 990000, COMPLETED), (''bob'', ''gold'', 9900000, COMPLETED)]"
proof -
  from scan_enqueues_batch [of lettered two_due] obtain w1 cs q where
    w1: "run (scanAndEnqueueExpired lettered) two_due = (Inr (), w1)" "w_jobs w1 = w_jobs two_due @ cs"
    and cs: "list_all2 (renewal_call lettered q) (subscriptions (w_db two_due)) cs" by (auto simp: two_due_batch)
  have "w_tick (snd (run (scanAndEnqueueExpired lettered) two_due)) = 5" by code_simp
  then have tick: "w_tick w1 = 5" by (simp add: w1(1))
  from cs have "list_all2 handed cs (map job_of_call cs)"
    by (auto simp: list.rel_map handed_def renewal_call_def two_due_def list_all2_Cons1)
  moreover have "distinct (map renewal_key (expired_batch lettered two_due))"
    unfolding two_due_batch by (simp add: two_due_def renewal_key_def idempotency_key_def sample_subscription_def)
  moreover have "\<forall>s \<in> set (expired_batch lettered two_due). renewal_fits s (w_db two_due) \<and>
      (\<forall>n \<in> {w_tick w1..<57}. redis_reply lettered (w_redis two_due) n (renewal_key s) = None)"
    unfolding two_due_batch
    by (simp add: two_due_def renewal_fits_def sample_subscription_def latest_version_def ttl_reply_def)
  moreover have two: "length (subscriptions (w_db two_due)) = 2" "payments (w_db two_due) = []"
    "w_handlers two_due = w_handlers booted"
    "map (\<lambda>s. (s_userId s, s_planId s, (if s_plan s = ANNUAL then 99000 else 9900) * 100 :: money, COMPLETED)) (subscriptions (w_db two_due)) =
      [(''alice'', ''gold'', 990000, COMPLETED), (''bob'', ''gold'', 9900000, COMPLETED)]"
    by (simp_all add: two_due_def sample_subscription_def)
  ultimately obtain w2 ps where "work_off lettered (map job_of_call cs) w1 = (replicate 2 (Inr ()), w2)"
    "payments (w_db w2) = ps" "map (\<lambda>p. (p_userId p, p_productId p, p_amount p, p_status p)) ps =
      [(''alice'', ''gold'', 990000, COMPLETED), (''bob'', ''gold'', 9900000, COMPLETED)]"
    using scanned_batch_is_renewed [of lettered two_due w1 cs "map job_of_call cs" 57, OF _ _ _ _ _ _ _ _ _ _ _ _ refl]
      w1 two_due_inv tick two_due_unused [of 57 5] unfolding two_due_batch by auto
  with w1(1) show ?thesis
    by (intro exI [of _ w1] exI [of _ "map job_of_call cs"] exI [of _ w2]) (simp add: eval_nat_numeral)
qed

end
