(* ===== verification/Retries.thy ===== *)
theory Retries
  imports Faults
begin

text \<open>
  BullMQ's attempts at a renewal job. The first one is taken in any environment: any call may fail
  once the payment is there. The later ones meet no fault, and all the same they are refused; what
  ends up in the dead letter queue is their refusal.
\<close>

section \<open>What the attempts leave alone\<close>

definition is_letter_of :: "string \<Rightarrow> job_call \<Rightarrow> bool" where
  "is_letter_of j c = (case jc_data c of DeadLetterJob dl \<Rightarrow> dl_originalJobId dl = j | _ \<Rightarrow> False)"

definition letters_of :: "string \<Rightarrow> world \<Rightarrow> job_call list" where
  "letters_of j w = filter (is_letter_of j) (w_jobs w)"

lemma letters_simps [simp]:
  "letters_of j (tick w) = letters_of j w" "letters_of j (w\<lparr>w_db := db\<rparr>) = letters_of j w"
  "letters_of j (w\<lparr>w_redis := rs\<rparr>) = letters_of j w"
  by (simp_all add: letters_of_def)

lemma keeps_letters:
  "keeps (letters_of j) (getOrCreateQueue qn)" "keeps (letters_of j) (RedisClient_get E key)"
  "keeps (letters_of j) (RedisClient_set E key v ttl)" "keeps (letters_of j) (publish E ty a aty payload)"
  "(case d of DeadLetterJob dl \<Rightarrow> False | _ \<Rightarrow> True) \<Longrightarrow> keeps (letters_of j) (queue_add E q name d opts)"
proof -
  have jobs: "keeps w_jobs p \<Longrightarrow> keeps (letters_of j) p" for p :: "'a io"
    by (erule keeps_weaken) (simp add: letters_of_def)
  show "keeps (letters_of j) (getOrCreateQueue qn)"
    unfolding keeps_def by (metis getOrCreateQueue_frame letters_of_def prod.collapse)
  show "keeps (letters_of j) (RedisClient_get E key)" "keeps (letters_of j) (RedisClient_set E key v ttl)"
    unfolding RedisClient_get_def RedisClient_set_def by (rule keeps_remote; simp add: Let_def)+
  show "keeps (letters_of j) (publish E ty a aty payload)" by (rule jobs [OF publish_keeps(2)])
  show "keeps (letters_of j) (queue_add E q name d opts)" if "case d of DeadLetterJob dl \<Rightarrow> False | _ \<Rightarrow> True"
    unfolding queue_add_def using that
    by (intro keeps_remote) (auto simp: letters_of_def is_letter_of_def tick_def split: job_data.splits)
qed

lemmas keeps_rules = keeps_seq keeps_basic keeps_new_date keeps_uuidv4 keeps_letters publish_keeps

lemma keeps_statements:
  assumes "\<And>w. h (tick w) = h w" "\<And>w db. h (w\<lparr>w_db := db\<rparr>) = h w"
  shows "keeps h (PaymentRepository_create E pd)" "keeps h (PaymentRepository_findByOrderNumber E on)"
    "keeps h (PaymentRepository_updateStatus E on st extra)" "keeps h (SubscriptionRepository_renewSubscription E sid newEnd)"
  unfolding repository_defs by (rule keeps_sql; simp add: assms)+

lemma createPayment_keeps_letters: "keeps (letters_of j) (createPayment E req)"
  unfolding createPayment_def Let_def by (auto simp: payment_job_def intro!: keeps_rules keeps_statements)

text \<open>Once the payment is created, the rest of a renewal writes no key and no letter.\<close>

definition after_creation :: "env \<Rightarrow> renewal_job_data \<Rightarrow> subscription \<Rightarrow> string \<Rightarrow> unit io" where
  "after_creation E d s on =
     seq (new_date E) (\<lambda>now.
     seq (completePayment E \<lparr>co_orderNumber = on, co_transactionId = ''TXN-RENEW-'' @ show_int now,
            co_paidAmount = renewal_amount (rj_plan d)\<rparr>) (\<lambda>_.
     let newEndDate = calculateNewEndDate (tz E) (s_endDate s) (rj_plan d) in
     seq (SubscriptionRepository_renewSubscription E (rj_subscriptionId d) newEndDate) (\<lambda>_.
     seq (publish E SUBSCRIPTION_RENEWED (rj_subscriptionId d) ''Subscription''
           (SubscriptionRenewedPayload (rj_subscriptionId d) on newEndDate)) (\<lambda>_.
     Done ()))))"

lemma renew_body_after: "renew_body E d s = seq (createPayment E (renewal_request d)) (after_creation E d s)"
  unfolding renew_body_def after_creation_def [abs_def] ..

lemma after_creation_keeps:
  "keeps w_redis (after_creation E d s on)" "keeps (letters_of j) (after_creation E d s on)"
  unfolding after_creation_def completePayment_def Let_def
  by (auto intro!: keeps_rules keeps_statements split: option.split)

lemma failed_after_creation:
  assumes "job_name job \<noteq> ''scan-expired''" "\<not> last_attempt job" "d = job_data job"
    and "run (SubscriptionRepository_findBySubscriptionId E (rj_subscriptionId d)) w = (Inr (Some s), tick w)"
    and "s_status s = ACTIVE" "s_autoRenew s"
    and "run (createPayment E (renewal_request d)) (tick w) = (Inr on, w1)"
    and "run (processRenewal E job) w = (Inl e, w2)"
  shows "w_redis w2 = w_redis w @ [RSet (w_tick w + 5) (key_of (renewal_request d)) on (Some 3600)]"
    "letters_of j w2 = letters_of j w"
proof -
  have "run (after_creation E d s on) w1 = (Inl e, w2)"
    using assms(2-8) by (auto simp: processRenewal_renew [OF assms(1)] Let_def run_seq run_catch renew_body_after
        on_renewal_error_def run_basic split: sum.splits prod.splits)
  then have "w_redis w2 = w_redis w1" "letters_of j w2 = letters_of j w1" by (auto dest: keepsD [OF after_creation_keeps(1)]
        keepsD [OF after_creation_keeps(2)])
  then show "w_redis w2 = w_redis w @ [RSet (w_tick w + 5) (key_of (renewal_request d)) on (Some 3600)]"
    "letters_of j w2 = letters_of j w"
    using createPayment_redis(2) [OF assms(7)] keepsD [OF createPayment_keeps_letters assms(7)] by (simp_all add: eval_nat_numeral)
qed

section \<open>The further attempts\<close>

text \<open>
  What may happen between the end \<open>v\<close> of an attempt and the start \<open>v'\<close> of the next: anything that writes
  neither the key of this renewal nor a dead letter of this job and leaves the subscription to be
  renewed, before the deadline.
\<close>

definition undisturbed :: "env \<Rightarrow> job \<Rightarrow> date \<Rightarrow> world \<Rightarrow> world \<Rightarrow> bool" where
  "undisturbed E job deadline v v' \<longleftrightarrow> w_tick v \<le> w_tick v' \<and> clock E (w_tick v' + 3) < deadline \<and>
     (\<exists>later. w_redis v' = w_redis v @ later \<and> key_of (renewal_request (job_data job)) \<notin> redis_key ` set later) \<and>
     letters_of (job_id job) v' = letters_of (job_id job) v \<and>
     (\<exists>s. subscription_select (rj_subscriptionId (job_data job)) (w_db v') = Some s \<and> s_status s = ACTIVE \<and> s_autoRenew s)"

lemma redis_ok_faultless: "redis_ok E \<Longrightarrow> redis_ok (faultless E)"
  by (simp add: redis_ok_def)

text \<open>An attempt while the key is live and no call fails.\<close>

lemma refused_attempt:
  assumes "redis_ok E" "\<And>k. w_tick v \<le> k \<Longrightarrow> fault E k = NoFault" "job_name job \<noteq> ''scan-expired''" "d = job_data job"
    and "subscription_select (rj_subscriptionId d) (w_db v) = Some s" "s_status s = ACTIVE" "s_autoRenew s"
    and "w_redis v = before @ RSet m (key_of (renewal_request d)) on (Some 3600) # later" "on \<noteq> []"
    and "key_of (renewal_request d) \<notin> redis_key ` set later" "clock E (w_tick v + 3) < clock E m + 3600 * 1000"
  shows "\<exists>v'. run (processRenewal E job) v = (Inl (DuplicatePaymentError on), v') \<and> w_db v' = w_db v \<and>
    (if last_attempt job
     then \<exists>q now. w_jobs v' = w_jobs v @ [dead_letter_call E job (DuplicatePaymentError on) now q]
     else w_jobs v' = w_jobs v \<and> w_redis v' = w_redis v \<and> w_tick v \<le> w_tick v')"
proof -
  let ?E = "faultless E"
  have "live_order ?E (renewal_request d) (tick v) = Some on"
    using redis_ok_faultless [OF assms(1)] assms(8-11) by (simp add: live_order_def redis_ok_def eval_nat_numeral)
  from renew_body_blocked [OF _ this, of s]
  have "run (renew_body ?E d s) (tick v) = (Inl (DuplicatePaymentError on), tick (tick (tick (tick v))))" by simp
  from failed_attempt [of ?E job, OF _ assms(3) assms(5) [unfolded assms(4)] assms(6,7) this [unfolded assms(4)]]
  obtain v' where run: "run (processRenewal ?E job) v = (Inl (DuplicatePaymentError on), v')" "w_db v' = w_db v"
    and rest: "if last_attempt job then \<exists>q. getQueue DEAD_LETTER v' = Some q \<and> w_jobs v' = w_jobs (tick (tick (tick (tick v)))) @
        [dead_letter_call ?E job (DuplicatePaymentError on) (clock ?E (w_tick (tick (tick (tick (tick v)))))) q]
      else v' = tick (tick (tick (tick v)))" by auto
  have "run (processRenewal E job) v = (Inl (DuplicatePaymentError on), v')"
    by (rule run_spared [OF spared_processRenewal run(1) order_refl]) (rule assms(2))
  moreover have "dead_letter_call ?E = dead_letter_call E"
    by (simp add: dead_letter_call_def [abs_def] dead_letter_def fun_eq_iff)
  ultimately show ?thesis using run(2) rest by (intro exI [of _ v']) (auto split: if_splits)
qed

text \<open>What every attempt but the last hands on: the key of the first payment, and no dead letter.\<close>

definition held :: "job \<Rightarrow> nat \<Rightarrow> world \<Rightarrow> redis_call \<Rightarrow> world \<Rightarrow> bool" where
  "held job T w c v \<longleftrightarrow> T \<le> w_tick v \<and> letters_of (job_id job) v = letters_of (job_id job) w \<and>
     (\<exists>later. w_redis v = w_redis w @ c # later \<and> key_of (renewal_request (job_data job)) \<notin> redis_key ` set later)"

lemma held_undisturbed:
  assumes "held job T w c v" "undisturbed E job deadline v v'"
  shows "held job T w c v'"
proof -
  from assms(2) obtain later where "w_redis v' = w_redis v @ later" "w_tick v \<le> w_tick v'"
    "key_of (renewal_request (job_data job)) \<notin> redis_key ` set later"
    "letters_of (job_id job) v' = letters_of (job_id job) v" unfolding undisturbed_def by blast
  with assms(1) show ?thesis unfolding held_def by (auto intro: exI [of _ "_ @ later"])
qed

lemma held_refused:
  assumes "held job T w (RSet m (key_of (renewal_request (job_data job))) on (Some 3600)) v'"
    and "undisturbed E job (clock E m + 3600 * 1000) v v'" "redis_ok E" "\<And>k. T \<le> k \<Longrightarrow> fault E k = NoFault" "on \<noteq> []"
    and "job_name job \<noteq> ''scan-expired''" "job' = job\<lparr>job_attemptsMade := i\<rparr>"
  shows "\<exists>v''. run (processRenewal E job') v' = (Inl (DuplicatePaymentError on), v'') \<and> w_db v'' = w_db v' \<and>
    (if last_attempt job'
     then \<exists>q now. w_jobs v'' = w_jobs v' @ [dead_letter_call E job' (DuplicatePaymentError on) now q]
     else held job T w (RSet m (key_of (renewal_request (job_data job))) on (Some 3600)) v'')"
proof -
  let ?set = "RSet m (key_of (renewal_request (job_data job))) on (Some 3600)"
  from assms(1) obtain later where r: "w_redis v' = w_redis w @ ?set # later" "T \<le> w_tick v'"
    "key_of (renewal_request (job_data job)) \<notin> redis_key ` set later" unfolding held_def by blast
  from assms(2) obtain s where s: "subscription_select (rj_subscriptionId (job_data job)) (w_db v') = Some s"
    "s_status s = ACTIVE" "s_autoRenew s" "clock E (w_tick v' + 3) < clock E m + 3600 * 1000"
    unfolding undisturbed_def by blast
  have "fault E k = NoFault" if "w_tick v' \<le> k" for k using assms(4) r(2) that by simp
  from refused_attempt [of E v' job' "job_data job", OF assms(3) this _ _ s(1-3) r(1) assms(5) r(3) s(4)]
  obtain v'' where "run (processRenewal E job') v' = (Inl (DuplicatePaymentError on), v'')" "w_db v'' = w_db v'"
    "if last_attempt job' then \<exists>q now. w_jobs v'' = w_jobs v' @ [dead_letter_call E job' (DuplicatePaymentError on) now q]
     else w_jobs v'' = w_jobs v' \<and> w_redis v'' = w_redis v' \<and> w_tick v' \<le> w_tick v''"
    using assms(6,7) by auto
  with assms(1) show ?thesis by (auto simp: held_def letters_of_def)
qed

text \<open>
  C20: What becomes of a renewal job whose first attempt failed after its payment was created, if the later
  attempts meet no failure of their own. Suppose that no call fails after the first attempt, and that
  from each attempt to the next, all of them within the hour of the idempotency key, nobody else writes
  that key or a dead letter of this job, and the subscription stays ACTIVE and renewing. Then every
  later attempt is refused because of the payment of the first and changes nothing in the
  database, and the last one leaves exactly one dead letter of the job, whose reason is that refusal, not
  the failure of the first attempt. (Without these conditions it can end otherwise: a cancelled
  subscription ends the job without an error, and a failed lookup on the last attempt leaves no
  dead letter, see failed_lookup_leaves_no_letter.)
\<close>

theorem renewal_retries_in_vain:
  assumes "redis_ok E" "job_name job \<noteq> ''scan-expired''" "job_attempts job = Some n" "1 < n"
    and "\<And>i. attempt i = run (processRenewal E (job\<lparr>job_attemptsMade := i\<rparr>)) (start i)"
    and "run (SubscriptionRepository_findBySubscriptionId E (rj_subscriptionId (job_data job))) (start 0) =
      (Inr (Some s), tick (start 0))" "s_status s = ACTIVE" "s_autoRenew s"
    and "run (createPayment E (renewal_request (job_data job))) (tick (start 0)) = (Inr on, w1)"
    and "attempt 0 = (Inl e, w2)" "\<And>k. w_tick w2 \<le> k \<Longrightarrow> fault E k = NoFault"
    and "\<And>i. Suc i < n \<Longrightarrow>
      undisturbed E job (clock E (w_tick (start 0) + 5) + 3600 * 1000) (snd (attempt i)) (start (Suc i))"
  shows "(\<forall>i. 0 < i \<and> i < n \<longrightarrow> fst (attempt i) = Inl (DuplicatePaymentError on) \<and> w_db (snd (attempt i)) = w_db (start i)) \<and>
    (\<exists>c dl. letters_of (job_id job) (snd (attempt (n - 1))) = letters_of (job_id job) (start 0) @ [c] \<and>
      jc_data c = DeadLetterJob dl \<and> dl_originalQueue dl = ''subscription-renewal'' \<and> dl_originalJobId dl = job_id job \<and>
      dl_data dl = job_data job \<and> dl_attemptsMade dl = n \<and>
      dl_failedReason dl = ''Duplicate payment for order: '' @ on)"
proof -
  let ?job = "\<lambda>i. job\<lparr>job_attemptsMade := i\<rparr>" and ?dup = "DuplicatePaymentError on"
  let ?set = "RSet (w_tick (start 0) + 5) (key_of (renewal_request (job_data job))) on (Some 3600)"
  have last: "last_attempt (?job i) \<longleftrightarrow> n - 1 \<le> i" for i using assms(3,4) by (simp add: last_attempt_def)
  have "run (processRenewal E (?job 0)) (start 0) = (Inl e, w2)" using assms(5,10) by simp
  from failed_after_creation [where job = "?job 0" and d = "job_data job", OF _ _ _ assms(6-9) this]
  have first: "held job (w_tick w2) (start 0) ?set (snd (attempt 0))"
    using assms(2,4,10) last by (simp add: held_def)
  have on: "on \<noteq> []" using createPayment_redis(1) [OF assms(9)] order_in_nonempty by simp
  note refused = held_refused [where i = "Suc i" and v' = "start (Suc i)" and T = "w_tick w2" and w = "start 0" for i,
      OF _ assms(12) assms(1,11) on assms(2) refl, folded assms(5)]
  have ready: "Suc i < n \<Longrightarrow> held job (w_tick w2) (start 0) ?set (start (Suc i))" for i
  proof (induction i)
    case 0
    then show ?case using held_undisturbed [OF first assms(12)] by simp
  next
    case (Suc i)
    then have "held job (w_tick w2) (start 0) ?set (start (Suc i))" "Suc i < n" "\<not> last_attempt (?job (Suc i))"
      using last by simp_all
    with refused [of i] have "held job (w_tick w2) (start 0) ?set (snd (attempt (Suc i)))" by auto
    then show ?case using held_undisturbed assms(12) Suc.prems by blast
  qed
  obtain m where n: "n = Suc (Suc m)" using assms(4) by (cases n; cases "n - 1") auto
  have "fst (attempt i) = Inl ?dup \<and> w_db (snd (attempt i)) = w_db (start i)" if "0 < i" "i < n" for i
    using refused [of "i - 1"] ready [of "i - 1"] that by auto
  moreover from refused [of m] ready [of m] last n obtain v' q now where
    "attempt (Suc m) = (Inl ?dup, v')"
    "w_jobs v' = w_jobs (start (Suc m)) @ [dead_letter_call E (?job (Suc m)) ?dup now q]" by auto
  then have "letters_of (job_id job) (snd (attempt (n - 1))) = letters_of (job_id job) (start 0) @
      [dead_letter_call E (?job (Suc m)) ?dup now q]"
    using ready [of m] n by (simp add: letters_of_def held_def is_letter_of_def dead_letter_call_def dead_letter_def)
  moreover have "jc_data (dead_letter_call E (?job (Suc m)) ?dup now q) =
      DeadLetterJob \<lparr>dl_originalQueue = queue_name_str SUBSCRIPTION_RENEWAL, dl_originalJobId = job_id job, dl_data = job_data job,
        dl_failedReason = message_of E ?dup, dl_attemptsMade = n, dl_failedAt = now\<rparr>"
    by (simp add: dead_letter_call_def dead_letter_def n)
  moreover have "message_of E ?dup = ''Duplicate payment for order: '' @ on"
    by (simp add: message_of_def error_defs)
  ultimately show ?thesis by fastforce
qed

text \<open>A job with two attempts, the first of which fails at the statement that extends the subscription.\<close>

definition two_tries :: "nat \<Rightarrow> job" where
  "two_tries i = (sample_job i)\<lparr>job_attempts := Some 2\<rparr>"

primrec sample_start :: "nat \<Rightarrow> world" where
  "sample_start 0 = with_subscription ACTIVE True"
| "sample_start (Suc i) = snd (run (processRenewal flaky (two_tries i)) (sample_start i))"

lemma renewal_retries_in_vain_witness:
  "\<exists>c dl. letters_of ''J1'' (snd (run (processRenewal flaky (two_tries 1)) (sample_start 1))) = [c] \<and>
    jc_data c = DeadLetterJob dl \<and> dl_attemptsMade dl = 2 \<and>
    dl_failedReason dl = ''Duplicate payment for order: ORD-0-00000002''"
proof -
  let ?d = "job_data (two_tries 0)" and ?w = "with_subscription ACTIVE True"
  let ?attempt = "\<lambda>i. run (processRenewal flaky (two_tries i)) (sample_start i)"
  have ok: "redis_ok flaky" using calm_redis_ok by (simp add: redis_ok_def flaky_def)
  have attempts: "two_tries i = two_tries 0\<lparr>job_attemptsMade := i\<rparr>" for i by (simp add: two_tries_def sample_job_def)
  have find: "run (SubscriptionRepository_findBySubscriptionId flaky (rj_subscriptionId ?d)) (sample_start 0) =
      (Inr (Some (sample_subscription ACTIVE True)), tick (sample_start 0))"
    by (simp add: SubscriptionRepository_findBySubscriptionId_def sql_def run_remote sql_effect_reading two_tries_def sample_job_def)
  have "fst (run (createPayment flaky (renewal_request ?d)) (tick ?w)) = Inr ''ORD-0-00000002''" by code_simp
  then obtain w1 where create: "run (createPayment flaky (renewal_request ?d)) (tick (sample_start 0)) = (Inr ''ORD-0-00000002'', w1)"
    by (metis prod.collapse sample_start.simps(1))
  have run0: "case ?attempt 0 of (r, w2) \<Rightarrow> (case r of Inl _ \<Rightarrow> True | Inr _ \<Rightarrow> False) \<and> w_tick w2 = 22 \<and>
      (case subscription_select ''S1'' (w_db w2) of Some s \<Rightarrow> s_status s = ACTIVE \<and> s_autoRenew s | None \<Rightarrow> False)" by code_simp
  then obtain e w2 where first: "?attempt 0 = (Inl e, w2)" by (cases "?attempt 0") (auto split: sum.splits)
  with run0 have w2: "w_tick w2 = 22"
    "case subscription_select ''S1'' (w_db w2) of Some s \<Rightarrow> s_status s = ACTIVE \<and> s_autoRenew s | None \<Rightarrow> False" by simp_all
  have faults: "fault flaky k = NoFault" if "w_tick w2 \<le> k" for k using that w2(1) by simp
  have "undisturbed flaky (two_tries 0) (clock flaky (w_tick (sample_start 0) + 5) + 3600 * 1000)
      (snd (?attempt i)) (sample_start (Suc i))" if "Suc i < 2" for i
    using that first w2(2) by (auto simp: undisturbed_def two_tries_def sample_job_def split: option.splits)
  from renewal_retries_in_vain [where job = "two_tries 0" and n = 2 and start = sample_start and attempt = ?attempt,
      OF ok _ _ _ _ find _ _ create first faults this] attempts
  show ?thesis by (auto simp: two_tries_def sample_job_def letters_of_def with_subscription_def)
qed

section \<open>A failure outside the \<open>try\<close>\<close>

text \<open>
  The lookup of the subscription and the expiry stand before the \<open>try\<close>: if the lookup fails, the
  attempt fails and leaves no dead letter, not even the last attempt.
\<close>

lemma failed_lookup_leaves_no_letter:
  assumes "job_name job \<noteq> ''scan-expired''" "fault E (w_tick w) = NotApplied m"
  shows "run (processRenewal E job) w = (Inl (Unavailable m), tick w)"
  using assms(2) by (simp add: processRenewal_renew [OF assms(1)] Let_def run_seq
      SubscriptionRepository_findBySubscriptionId_def sql_def run_remote)

end
