(* ===== verification/Tickets.thy ===== *)
theory Tickets
  imports ReadModel Liveness
begin

text \<open>
  The books of the event log and the read model. An event that the projector counts is a ticket: the
  append that stores it issues the ticket to the activity that published it, and the projection that
  follows cashes it. \<open>owing\<close> says that a program keeps these books, action by action; \<open>audit\<close> says
  that they balance: the table and the tickets still held make up the log. A lossy program may lose
  tickets, when calls fail.
\<close>

section \<open>Tickets\<close>

type_synonym ticket = "handler_ref \<times> money"

definition payload_amount :: "string \<Rightarrow> (string \<times> json) list \<Rightarrow> money" where
  "payload_amount key payload = (case map_of payload key of Some (JNum a) \<Rightarrow> a | _ \<Rightarrow> 0)"

definition tickets_of :: "stored_event \<Rightarrow> ticket list" where
  "tickets_of r =
     (if se_eventType r = event_type_str PAYMENT_COMPLETED
      then [(OnPaymentCompleted, payload_amount ''paidAmount'' (se_payload r))]
      else if se_eventType r = event_type_str PAYMENT_REFUNDED
      then [(OnPaymentRefunded, payload_amount ''refundAmount'' (se_payload r))]
      else if se_eventType r = event_type_str PAYMENT_FAILED then [(OnPaymentFailed, 0)]
      else [])"

definition log_tickets :: "database \<Rightarrow> ticket list" where
  "log_tickets db = concat (map tickets_of (event_store db))"

definition upsert_of :: "ticket \<Rightarrow> summary_row \<Rightarrow> (summary_row \<Rightarrow> summary_row) \<Rightarrow> bool" where
  "upsert_of t ins upd \<longleftrightarrow> (\<exists>d now. (ins, upd) = (case t of
      (OnPaymentCompleted, a) \<Rightarrow> (completed_insert d a now, completed_update a)
    | (OnPaymentRefunded, a) \<Rightarrow> (refunded_insert d a now, refunded_update a)
    | (OnPaymentFailed, a) \<Rightarrow> (failed_insert d now, failed_update)))"

definition cashed :: "ticket \<Rightarrow> database \<Rightarrow> database \<Rightarrow> bool" where
  "cashed t db db' \<longleftrightarrow> event_store db' = event_store db \<and> (\<exists>ins upd now. upsert_of t ins upd \<and>
     payment_summary db' = (case summary_upsert ins upd now db of
         Inl e \<Rightarrow> payment_summary db | Inr (u, db'') \<Rightarrow> payment_summary db''))"

inductive books :: "ticket list \<Rightarrow> database \<Rightarrow> ticket list \<Rightarrow> database \<Rightarrow> bool" for T db where
  idle: "event_store db' = event_store db \<Longrightarrow> payment_summary db' = payment_summary db \<Longrightarrow> books T db T db'"
| issue: "event_store db' = event_store db @ [row] \<Longrightarrow> payment_summary db' = payment_summary db \<Longrightarrow>
    books T db (T @ tickets_of row) db'"
| cash: "T = t # T' \<Longrightarrow> cashed t db db' \<Longrightarrow> books T db T' db'"

definition booked :: "bool \<Rightarrow> ticket list \<Rightarrow> database \<Rightarrow> ticket list \<Rightarrow> database \<Rightarrow> bool" where
  "booked lossy T db T' db' \<longleftrightarrow> books T db T' db' \<or> lossy \<and> T' = [] \<and> (\<exists>T''. books T db T'' db')"

lemma booked_idle:
  "event_store db' = event_store db \<Longrightarrow> payment_summary db' = payment_summary db \<Longrightarrow> booked l T db T db'"
  unfolding booked_def by (blast intro: books.idle)

lemma booked_lost: "booked True T db T' db' \<Longrightarrow> booked True T db [] db'"
  unfolding booked_def by blast

section \<open>Programs that keep the books\<close>

definition serving :: "world \<Rightarrow> bool" where
  "serving w \<longleftrightarrow> world_inv w \<and> w_handlers w = w_handlers booted"

lemma serving_tick [simp]: "serving (tick w) = serving w"
  by (simp add: serving_def)

primrec owing :: "bool \<Rightarrow> ('a \<Rightarrow> ticket list \<Rightarrow> bool) \<Rightarrow> 'a io \<Rightarrow> ticket list \<Rightarrow> bool" where
  "owing l Q (Done x) = Q x"
| "owing l Q (Fail e) = (\<lambda>T. T = [])"
| "owing l Q (Act g c) = (\<lambda>T. \<forall>w. serving w \<longrightarrow>
     w_handlers (g w) = w_handlers w \<and> (\<exists>T'. booked l T (w_db w) T' (w_db (g w)) \<and> owing l Q (c w) T'))"

lemma owing_seq:
  "owing l Q' m T \<Longrightarrow> (\<And>x T'. Q' x T' \<Longrightarrow> owing l Q (f x) T') \<Longrightarrow> owing l Q (seq m f) T"
proof (induction m arbitrary: T)
  case (Act g k)
  have "\<exists>T'. booked l T (w_db w) T' (w_db (g w)) \<and> owing l Q (seq (k w) f) T'" if "serving w" for w
    using that Act.prems Act.IH [of "k w"] by (metis owing.simps(3) rangeI)
  with Act.prems(1) show ?case by simp
qed simp_all

lemma owing_catch:
  "owing l Q m T \<Longrightarrow> (\<And>e. owing l Q (h e) []) \<Longrightarrow> owing l Q (catch m h) T"
proof (induction m arbitrary: T)
  case (Act g k)
  have "\<exists>T'. booked l T (w_db w) T' (w_db (g w)) \<and> owing l Q (catch (k w) h) T'" if "serving w" for w
    using that Act.prems Act.IH [of "k w"] by (metis owing.simps(3) rangeI)
  with Act.prems(1) show ?case by simp
qed simp_all

lemma owing_act:
  assumes "\<And>w r w'. serving w \<Longrightarrow> f w = (r, w') \<Longrightarrow> w_handlers w' = w_handlers w \<and>
    (\<exists>T'. booked l T (w_db w) T' (w_db w') \<and> (case r of Inl e \<Rightarrow> T' = [] | Inr x \<Rightarrow> Q x T'))"
  shows "owing l Q (act f) T"
proof -
  have "w_handlers (snd (f w)) = w_handlers w \<and> (\<exists>T'. booked l T (w_db w) T' (w_db (snd (f w))) \<and>
      owing l Q (case fst (f w) of Inl e \<Rightarrow> Fail e | Inr x \<Rightarrow> Done x) T')" if "serving w" for w
  proof -
    obtain r w' where "f w = (r, w')" by fastforce
    with assms [OF that this] show ?thesis by (cases r) auto
  qed
  then show ?thesis by (simp add: act_def)
qed

text \<open>
  Tickets may be lost if calls can fail, if the clock leaves the years that a \<open>DATE\<close> string has four
  digits for, or if not all completions have an amount.
\<close>

definition clocks_ok :: "env \<Rightarrow> bool" where
  "clocks_ok E \<longleftrightarrow> (\<forall>n. 0 \<le> get_full_year 0 (clock E n) \<and> get_full_year 0 (clock E n) \<le> 9999)"

definition lossy :: "bool \<Rightarrow> env \<Rightarrow> bool" where
  "lossy strict E \<longleftrightarrow> \<not> (strict \<and> reliable E \<and> clocks_ok E)"

lemma lossy_False: "lossy False E"
  by (simp add: lossy_def)

abbreviation owes :: "bool \<Rightarrow> env \<Rightarrow> ('a \<Rightarrow> ticket list \<Rightarrow> bool) \<Rightarrow> 'a io \<Rightarrow> ticket list \<Rightarrow> bool" where
  "owes strict E \<equiv> owing (lossy strict E)"

abbreviation settles :: "bool \<Rightarrow> env \<Rightarrow> 'a io \<Rightarrow> bool" where
  "settles strict E p \<equiv> owes strict E (\<lambda>_ T. T = []) p []"

lemma owes_remote:
  assumes "\<And>n w r w'. serving w \<Longrightarrow> f n w = (r, w') \<Longrightarrow> w_handlers w' = w_handlers w \<and>
    (\<exists>T'. booked (lossy strict E) T (w_db w) T' (w_db w') \<and> (case r of Inl e \<Rightarrow> T' = [] | Inr x \<Rightarrow> Q x T'))"
  shows "owes strict E Q (remote E f) T"
  unfolding remote_def
proof (rule owing_act)
  fix w r w'
  assume w: "serving w" and step: "(case fault E (w_tick w) of
      NoFault \<Rightarrow> f (w_tick w) (tick w)
    | NotApplied m \<Rightarrow> (Inl (Unavailable m), tick w)
    | AppliedButLost m \<Rightarrow> (Inl (Unavailable m), snd (f (w_tick w) (tick w)))) = (r, w')"
  obtain r1 w1 where f: "f (w_tick w) (tick w) = (r1, w1)" by fastforce
  with assms [of "tick w"] w obtain T1 where *: "w_handlers w1 = w_handlers w"
    "booked (lossy strict E) T (w_db w) T1 (w_db w1)" "case r1 of Inl e \<Rightarrow> T1 = [] | Inr x \<Rightarrow> Q x T1"
    by fastforce
  show "w_handlers w' = w_handlers w \<and> (\<exists>T'. booked (lossy strict E) T (w_db w) T' (w_db w') \<and>
      (case r of Inl e \<Rightarrow> T' = [] | Inr x \<Rightarrow> Q x T'))"
  proof (cases "fault E (w_tick w) = NoFault")
    case True
    with step f * show ?thesis by auto
  next
    case False
    then have "lossy strict E" by (auto simp: lossy_def reliable_def)
    with *(2) booked_idle [of "w_db w" "w_db w" True T] have lost: "booked (lossy strict E) T (w_db w) [] (w_db w1)"
      "booked (lossy strict E) T (w_db w) [] (w_db w)" by (auto intro: booked_lost)
    from False step f have "(\<exists>m. r = Inl (Unavailable m)) \<and> (w' = tick w \<or> w' = w1)" by (auto split: fault.splits)
    with lost *(1) show ?thesis by auto
  qed
qed

lemma owes_sql:
  assumes "\<And>n now db. db_inv db \<Longrightarrow> (case st n now db of
      Inl e \<Rightarrow> booked (lossy strict E) T db [] db
    | Inr (x, db') \<Rightarrow> \<exists>T'. booked (lossy strict E) T db T' db' \<and> Q x T')"
  shows "owes strict E Q (sql E st) T"
  unfolding sql_def
proof (rule owes_remote)
  fix n w r w' assume "serving w" and step: "sql_effect (st n) (sql_now (db_clock E n)) w = (r, w')"
  then have "db_inv (w_db w)" by (simp add: serving_def world_inv_def)
  from assms [OF this, of n "sql_now (db_clock E n)"] step
  show "w_handlers w' = w_handlers w \<and> (\<exists>T'. booked (lossy strict E) T (w_db w) T' (w_db w') \<and>
      (case r of Inl e \<Rightarrow> T' = [] | Inr x \<Rightarrow> Q x T'))"
    by (auto simp: sql_effect_def split: sum.splits)
qed

section \<open>Actions that neither issue nor cash\<close>

lemma settles_seq: "settles strict E m \<Longrightarrow> (\<And>x. settles strict E (f x)) \<Longrightarrow> settles strict E (seq m f)"
  by (erule owing_seq) simp

lemma settles_catch: "settles strict E m \<Longrightarrow> (\<And>e. settles strict E (f e)) \<Longrightarrow> settles strict E (catch m f)"
  by (erule owing_catch)

lemma settles_basic: "settles strict E (Done x)" "settles strict E (Fail e)"
  by simp_all

lemma settles_act:
  assumes "\<And>w. w_handlers (snd (f w)) = w_handlers w \<and> w_db (snd (f w)) = w_db w"
  shows "settles strict E (act f)"
proof (rule owing_act)
  fix w r w' assume "f w = (r, w')"
  with assms [of w] show "w_handlers w' = w_handlers w \<and> (\<exists>T'. booked (lossy strict E) [] (w_db w) T' (w_db w') \<and>
      (case r of Inl e \<Rightarrow> T' = [] | Inr x \<Rightarrow> T' = []))"
    by (auto intro!: exI [of _ "[]"] booked_idle split: sum.split)
qed

lemma settles_remote:
  assumes "\<And>n w. w_handlers (snd (f n w)) = w_handlers w \<and> w_db (snd (f n w)) = w_db w"
  shows "settles strict E (remote E f)"
proof (rule owes_remote)
  fix n w r w' assume "f n w = (r, w')"
  with assms [of n w] show "w_handlers w' = w_handlers w \<and> (\<exists>T'. booked (lossy strict E) [] (w_db w) T' (w_db w') \<and>
      (case r of Inl e \<Rightarrow> T' = [] | Inr x \<Rightarrow> T' = []))"
    by (auto intro!: exI [of _ "[]"] booked_idle split: sum.split)
qed

lemma settles_sql:
  assumes "\<And>n now db x db'. st n now db = Inr (x, db') \<Longrightarrow>
    event_store db' = event_store db \<and> payment_summary db' = payment_summary db"
  shows "settles strict E (sql E st)"
  by (rule owes_sql) (auto intro!: booked_idle exI [of _ "[]"] dest: assms split: sum.split)

section \<open>The audit\<close>

definition tally :: "(ticket \<Rightarrow> int) \<Rightarrow> ticket list \<Rightarrow> int" where
  "tally g T = sum_list (map g T)"

definition number :: "handler_ref \<Rightarrow> ticket \<Rightarrow> int" where
  "number h t = of_bool (fst t = h)"

definition amount :: "handler_ref \<Rightarrow> ticket \<Rightarrow> money" where
  "amount h t = (if fst t = h then snd t else 0)"

text \<open>The columns of the read model and what a ticket adds to each.\<close>

definition exact_columns :: "((summary_row \<Rightarrow> int) \<times> (ticket \<Rightarrow> int)) list" where
  "exact_columns =
     [(sm_totalRevenue, amount OnPaymentCompleted), (sm_totalRefunds, amount OnPaymentRefunded),
      (sm_successfulTransactions, number OnPaymentCompleted), (sm_refundCount, number OnPaymentRefunded),
      (sm_failedTransactions, number OnPaymentFailed)]"

definition bound_columns :: "((summary_row \<Rightarrow> int) \<times> (ticket \<Rightarrow> int)) list" where
  "bound_columns = (sm_totalTransactions, \<lambda>_. 1) # map (\<lambda>(f, g). (f, \<lambda>t. \<bar>g t\<bar>)) exact_columns"

lemmas columns_defs = exact_columns_def bound_columns_def number_def amount_def

text \<open>The log is small enough for its sums to fit the columns.\<close>

definition log_small :: "database \<Rightarrow> bool" where
  "log_small db \<longleftrightarrow> tally (\<lambda>t. \<bar>amount OnPaymentCompleted t\<bar>) (log_tickets db) < 10 ^ 15 \<and>
     tally (\<lambda>t. \<bar>amount OnPaymentRefunded t\<bar>) (log_tickets db) < 10 ^ 15 \<and>
     int (length (log_tickets db)) < 2 ^ 31"

definition covered :: "database \<Rightarrow> ticket list \<Rightarrow> bool" where
  "covered db T \<longleftrightarrow> (\<forall>(f, g) \<in> set bound_columns.
     table_sum (\<lambda>r. \<bar>f r\<bar>) db + tally g T \<le> tally g (log_tickets db))"

definition balanced :: "database \<Rightarrow> ticket list \<Rightarrow> bool" where
  "balanced db T \<longleftrightarrow> (\<forall>(f, g) \<in> set exact_columns. table_sum f db + tally g T = tally g (log_tickets db))"

definition audit :: "bool \<Rightarrow> database \<Rightarrow> ticket list \<Rightarrow> bool" where
  "audit l db T \<longleftrightarrow> distinct (map sm_date (payment_summary db)) \<and> covered db T \<and>
     (\<not> l \<longrightarrow> log_small db \<longrightarrow> balanced db T)"

lemma tally_append [simp]: "tally g (T @ U) = tally g T + tally g U"
  and tally_Cons [simp]: "tally g (t # T) = g t + tally g T" and tally_Nil [simp]: "tally g [] = 0"
  by (simp_all add: tally_def)

lemma tally_mset: "mset T = mset U \<Longrightarrow> tally g T = tally g U"
  unfolding tally_def by (metis mset_map sum_mset_sum_list)

lemma tally_nonneg: "(\<And>t. 0 \<le> g t) \<Longrightarrow> 0 \<le> tally g T"
  by (induction T) simp_all

lemma audit_mset: "mset T = mset U \<Longrightarrow> audit l db T = audit l db U"
  by (simp add: audit_def covered_def balanced_def tally_mset [of T U])

lemma bound_nonneg: "(f, g) \<in> set bound_columns \<Longrightarrow> 0 \<le> g t"
  by (auto simp: columns_defs)

lemma exact_bound: "(f, g) \<in> set exact_columns \<Longrightarrow> (f, \<lambda>t. \<bar>g t\<bar>) \<in> set bound_columns"
  by (auto simp: bound_columns_def)

lemma column_time: "(f, g) \<in> set bound_columns \<Longrightarrow> f (r\<lparr>sm_updatedAt := t\<rparr>) = f r"
  by (auto simp: columns_defs)

lemma upsert_of_exact:
  assumes "upsert_of t ins upd" "(f, g) \<in> set exact_columns"
  shows "f ins = g t" "f (upd r) = f r + g t"
  using assms by (cases t; cases "fst t"; auto simp: upsert_of_def columns_defs upsert_defs)+

lemma upsert_of_bound:
  assumes "upsert_of t ins upd" "(f, g) \<in> set bound_columns"
  shows "\<bar>f ins\<bar> \<le> g t" "\<bar>f (upd r)\<bar> \<le> \<bar>f r\<bar> + g t"
  using assms by (cases t; cases "fst t"; auto simp: upsert_of_def columns_defs upsert_defs)+

lemma upsert_of_date: "upsert_of t ins upd \<Longrightarrow> sm_date (upd r) = sm_date r"
  by (cases t; cases "fst t") (auto simp: upsert_of_def)

lemma log_tickets_append:
  "event_store db' = event_store db @ [row] \<Longrightarrow> log_tickets db' = log_tickets db @ tickets_of row"
  by (simp add: log_tickets_def)

lemma log_small_before:
  assumes "log_tickets db' = log_tickets db @ T" "log_small db'"
  shows "log_small db"
proof -
  have "0 \<le> tally (\<lambda>t. \<bar>amount h t\<bar>) T" for h by (rule tally_nonneg) simp
  from this [of OnPaymentCompleted] this [of OnPaymentRefunded] assms show ?thesis by (simp add: log_small_def)
qed

lemma audit_cong:
  assumes "event_store db' = event_store db" "payment_summary db' = payment_summary db"
  shows "audit l db' T = audit l db T"
  using assms by (simp add: audit_def covered_def balanced_def log_small_def log_tickets_def table_sum_def)

lemma audit_issue:
  assumes "audit l db T" "event_store db' = event_store db @ [row]" "payment_summary db' = payment_summary db"
  shows "audit l db' (T @ tickets_of row)"
  using assms(1,3) log_small_before [OF log_tickets_append [OF assms(2)]]
  by (fastforce simp: audit_def covered_def balanced_def log_tickets_append [OF assms(2)] table_sum_def)

lemma audit_lost:
  assumes "audit True db (T @ U)"
  shows "audit True db U"
proof -
  have "table_sum (\<lambda>r. \<bar>f r\<bar>) db + tally g U \<le> tally g (log_tickets db)" if c: "(f, g) \<in> set bound_columns" for f g
  proof -
    from assms c have "table_sum (\<lambda>r. \<bar>f r\<bar>) db + tally g (T @ U) \<le> tally g (log_tickets db)"
      unfolding audit_def covered_def by blast
    moreover have "0 \<le> tally g T" using bound_nonneg [OF c] by (rule tally_nonneg)
    ultimately show ?thesis by simp
  qed
  with assms show ?thesis unfolding audit_def covered_def by blast
qed

text \<open>What a row holds is at most what the table holds.\<close>

lemma row_le_table:
  assumes "r \<in> set (payment_summary db)"
  shows "\<bar>f r\<bar> \<le> table_sum (\<lambda>r. \<bar>f r\<bar>) db"
proof -
  have "\<bar>f r\<bar> \<le> sum_list (map (\<lambda>r. \<bar>f r :: int\<bar>) rs)" if "r \<in> set rs" for rs
  proof -
    have "0 \<le> sum_list (map (\<lambda>r. \<bar>f r\<bar>) rs)" for rs by (induction rs) simp_all
    with that show ?thesis by (induction rs) (auto intro: add_increasing add_increasing2)
  qed
  with assms show ?thesis by (simp add: table_sum_def)
qed

text \<open>So in a small log a ticket that is still held can be cashed.\<close>

lemma columns_fit:
  assumes "log_small db" "\<And>f g. (f, g) \<in> set bound_columns \<Longrightarrow> \<bar>f r\<bar> \<le> tally g (log_tickets db)"
  shows "summary_fits r"
proof -
  have len: "tally (\<lambda>_. 1) T = int (length T)" for T by (induction T) simp_all
  have one: "tally (\<lambda>t. \<bar>number h t\<bar>) T \<le> int (length T)" for h T
    by (induction T) (simp_all add: number_def)
  note bounds = assms(2) [of sm_totalRevenue "\<lambda>t. \<bar>amount OnPaymentCompleted t\<bar>"]
    assms(2) [of sm_totalRefunds "\<lambda>t. \<bar>amount OnPaymentRefunded t\<bar>"] assms(2) [of sm_totalTransactions "\<lambda>_. 1"]
    assms(2) [of sm_successfulTransactions "\<lambda>t. \<bar>number OnPaymentCompleted t\<bar>"]
    assms(2) [of sm_refundCount "\<lambda>t. \<bar>number OnPaymentRefunded t\<bar>"]
    assms(2) [of sm_failedTransactions "\<lambda>t. \<bar>number OnPaymentFailed t\<bar>"]
  note nums = one [of OnPaymentCompleted "log_tickets db"] one [of OnPaymentRefunded "log_tickets db"]
    one [of OnPaymentFailed "log_tickets db"]
  show ?thesis using bounds nums assms(1)
    by (simp add: bound_columns_def exact_columns_def log_small_def summary_fits_def decimal_ok_def int_ok_def len) linarith
qed

lemma cash_accepted:
  assumes "audit l db (t # T)" "log_small db" "upsert_of t ins upd"
  shows "\<exists>db'. summary_upsert ins upd now db = Inr ((), db')"
proof (rule summary_fits_upsert)
  have room: "table_sum (\<lambda>r. \<bar>f r\<bar>) db + g t \<le> tally g (log_tickets db)" if "(f, g) \<in> set bound_columns" for f g
  proof -
    have "table_sum (\<lambda>r. \<bar>f r\<bar>) db + tally g (t # T) \<le> tally g (log_tickets db)"
      using assms(1) that by (fastforce simp: audit_def covered_def)
    moreover have "0 \<le> tally g T" using bound_nonneg [OF that] by (rule tally_nonneg)
    ultimately show ?thesis by simp
  qed
  have pos: "0 \<le> table_sum (\<lambda>r. \<bar>f r\<bar>) db" for f :: "summary_row \<Rightarrow> int"
    unfolding table_sum_def by (rule sum_list_nonneg) auto
  show "summary_fits ins"
  proof (rule columns_fit [OF assms(2)])
    fix f g assume c: "(f, g) \<in> set bound_columns"
    from upsert_of_bound(1) [OF assms(3) c] room [OF c] pos [of f] show "\<bar>f ins\<bar> \<le> tally g (log_tickets db)" by simp
  qed
  show "summary_fits ((upd r)\<lparr>sm_updatedAt := now\<rparr>)" if r: "summary_of (sm_date ins) db = Some r" for r
  proof (rule columns_fit [OF assms(2)])
    fix f g assume c: "(f, g) \<in> set bound_columns"
    from r have "r \<in> set (payment_summary db)" by (auto simp: summary_of_def dest: find_row_Some)
    from upsert_of_bound(2) [OF assms(3) c, of r] room [OF c] row_le_table [OF this, of f]
    show "\<bar>f ((upd r)\<lparr>sm_updatedAt := now\<rparr>)\<bar> \<le> tally g (log_tickets db)" by (simp add: column_time [OF c])
  qed
qed (use assms(1) upsert_of_date [OF assms(3)] in \<open>simp_all add: audit_def\<close>)

lemma upsert_sums:
  assumes up: "summary_upsert ins upd now db = Inr (u, db')" and t: "upsert_of t ins upd"
    and dist: "distinct (map sm_date (payment_summary db))"
  shows "(f, g) \<in> set exact_columns \<Longrightarrow> table_sum f db' = table_sum f db + g t"
    "(f, g) \<in> set bound_columns \<Longrightarrow> table_sum (\<lambda>r. \<bar>f r\<bar>) db' \<le> table_sum (\<lambda>r. \<bar>f r\<bar>) db + g t"
    "distinct (map sm_date (payment_summary db'))"
proof -
  note sums = summary_upsert_sum(1) [OF up dist upsert_of_date [OF t]]
  show "table_sum f db' = table_sum f db + g t" if c: "(f, g) \<in> set exact_columns"
    using upsert_of_exact [OF t c] column_time [OF exact_bound [OF c]] by (subst sums) (simp_all split: option.split)
  show "table_sum (\<lambda>r. \<bar>f r\<bar>) db' \<le> table_sum (\<lambda>r. \<bar>f r\<bar>) db + g t" if c: "(f, g) \<in> set bound_columns"
    using upsert_of_bound(1) [OF t c] upsert_of_bound(2) [OF t c] column_time [OF c]
    by (subst sums) (auto split: option.split simp: algebra_simps)
  show "distinct (map sm_date (payment_summary db'))"
    by (rule summary_upsert_sum(2) [OF up dist upsert_of_date [OF t], where f = sm_date]) simp
qed

lemma audit_cash:
  assumes "audit l db (t # T)" "cashed t db db'"
  shows "audit l db' T"
proof -
  from assms(2) obtain ins upd now where t: "upsert_of t ins upd" and log: "event_store db' = event_store db"
    and rows: "payment_summary db' = (case summary_upsert ins upd now db of
         Inl e \<Rightarrow> payment_summary db | Inr (u, db'') \<Rightarrow> payment_summary db'')" unfolding cashed_def by blast
  have dist: "distinct (map sm_date (payment_summary db))" using assms(1) by (simp add: audit_def)
  have tickets: "log_tickets db' = log_tickets db" by (simp add: log_tickets_def log)
  then have small: "log_small db' = log_small db" by (simp add: log_small_def)
  have cov: "table_sum (\<lambda>r. \<bar>f r\<bar>) db + (g t + tally g T) \<le> tally g (log_tickets db)" if "(f, g) \<in> set bound_columns" for f g
    using assms(1) that by (fastforce simp: audit_def covered_def)
  have bal: "table_sum f db + (g t + tally g T) = tally g (log_tickets db)"
    if "\<not> l" "log_small db" "(f, g) \<in> set exact_columns" for f g
    using assms(1) that by (fastforce simp: audit_def balanced_def)
  show ?thesis
  proof (cases "summary_upsert ins upd now db")
    case (Inl e)
    then have same: "payment_summary db' = payment_summary db" by (simp add: rows)
    have "\<not> log_small db" using cash_accepted [OF assms(1) _ t, where now = now] Inl by auto
    moreover have "covered db' T" unfolding covered_def tickets
    proof clarify
      fix f g assume c: "(f, g) \<in> set bound_columns"
      from cov [OF c] bound_nonneg [OF c, of t] same
      show "table_sum (\<lambda>r. \<bar>f r\<bar>) db' + tally g T \<le> tally g (log_tickets db)" by (simp add: table_sum_def)
    qed
    ultimately show ?thesis using dist same by (simp add: audit_def small)
  next
    case (Inr x)
    obtain u db'' where x: "x = (u, db'')" by (cases x)
    with Inr rows have same: "payment_summary db' = payment_summary db''" by simp
    note up = upsert_sums [OF Inr [unfolded x] t dist]
    have "covered db' T" unfolding covered_def tickets
    proof clarify
      fix f g assume c: "(f, g) \<in> set bound_columns"
      from cov [OF c] up(2) [OF c] same
      show "table_sum (\<lambda>r. \<bar>f r\<bar>) db' + tally g T \<le> tally g (log_tickets db)" by (simp add: table_sum_def)
    qed
    moreover have "balanced db' T" if "\<not> l" "log_small db" unfolding balanced_def tickets
    proof clarify
      fix f g assume c: "(f, g) \<in> set exact_columns"
      from bal [OF that c] up(1) [OF c] same
      show "table_sum f db' + tally g T = tally g (log_tickets db)" by (simp add: table_sum_def)
    qed
    ultimately show ?thesis using up(3) same by (simp add: audit_def small)
  qed
qed

lemma audit_booked:
  assumes "audit l db (T @ U)" "booked l T db T' db'"
  shows "audit l db' (T' @ U)"
proof -
  have kept: "audit l db' (T1 @ U)" if "books T db T1 db'" for T1
    using that
  proof cases
    case idle
    with assms(1) audit_cong show ?thesis by blast
  next
    case (issue row)
    from audit_issue [OF assms(1) issue(2,3)] have "audit l db' ((T @ U) @ tickets_of row)" .
    moreover have "audit l db' ((T @ U) @ tickets_of row) = audit l db' (T1 @ U)"
      by (rule audit_mset) (simp add: issue(1))
    ultimately show ?thesis by simp
  next
    case (cash t)
    with assms(1) show ?thesis by (auto intro: audit_cash)
  qed
  from assms(2) consider "books T db T' db'" | T1 where "l" "T' = []" "books T db T1 db'"
    unfolding booked_def by blast
  then show ?thesis
  proof cases
    case (2 T1)
    with kept [OF 2(3)] show ?thesis by (auto intro: audit_lost)
  qed (rule kept)
qed

section \<open>The books of the pool\<close>

lemma audit_step:
  assumes step: "pool_step (w, ps) (w', ps')" and "serving w"
    and "list_all2 (owing l Q) ps Ts" "audit l (w_db w) (concat Ts)"
  shows "w_handlers w' = w_handlers w \<and> (\<exists>Ts'. list_all2 (owing l Q) ps' Ts' \<and> audit l (w_db w') (concat Ts'))"
  using step
proof (rule pool_stepE)
  fix i g c assume i: "i < length ps" "ps ! i = Act g c" and w': "w' = g w" "ps' = ps[i := c w]"
  from assms(3) i have "owing l Q (Act g c) (Ts ! i)" by (auto dest: list_all2_nthD)
  with assms(2) obtain T' where s: "w_handlers (g w) = w_handlers w" "booked l (Ts ! i) (w_db w) T' (w_db (g w))"
    "owing l Q (c w) T'" by auto
  have len: "i < length Ts" using assms(3) i(1) by (simp add: list_all2_lengthD)
  let ?U = "concat (take i Ts) @ concat (drop (Suc i) Ts)"
  have "mset (concat Ts) = mset (Ts ! i @ ?U)"
    by (subst id_take_nth_drop [OF len]) simp
  with assms(4) have "audit l (w_db w) (Ts ! i @ ?U)" by (metis audit_mset)
  from audit_booked [OF this s(2)] have "audit l (w_db w') (T' @ ?U)" by (simp add: w')
  moreover have "mset (concat (Ts[i := T'])) = mset (T' @ ?U)"
    by (simp add: upd_conv_take_nth_drop [OF len])
  ultimately have "audit l (w_db w') (concat (Ts[i := T']))" by (metis audit_mset)
  moreover have "list_all2 (owing l Q) ps' (Ts[i := T'])"
    unfolding w'(2) by (rule list_all2_update_cong [OF assms(3)]) (rule s(3))
  ultimately show ?thesis using s(1) w'(1) by blast
qed

lemma audit_steps:
  assumes "pool_step\<^sup>*\<^sup>* c c'"
    and J: "\<And>d. pool_step\<^sup>*\<^sup>* c d \<Longrightarrow> w_handlers (fst d) = w_handlers (fst c) \<Longrightarrow> serving (fst d)"
    and "\<forall>p \<in> set (snd c). owing l Q p []" "audit l (w_db (fst c)) []"
  shows "\<exists>Ts. list_all2 (owing l Q) (snd c') Ts \<and> audit l (w_db (fst c')) (concat Ts)"
proof -
  have "w_handlers (fst c') = w_handlers (fst c) \<and>
      (\<exists>Ts. list_all2 (owing l Q) (snd c') Ts \<and> audit l (w_db (fst c')) (concat Ts))"
    using assms(1)
  proof (induction rule: rtranclp_induct)
    case base
    have "list_all2 (owing l Q) (snd c) (replicate (length (snd c)) [])"
      using assms(3) by (simp add: list_all2_conv_all_nth)
    moreover have "concat (replicate n []) = []" for n by (induction n) simp_all
    ultimately show ?case using assms(4) by (intro conjI exI [of _ "replicate (length (snd c)) []"]) simp_all
  next
    case (step d e)
    then obtain Ts where Ts: "list_all2 (owing l Q) (snd d) Ts" "audit l (w_db (fst d)) (concat Ts)"
      and F: "w_handlers (fst d) = w_handlers (fst c)" by blast
    from step.hyps(2) have "pool_step (fst d, snd d) (fst e, snd e)" by simp
    from audit_step [OF this J [OF step.hyps(1) F] Ts] F show ?case by simp
  qed
  then show ?thesis ..
qed

end
