(* ===== verification/LogLead.thy ===== *)
theory LogLead
  imports Tickets
begin

text \<open>
  The event log and the read model. Every activity keeps the books of \<open>Tickets\<close>: only a publish
  issues a ticket, and it cashes it at once. So the read model is never ahead of the log, whatever
  is under way and whatever fails; and if no call fails, it has caught up with the log, to the last
  event and the last amount, whenever the activities have come to rest.
\<close>

section \<open>Calls that do not touch the books\<close>

lemma settles_services:
  "settles strict E (new_date E)" "settles strict E (uuidv4 E)" "settles strict E (getOrCreateQueue qn)"
  "settles strict E (RedisClient_get E key)" "settles strict E (RedisClient_set E key v ttl)"
  "settles strict E (queue_add E q name d opts)" "settles strict E (unbound E)"
  unfolding new_date_def uuidv4_def getOrCreateQueue_def RedisClient_get_def RedisClient_set_def queue_add_def unbound_def
  by (rule settles_act settles_remote; simp add: Let_def split: option.split)+

lemma settles_repositories:
  "settles strict E (PaymentRepository_create E d)" "settles strict E (PaymentRepository_findByOrderNumber E on)"
  "settles strict E (PaymentRepository_findByUserId E uid l off)"
  "settles strict E (PaymentRepository_updateStatus E on st extra)"
  "settles strict E (SubscriptionRepository_create E sd)"
  "settles strict E (SubscriptionRepository_findBySubscriptionId E sid)"
  "settles strict E (SubscriptionRepository_findActiveByUserId E uid)"
  "settles strict E (SubscriptionRepository_updateStatus E sid ss extra)"
  "settles strict E (SubscriptionRepository_renewSubscription E sid newEnd)"
  "settles strict E (SubscriptionRepository_findExpiredForRenewal E batch)"
  "settles strict E (EventStoreRepository_getLatestVersion E a)"
  "settles strict E (EventStoreRepository_findByAggregateId E a)"
  "settles strict E (EventStoreRepository_findByType E ty l off)"
  "settles strict E (EventStoreRepository_findRecent E l)"
  "settles strict E (getDailySummary E from_day to_day)" "settles strict E (getTotalStats E)"
  "settles strict E (no_row E)"
  unfolding repository_defs PaymentRepository_findByUserId_def EventStoreRepository_findByType_def
    EventStoreRepository_findRecent_def getDailySummary_def getTotalStats_def no_row_def
  by (rule settles_sql; auto simp: reading_def reading_page_def payment_insert_Inr subscription_insert_Inr
      dest: payment_update_keys subscription_update_keys subscription_renew_keys split: sum.splits)+

section \<open>A publish issues a ticket and cashes it\<close>

definition ticket_of_event :: "domain_event \<Rightarrow> ticket list" where
  "ticket_of_event ev = tickets_of (stored_row ev 0 0)"

lemma tickets_of_stored: "tickets_of (stored_row ev now n) = ticket_of_event ev"
  by (simp add: ticket_of_event_def tickets_of_def)

fun event_of_handler :: "handler_ref \<Rightarrow> event_type" where
  "event_of_handler OnPaymentCompleted = PAYMENT_COMPLETED"
| "event_of_handler OnPaymentRefunded = PAYMENT_REFUNDED"
| "event_of_handler OnPaymentFailed = PAYMENT_FAILED"

text \<open>A payload with an amount, if its event is one whose amount is counted.\<close>

definition priced :: "event_type \<Rightarrow> event_payload \<Rightarrow> bool" where
  "priced ty payload = (case ty of
     PAYMENT_COMPLETED \<Rightarrow> (case payload of PaymentCompletedPayload on tid a at \<Rightarrow> True | _ \<Rightarrow> False)
   | PAYMENT_REFUNDED \<Rightarrow> (case payload of PaymentRefundedPayload on a r at \<Rightarrow> True | _ \<Rightarrow> False)
   | _ \<Rightarrow> True)"

lemma owes_append:
  "owes strict E (\<lambda>_ T. T = ticket_of_event ev) (EventStoreRepository_append E ev) []"
  unfolding EventStoreRepository_append_def
proof (rule owes_sql)
  fix now db
  show "case event_insert ev now db of Inl e \<Rightarrow> booked (lossy strict E) [] db [] db
    | Inr (x, db') \<Rightarrow> \<exists>T'. booked (lossy strict E) [] db T' db' \<and> T' = ticket_of_event ev"
  proof (cases "event_insert ev now db")
    case (Inl e)
    then show ?thesis by (simp add: booked_idle)
  next
    case (Inr x)
    obtain n db' where x: "x = (n, db')" by (cases x)
    with Inr have "event_store db' = event_store db @ [stored_row ev now n]" "payment_summary db' = payment_summary db"
      by (simp_all add: event_insert_Inr)
    from books.issue [OF this, of "[]"] Inr x show ?thesis by (simp add: booked_def tickets_of_stored)
  qed
qed

lemma cashedI:
  assumes "event_store db' = event_store db" "upsert_of t ins upd"
    and "payment_summary db' = (case summary_upsert ins upd now db of
         Inl e \<Rightarrow> payment_summary db | Inr (u, db'') \<Rightarrow> payment_summary db'')"
  shows "cashed t db db'"
  using assms unfolding cashed_def by blast

lemma owes_cash:
  assumes "\<And>now db. \<exists>ins upd. upsert_of t ins upd \<and> st now db = summary_upsert ins upd now db"
  shows "owes strict E (\<lambda>_ T. T = []) (sql E (\<lambda>_. st)) [t]"
proof (rule owes_sql)
  fix now db
  from assms obtain ins upd where t: "upsert_of t ins upd" and st: "st now db = summary_upsert ins upd now db" by blast
  have cash: "booked (lossy strict E) [t] db [] db'" if "cashed t db db'" for db'
    using that unfolding booked_def by (blast intro: books.cash)
  show "case st now db of Inl e \<Rightarrow> booked (lossy strict E) [t] db [] db
    | Inr (x, db') \<Rightarrow> \<exists>T'. booked (lossy strict E) [t] db T' db' \<and> T' = []"
  proof (cases "summary_upsert ins upd now db")
    case (Inl e)
    have "cashed t db db" by (rule cashedI [OF refl t, where now = now]) (simp add: Inl)
    with cash show ?thesis by (simp add: st Inl)
  next
    case (Inr x)
    obtain u db' where x: "x = (u, db')" by (cases x)
    from summary_upsert_frame(3) Inr x have log: "event_store db' = event_store db" by blast
    have "cashed t db db'" by (rule cashedI [OF log t, where now = now]) (simp add: Inr x)
    with cash show ?thesis by (simp add: st Inr x)
  qed
qed

lemma owes_lost: "owing True (\<lambda>_ T. T = []) (unbound E) T"
proof -
  have "owes False E (\<lambda>_ T. T = []) (unbound E) T"
    unfolding unbound_def by (rule owes_remote) (auto simp: booked_def lossy_False intro: books.idle)
  then show ?thesis by (simp add: lossy_False)
qed

lemma owes_projector:
  assumes "strict \<longrightarrow> priced (e_type ev) (e_payload ev)" "e_type ev = event_of_handler h"
  shows "owes strict E (\<lambda>_ T. T = []) (projector_exec E h ev) (ticket_of_event ev)"
proof (cases h)
  case OnPaymentCompleted
  show ?thesis
  proof (cases "priced (e_type ev) (e_payload ev)")
    case True
    with OnPaymentCompleted assms(2) obtain on tid a at where
      p: "e_payload ev = PaymentCompletedPayload on tid a at" by (auto simp: priced_def split: event_payload.splits)
    have "ticket_of_event ev = [(OnPaymentCompleted, a)]"
      using OnPaymentCompleted assms(2) p by (simp add: ticket_of_event_def tickets_of_def payload_amount_def)
    moreover have "owes strict E (\<lambda>_ T. T = []) (sql E (\<lambda>_. upsert_completed d a)) [(OnPaymentCompleted, a)]" for d
      by (rule owes_cash) (auto simp: upsert_of_def upsert_completed_def)
    ultimately show ?thesis using OnPaymentCompleted p by (simp add: onPaymentCompleted_def)
  next
    case False
    with assms(1) have "lossy strict E" by (auto simp: lossy_def)
    with False OnPaymentCompleted assms(2) show ?thesis
      by (auto simp: onPaymentCompleted_def priced_def owes_lost split: event_payload.splits)
  qed
next
  case OnPaymentRefunded
  show ?thesis
  proof (cases "priced (e_type ev) (e_payload ev)")
    case True
    with OnPaymentRefunded assms(2) obtain on a r at where
      p: "e_payload ev = PaymentRefundedPayload on a r at" by (auto simp: priced_def split: event_payload.splits)
    have "ticket_of_event ev = [(OnPaymentRefunded, a)]"
      using OnPaymentRefunded assms(2) p by (simp add: ticket_of_event_def tickets_of_def payload_amount_def)
    moreover have "owes strict E (\<lambda>_ T. T = []) (sql E (\<lambda>_. upsert_refunded d a)) [(OnPaymentRefunded, a)]" for d
      by (rule owes_cash) (auto simp: upsert_of_def upsert_refunded_def)
    ultimately show ?thesis using OnPaymentRefunded p by (simp add: onPaymentRefunded_def)
  next
    case False
    with assms(1) have "lossy strict E" by (auto simp: lossy_def)
    with False OnPaymentRefunded assms(2) show ?thesis
      by (auto simp: onPaymentRefunded_def priced_def owes_lost split: event_payload.splits)
  qed
next
  case OnPaymentFailed
  let ?t = "(OnPaymentFailed, 0)"
  have t: "ticket_of_event ev = [?t]"
    using OnPaymentFailed assms(2) by (simp add: ticket_of_event_def tickets_of_def)
  have date: "owes strict E (\<lambda>now T. T = [?t] \<and> (\<exists>n. now = clock E n)) (new_date E) [?t]"
    unfolding new_date_def by (rule owing_act) (auto intro: booked_idle)
  have insert: "owes strict E (\<lambda>_ T. T = []) (sql E (\<lambda>_. upsert_failed s)) [?t]"
    if "sql_parse_date s = Some d" for s d
    by (rule owes_cash) (auto simp: upsert_of_def upsert_failed_def that)
  have refuse: "owes strict E (\<lambda>_ T. T = []) (sql E (\<lambda>_. upsert_failed s)) [?t]"
    if "sql_parse_date s = None" "lossy strict E" for s
    by (rule owes_sql) (use that in \<open>auto simp: upsert_failed_def booked_def intro: books.idle\<close>)
  have parse: "sql_parse_date (split_first CHR ''T'' (to_iso_string (clock E n))) \<noteq> None" if "\<not> lossy strict E" for n
    using that parse_split_iso [of "clock E n"] by (simp add: lossy_def clocks_ok_def)
  have "owes strict E (\<lambda>_ T. T = []) (sql E (\<lambda>_. upsert_failed (split_first CHR ''T'' (to_iso_string (clock E n))))) [?t]" for n
    using parse [of n] insert refuse by blast
  with OnPaymentFailed show ?thesis
    unfolding t by (auto simp: onPaymentFailed_def Let_def intro!: owing_seq [OF date])
qed

lemma booted_handlers_of:
  assumes "w_handlers w = w_handlers booted"
  shows "handlers_of ty w = (case ty of PAYMENT_COMPLETED \<Rightarrow> [OnPaymentCompleted]
     | PAYMENT_REFUNDED \<Rightarrow> [OnPaymentRefunded] | PAYMENT_FAILED \<Rightarrow> [OnPaymentFailed] | _ \<Rightarrow> [])"
  using booted_handlers [of ty] assms by (simp add: handlers_of_def)

lemma owes_settled:
  assumes "strict \<longrightarrow> priced (e_type ev) (e_payload ev)"
    and "hs = (case e_type ev of PAYMENT_COMPLETED \<Rightarrow> [OnPaymentCompleted]
     | PAYMENT_REFUNDED \<Rightarrow> [OnPaymentRefunded] | PAYMENT_FAILED \<Rightarrow> [OnPaymentFailed] | _ \<Rightarrow> [])"
  shows "owes strict E (\<lambda>_ T. T = []) (all_settled (map (\<lambda>h. projector_exec E h ev) hs)) (ticket_of_event ev)"
proof (cases "\<exists>h. hs = [h] \<and> e_type ev = event_of_handler h")
  case True
  then obtain h where h: "hs = [h]" "e_type ev = event_of_handler h" by blast
  have "owes strict E (\<lambda>_ T. T = []) (catch (projector_exec E h ev) (\<lambda>_. Done ())) (ticket_of_event ev)"
    by (rule owing_catch [OF owes_projector [OF assms(1) h(2)]]) simp
  then show ?thesis unfolding h(1) by (auto intro: owing_seq)
next
  case False
  then have "hs = [] \<and> e_type ev \<noteq> PAYMENT_COMPLETED \<and> e_type ev \<noteq> PAYMENT_REFUNDED \<and> e_type ev \<noteq> PAYMENT_FAILED"
    unfolding assms(2) by (cases "e_type ev") simp_all
  then have "hs = []" "ticket_of_event ev = []"
    by (auto simp: ticket_of_event_def tickets_of_def) (cases "e_type ev"; simp)+
  then show ?thesis by simp
qed

lemma settles_publish:
  assumes "strict \<longrightarrow> priced ty payload"
  shows "settles strict E (publish E ty a aty payload)"
  unfolding EventBus_publish_def Let_def
proof (rule settles_seq [OF settles_repositories(11)], rule settles_seq [OF settles_services(2)],
    rule settles_seq [OF settles_services(1)])
  fix latest eid now
  let ?ev = "\<lparr>e_id = eid, e_type = ty, e_aggregateId = a, e_aggregateType = aty, e_payload = payload,
    e_occurredAt = now, e_version = latest + 1\<rparr>"
  let ?hs = "case ty of PAYMENT_COMPLETED \<Rightarrow> [OnPaymentCompleted]
     | PAYMENT_REFUNDED \<Rightarrow> [OnPaymentRefunded] | PAYMENT_FAILED \<Rightarrow> [OnPaymentFailed] | _ \<Rightarrow> []"
  have hs: "owes strict E (\<lambda>hs T. hs = ?hs \<and> T = ticket_of_event ?ev) (act (\<lambda>w. (Inr (handlers_of ty w), w))) (ticket_of_event ?ev)"
    by (rule owing_act) (auto simp: serving_def booted_handlers_of intro: booked_idle)
  have settled: "owes strict E (\<lambda>_ T. T = []) (all_settled (map (\<lambda>h. projector_exec E h ?ev) ?hs)) (ticket_of_event ?ev)"
    by (rule owes_settled) (simp_all add: assms)
  show "settles strict E (seq (EventStoreRepository_append E ?ev) (\<lambda>_.
      seq (act (\<lambda>w. (Inr (handlers_of ty w), w))) (\<lambda>hs.
      seq (all_settled (map (\<lambda>h. projector_exec E h ?ev) hs)) (\<lambda>_. Done ?ev))))"
    by (rule owing_seq [OF owes_append], simp, rule owing_seq [OF hs], clarify, rule owing_seq [OF settled]) simp
qed

lemmas settles_rules = settles_seq settles_basic settles_repositories settles_services settles_publish

section \<open>Every activity\<close>

lemma settles_operations:
  "settles strict E (createPayment E creq)" "settles strict E (completePayment E req)"
  "settles strict E (failPayment E on reason)" "settles strict E (refundPayment E rreq)"
  "settles strict E (getPayment E on)" "settles strict E (getUserPayments E uid l off)"
  "settles strict E (createSubscription E sreq)" "settles strict E (cancelSubscription E sid reason)"
  "settles strict E (getSubscription E sid)" "settles strict E (getActiveSubscription E uid)"
  unfolding createPayment_def completePayment_def failPayment_def refundPayment_def getPayment_def getUserPayments_def
    createSubscription_def cancelSubscription_def getSubscription_def getActiveSubscription_def Let_def
  by (auto simp: priced_def intro!: settles_rules split: option.split)

lemma settles_fields:
  "settles strict E (createPayment_fields E f)" "settles strict E (refundPayment_fields E on f)"
  "settles strict E (createSubscription_fields E f)" "settles strict E (cancelSubscription_fields E sid f)"
  "strict \<longrightarrow> rq_paidAmount f \<noteq> None \<Longrightarrow> settles strict E (completePayment_fields E f)"
  unfolding request_defs
  by (auto simp: priced_def intro!: settles_operations settles_rules split: option.split)

lemma settles_or_next: "settles strict E m \<Longrightarrow> settles strict E (or_next m)"
  unfolding or_next_def by (intro settles_catch) simp_all

text \<open>The activities that complete no payment without an amount.\<close>

definition priced_activity :: "activity \<Rightarrow> bool" where
  "priced_activity a = (case a of
     Request EP_completePayment q (JsonBody f) \<Rightarrow> rq_paidAmount f \<noteq> None | _ \<Rightarrow> True)"

lemma settles_serve:
  assumes "strict \<longrightarrow> priced_activity (Request ep q b)"
  shows "settles strict E (serve E ep q b)"
  using assms
  by (cases ep; cases b)
    (auto simp: writer_defs reader_defs reply_def priced_activity_def
      intro!: settles_or_next settles_seq settles_fields settles_operations settles_rules)

lemma settles_enqueue: "settles strict E (enqueue_renewals E q ss)"
  by (induction ss) (auto simp: Let_def intro!: settles_rules)

lemma settles_renewal: "settles strict E (processRenewal E job)"
  unfolding processRenewal_def scanAndEnqueueExpired_def renew_body_def on_renewal_error_def Let_def
  by (auto simp: priced_def intro!: settles_rules settles_catch settles_operations settles_enqueue split: option.split)

lemma settles_close: "settles strict E (close_from E handles i n)"
  by (induction n arbitrary: i)
    (auto simp: close_handle_def intro!: settles_rules settles_remote settles_act split: option.split)

lemma settles_closeAll: "settles strict E (closeAll E)"
  unfolding closeAll_def by (intro settles_seq settles_close)

lemma settles_start: "settles strict E (Autopay_start E)"
  unfolding Autopay_start_def by (intro settles_rules) (auto simp: createWorker_def Let_def intro!: settles_act)

lemma settles_activity:
  assumes "a \<noteq> StartServer" "strict \<longrightarrow> priced_activity a"
  shows "settles strict E (activity_prog E a)"
  using assms
  by (cases a) (auto simp: finishing_def processDeadLetter_def
      intro!: settles_rules settles_operations settles_serve settles_renewal settles_closeAll)

lemma start_registers:
  "run_schedule (0 # s) (pool E (StartServer # as)) =
    run_schedule s (booted, finishing (Autopay_start E) # map (activity_prog E) as)"
  by (simp add: pool_def finishing_def startServer_def act_def booted_def)

lemma pool_audit:
  assumes "StartServer \<notin> set as" "strict \<longrightarrow> list_all priced_activity as"
    and "c = run_schedule (0 # s) (pool E (StartServer # as))"
  shows "\<exists>Ts. list_all2 (owes strict E (\<lambda>_ T. T = [])) (snd c) Ts \<and> audit (lossy strict E) (w_db (fst c)) (concat Ts)"
proof -
  let ?c = "(booted, finishing (Autopay_start E) # map (activity_prog E) as)"
  have settles: "\<forall>p \<in> set (snd ?c). settles strict E p"
    using assms(1,2) by (auto simp: finishing_def list_all_iff intro!: settles_seq settles_start settles_basic settles_activity)
  have serving: "serving (fst d)" if d: "pool_step\<^sup>*\<^sup>* ?c d" "w_handlers (fst d) = w_handlers (fst ?c)" for d
  proof -
    have "pool_step\<^sup>*\<^sup>* (pool E (StartServer # as)) ?c"
      using run_schedule_pool [of "pool E (StartServer # as)" "[0]"] start_registers [of "[]"] by simp
    from rtranclp_trans [OF this d(1)] have "world_inv (fst d)" using pool_safe(1) [of E "StartServer # as" "fst d" "snd d"] by simp
    with d(2) show ?thesis by (simp add: serving_def)
  qed
  have "audit (lossy strict E) (w_db (fst ?c)) []"
    by (auto simp: audit_def covered_def balanced_def table_sum_def log_tickets_def)
  from audit_steps [OF run_schedule_pool serving settles this, of s] show ?thesis
    by (simp add: assms(3) start_registers)
qed

section \<open>The log and the read model\<close>

definition logged :: "event_type \<Rightarrow> database \<Rightarrow> int" where
  "logged ty db = int (length (filter (\<lambda>r. se_eventType r = event_type_str ty) (event_store db)))"

text \<open>The sum of a member over the stored payloads of a type; a payload without the member counts 0.\<close>

definition logged_sum :: "event_type \<Rightarrow> string \<Rightarrow> database \<Rightarrow> money" where
  "logged_sum ty key db = sum_list (map (\<lambda>r. payload_amount key (se_payload r))
     (filter (\<lambda>r. se_eventType r = event_type_str ty) (event_store db)))"

lemma logged_tickets:
  "tally (number OnPaymentCompleted) (log_tickets db) = logged PAYMENT_COMPLETED db"
  "tally (number OnPaymentRefunded) (log_tickets db) = logged PAYMENT_REFUNDED db"
  "tally (number OnPaymentFailed) (log_tickets db) = logged PAYMENT_FAILED db"
  "tally (amount OnPaymentCompleted) (log_tickets db) = logged_sum PAYMENT_COMPLETED ''paidAmount'' db"
  "tally (amount OnPaymentRefunded) (log_tickets db) = logged_sum PAYMENT_REFUNDED ''refundAmount'' db"
proof -
  have "tally g (concat (map tickets_of rs)) = sum_list (map (\<lambda>r. tally g (tickets_of r)) rs)" for g rs
    by (induction rs) simp_all
  note sums = this [of _ "event_store db", folded log_tickets_def]
  have count: "int (length (filter P rs)) = sum_list (map (\<lambda>r. if P r then 1 else 0) rs)" for P and rs :: "stored_event list"
    by (induction rs) simp_all
  have part: "sum_list (map f (filter P rs)) = sum_list (map (\<lambda>r. if P r then f r else (0 :: int)) rs)"
    for P f and rs :: "stored_event list" by (induction rs) simp_all
  show "tally (number OnPaymentCompleted) (log_tickets db) = logged PAYMENT_COMPLETED db"
    "tally (number OnPaymentRefunded) (log_tickets db) = logged PAYMENT_REFUNDED db"
    "tally (number OnPaymentFailed) (log_tickets db) = logged PAYMENT_FAILED db"
    "tally (amount OnPaymentCompleted) (log_tickets db) = logged_sum PAYMENT_COMPLETED ''paidAmount'' db"
    "tally (amount OnPaymentRefunded) (log_tickets db) = logged_sum PAYMENT_REFUNDED ''refundAmount'' db"
    unfolding logged_def logged_sum_def count part sums
    by (rule arg_cong [where f = sum_list], rule map_cong [OF refl], simp add: tickets_of_def number_def amount_def)+
qed

text \<open>
  C16: The read model is never ahead of the event log. Once the server has started, whatever
  requests and jobs are under way, however they interleave and whichever calls fail, the summary
  table has counted at most as many successes, refunds and failures as the log holds events of
  completed, refunded and failed payments.
\<close>

theorem read_model_never_ahead:
  assumes "StartServer \<notin> set as" "w = fst (run_schedule (0 # s) (pool E (StartServer # as)))"
  shows "table_sum sm_successfulTransactions (w_db w) \<le> logged PAYMENT_COMPLETED (w_db w) \<and>
    table_sum sm_refundCount (w_db w) \<le> logged PAYMENT_REFUNDED (w_db w) \<and>
    table_sum sm_failedTransactions (w_db w) \<le> logged PAYMENT_FAILED (w_db w)"
proof -
  from pool_audit [OF assms(1) _ refl, where strict = False and s = s and E = E] obtain T where cov: "covered (w_db w) T"
    unfolding assms(2) audit_def by auto
  have le: "table_sum f (w_db w) \<le> tally (number h) (log_tickets (w_db w))"
    if "(f, \<lambda>t. \<bar>number h t\<bar>) \<in> set bound_columns" for f h
  proof -
    have "table_sum (\<lambda>r. \<bar>f r\<bar>) (w_db w) + tally (\<lambda>t. \<bar>number h t\<bar>) T \<le> tally (\<lambda>t. \<bar>number h t\<bar>) (log_tickets (w_db w))"
      using cov that unfolding covered_def by blast
    moreover have "0 \<le> tally (\<lambda>t. \<bar>number h t\<bar>) T" by (rule tally_nonneg) simp
    moreover have "table_sum f (w_db w) \<le> table_sum (\<lambda>r. \<bar>f r\<bar>) (w_db w)"
      unfolding table_sum_def by (rule sum_list_mono) simp
    moreover have "(\<lambda>t. \<bar>number h t\<bar>) = number h" by (simp add: number_def fun_eq_iff)
    ultimately show ?thesis by simp
  qed
  from le [of sm_successfulTransactions OnPaymentCompleted] le [of sm_refundCount OnPaymentRefunded]
    le [of sm_failedTransactions OnPaymentFailed]
  show ?thesis by (simp add: bound_columns_def exact_columns_def logged_tickets)
qed

lemma read_model_never_ahead_witness:
  "table_sum sm_successfulTransactions (w_db (fst (run_schedule (0 # replicate 9 1) (pool calm
      [StartServer, Request EP_createPayment (\<lambda>_. None) (CreatePaymentBody sample_request)])))) \<le>
    logged PAYMENT_COMPLETED (w_db (fst (run_schedule (0 # replicate 9 1) (pool calm
      [StartServer, Request EP_createPayment (\<lambda>_. None) (CreatePaymentBody sample_request)]))))"
proof -
  have "StartServer \<notin> set [Request EP_createPayment (\<lambda>_. None) (CreatePaymentBody sample_request)]" by simp
  from read_model_never_ahead [OF this refl, of "replicate 9 1" calm] show ?thesis by blast
qed

text \<open>
  C17: The read model catches up with the log. If no remote call fails, the clock stays within the years
  0 to 9999, no request completes a payment without an amount, and the log is small enough for its
  sums to fit the columns, then, however the activities have interleaved, once all of them have
  come to their end the table holds exactly what the log holds: its successes, refunds and failures
  are the numbers of the events, and its revenue and refunds the sums of their amounts.
\<close>

theorem read_model_catches_up:
  assumes "reliable E" "clocks_ok E" "StartServer \<notin> set as" "list_all priced_activity as"
    and "c = run_schedule (0 # s) (pool E (StartServer # as))" "list_all finished (snd c)"
    and "db = w_db (fst c)" "log_small db"
  shows "table_sum sm_successfulTransactions db = logged PAYMENT_COMPLETED db \<and>
    table_sum sm_refundCount db = logged PAYMENT_REFUNDED db \<and>
    table_sum sm_failedTransactions db = logged PAYMENT_FAILED db \<and>
    table_sum sm_totalRevenue db = logged_sum PAYMENT_COMPLETED ''paidAmount'' db \<and>
    table_sum sm_totalRefunds db = logged_sum PAYMENT_REFUNDED ''refundAmount'' db"
proof -
  have exact: "\<not> lossy True E" using assms(1,2) by (simp add: lossy_def)
  from pool_audit [OF assms(3) _ assms(5), where strict = True] assms(4) obtain Ts where
    Ts: "list_all2 (owes True E (\<lambda>_ T. T = [])) (snd c) Ts" "audit (lossy True E) db (concat Ts)"
    by (auto simp: assms(7))
  have "T = []" if "T \<in> set Ts" for T
  proof -
    from that obtain i where i: "i < length Ts" "T = Ts ! i" by (auto simp: in_set_conv_nth)
    with Ts(1) assms(6) have "owes True E (\<lambda>_ T. T = []) (snd c ! i) T" "finished (snd c ! i)"
      by (auto dest: list_all2_nthD2 list_all2_lengthD simp: list_all_length)
    then show ?thesis by (auto simp: finished_iff)
  qed
  then have "concat Ts = []" by simp
  with Ts(2) exact assms(8) have "balanced db []" by (simp add: audit_def)
  then show ?thesis by (simp add: balanced_def exact_columns_def logged_tickets)
qed

text \<open>A payment that is created and completed.\<close>

definition sample_activities :: "activity list" where
  "sample_activities =
     [Request EP_createPayment (\<lambda>_. None) (CreatePaymentBody sample_request),
      Request EP_completePayment (\<lambda>_. None) (CompletePaymentBody
        \<lparr>co_orderNumber = ''ORD-0-uu'', co_transactionId = ''T1'', co_paidAmount = 500\<rparr>)]"

definition sample_rest :: "world \<times> outcome io list" where
  "sample_rest = run_schedule (0 # replicate 5 0 @ replicate 15 1 @ replicate 15 2)
     (pool calm (StartServer # sample_activities))"

lemma read_model_catches_up_witness:
  "table_sum sm_totalRevenue (w_db (fst sample_rest)) = 500 \<and>
    logged_sum PAYMENT_COMPLETED ''paidAmount'' (w_db (fst sample_rest)) = 500 \<and>
    logged PAYMENT_COMPLETED (w_db (fst sample_rest)) = 1"
proof -
  have "0 \<le> get_full_year 0 0 \<and> get_full_year 0 0 \<le> 9999" by code_simp
  then have clocks: "clocks_ok calm" by (simp add: clocks_ok_def)
  have acts: "StartServer \<notin> set sample_activities" "list_all priced_activity sample_activities"
    by (simp_all add: sample_activities_def priced_activity_def body_defs complete_fields_def)
  have ended: "list_all finished (snd sample_rest)" by code_simp
  have tickets: "log_tickets (w_db (fst sample_rest)) = [(OnPaymentCompleted, 500)]" by code_simp
  have small: "log_small (w_db (fst sample_rest))" by (simp add: log_small_def tickets amount_def)
  from read_model_catches_up [OF calm_reliable clocks acts sample_rest_def ended refl small] show ?thesis
    by (simp add: tickets number_def amount_def flip: logged_tickets)
qed

end
