(* ===== verification/Client.thy ===== *)
theory Client
  imports HttpLaws
begin

text \<open>
  \<open>dashboard/lib/api.ts\<close>: the calls of the dashboard to the service. A call builds a path from
  its arguments, without escaping them, and passes it to \<open>fetcher\<close>, which sends it, reads the
  answer as JSON and returns its \<open>data\<close> or throws its error message. Between the two lie the
  browser and Express, a parameter (\<open>client_env\<close>): how a URL is split into path segments and query,
  and whether a request or its answer is lost. JSON itself is left out: \<open>data\<close> is the value the controller sent.
\<close>

section \<open>Requests\<close>

record http_request =
  hr_method :: http_method
  hr_path :: string
  hr_body :: request_body

datatype http_reply = Json response | NotJson

datatype delivery = Delivered | NotDelivered string | AnswerLost string

record client_env =
  cl_base :: string
  cl_url :: "string \<Rightarrow> string list \<times> query"
  cl_delivery :: "nat \<Rightarrow> delivery"
  cl_parse_error :: string
  cl_type_error :: string
  cl_pick :: "nat \<Rightarrow> bool"

text \<open>The service, as the dashboard sees it: a request without a route gets Express's HTML page.\<close>

definition server :: "env \<Rightarrow> client_env \<Rightarrow> http_method \<Rightarrow> string \<Rightarrow> request_body \<Rightarrow> http_reply io" where
  "server E N m url body =
     (let (path, q) = cl_url N url in
      case route m path of
        None \<Rightarrow> Done NotJson
      | Some ep \<Rightarrow>
          seq (serve E ep q body) (\<lambda>rs. Done (Json rs)))"

definition exchange :: "client_env \<Rightarrow> http_reply io \<Rightarrow> http_reply io" where
  "exchange N p =
     seq (act (\<lambda>w. (Inr (cl_delivery N (w_tick w)), tick w))) (\<lambda>d.
     case d of
       Delivered \<Rightarrow> p
     | NotDelivered m \<Rightarrow> Fail (PlainError m)
     | AnswerLost m \<Rightarrow> seq p (\<lambda>_. Fail (PlainError m)))"

section \<open>\<open>fetcher\<close>\<close>

text \<open>\<open>json.data\<close> and \<open>json.error?.message || 'API Error'\<close>.\<close>

definition json_data :: "response \<Rightarrow> response_data" where
  "json_data rs = (case rs_body rs of Success (HealthData t) \<Rightarrow> NoData | Success d \<Rightarrow> d | Failure code m \<Rightarrow> NoData)"

definition error_message :: "response \<Rightarrow> string" where
  "error_message rs =
     (case rs_body rs of
        Success d \<Rightarrow> ''API Error''
      | Failure code m \<Rightarrow> if m = '''' then ''API Error'' else m)"

definition unwrap :: "client_env \<Rightarrow> http_reply \<Rightarrow> response_data io" where
  "unwrap N r =
     (case r of
        NotJson \<Rightarrow> Fail (PlainError (cl_parse_error N))
      | Json rs \<Rightarrow>
          if \<not> (200 \<le> rs_status rs \<and> rs_status rs < 300) then Fail (PlainError (error_message rs))
          else Done (json_data rs))"

definition fetcher :: "env \<Rightarrow> client_env \<Rightarrow> http_request \<Rightarrow> response_data io" where
  "fetcher E N rq =
     seq (exchange N (server E N (hr_method rq) (cl_base N @ hr_path rq) (hr_body rq))) (unwrap N)"

section \<open>\<open>api\<close>\<close>

definition api_createPayment :: "env \<Rightarrow> client_env \<Rightarrow> string \<Rightarrow> string \<Rightarrow> money \<Rightarrow> response_data io" where
  "api_createPayment E N userId productId amount =
     fetcher E N \<lparr>hr_method = POST, hr_path = ''/api/v1/payments'', hr_body = CreatePaymentBody
       \<lparr>cp_userId = userId, cp_productId = productId, cp_amount = amount, cp_currency = None\<rparr>\<rparr>"

definition api_completePayment :: "env \<Rightarrow> client_env \<Rightarrow> complete_payment_request \<Rightarrow> response_data io" where
  "api_completePayment E N d =
     fetcher E N \<lparr>hr_method = POST, hr_path = ''/api/v1/payments/complete'', hr_body = CompletePaymentBody d\<rparr>"

definition api_getPayment :: "env \<Rightarrow> client_env \<Rightarrow> string \<Rightarrow> response_data io" where
  "api_getPayment E N orderNumber =
     fetcher E N \<lparr>hr_method = GET, hr_path = ''/api/v1/payments/'' @ orderNumber, hr_body = NoBody\<rparr>"

definition api_getUserPayments :: "env \<Rightarrow> client_env \<Rightarrow> string \<Rightarrow> response_data io" where
  "api_getUserPayments E N userId =
     fetcher E N \<lparr>hr_method = GET, hr_path = ''/api/v1/users/'' @ userId @ ''/payments'', hr_body = NoBody\<rparr>"

definition api_refundPayment :: "env \<Rightarrow> client_env \<Rightarrow> string \<Rightarrow> money \<Rightarrow> string \<Rightarrow> response_data io" where
  "api_refundPayment E N orderNumber refundAmount reason =
     fetcher E N \<lparr>hr_method = POST, hr_path = ''/api/v1/payments/'' @ orderNumber @ ''/refund'',
       hr_body = RefundBody refundAmount reason\<rparr>"

definition api_createSubscription :: "env \<Rightarrow> client_env \<Rightarrow> create_subscription_request \<Rightarrow> response_data io" where
  "api_createSubscription E N d =
     fetcher E N \<lparr>hr_method = POST, hr_path = ''/api/v1/subscriptions'', hr_body = CreateSubscriptionBody d\<rparr>"

definition api_cancelSubscription :: "env \<Rightarrow> client_env \<Rightarrow> string \<Rightarrow> string \<Rightarrow> response_data io" where
  "api_cancelSubscription E N i reason =
     fetcher E N \<lparr>hr_method = POST, hr_path = ''/api/v1/subscriptions/'' @ i @ ''/cancel'',
       hr_body = CancelBody reason\<rparr>"

definition api_getSubscription :: "env \<Rightarrow> client_env \<Rightarrow> string \<Rightarrow> response_data io" where
  "api_getSubscription E N i =
     fetcher E N \<lparr>hr_method = GET, hr_path = ''/api/v1/subscriptions/'' @ i, hr_body = NoBody\<rparr>"

definition api_getRecentEvents :: "env \<Rightarrow> client_env \<Rightarrow> int option \<Rightarrow> response_data io" where
  "api_getRecentEvents E N limit =
     fetcher E N \<lparr>hr_method = GET,
       hr_path = ''/api/v1/events/recent?limit='' @ show_int (case limit of None \<Rightarrow> 50 | Some l \<Rightarrow> l),
       hr_body = NoBody\<rparr>"

definition api_getEventsByAggregate :: "env \<Rightarrow> client_env \<Rightarrow> string \<Rightarrow> response_data io" where
  "api_getEventsByAggregate E N aggregateId =
     fetcher E N \<lparr>hr_method = GET, hr_path = ''/api/v1/events/aggregate/'' @ aggregateId, hr_body = NoBody\<rparr>"

definition api_getDailySummary :: "env \<Rightarrow> client_env \<Rightarrow> string \<Rightarrow> string \<Rightarrow> response_data io" where
  "api_getDailySummary E N startDate endDate =
     fetcher E N \<lparr>hr_method = GET,
       hr_path = ''/api/v1/stats/daily?startDate='' @ startDate @ ''&endDate='' @ endDate, hr_body = NoBody\<rparr>"

definition api_getTotalStats :: "env \<Rightarrow> client_env \<Rightarrow> response_data io" where
  "api_getTotalStats E N = fetcher E N \<lparr>hr_method = GET, hr_path = ''/api/v1/stats/total'', hr_body = NoBody\<rparr>"

lemmas api_defs = api_createPayment_def api_completePayment_def api_getPayment_def api_getUserPayments_def
  api_refundPayment_def api_createSubscription_def api_cancelSubscription_def api_getSubscription_def
  api_getRecentEvents_def api_getEventsByAggregate_def api_getDailySummary_def api_getTotalStats_def

section \<open>URLs\<close>

text \<open>
  Characters that a URL carries as they are. \<open>url_ok\<close> is the documented behaviour of the browser and
  of Express on them: a path made of such segments, none of them empty, \<open>.\<close> or \<open>..\<close>, arrives as
  these segments, and the parameters of the query arrive as they were written.
\<close>

definition unreserved :: "char \<Rightarrow> bool" where
  "unreserved c =
     (let n = of_char c :: int in
      48 \<le> n \<and> n \<le> 57 \<or> 65 \<le> n \<and> n \<le> 90 \<or> 97 \<le> n \<and> n \<le> 122 \<or> n \<in> {45, 46, 95, 126})"

definition url_text :: "string \<Rightarrow> bool" where
  "url_text s = list_all unreserved s"

definition url_segment :: "string \<Rightarrow> bool" where
  "url_segment s \<longleftrightarrow> url_text s \<and> s \<noteq> '''' \<and> s \<noteq> ''.'' \<and> s \<noteq> ''..''"

definition write_path :: "string list \<Rightarrow> string" where
  "write_path ss = concat (map (\<lambda>s. CHR ''/'' # s) ss)"

definition write_query :: "(string \<times> string) list \<Rightarrow> string" where
  "write_query kvs =
     (case kvs of [] \<Rightarrow> ''''
      | (k, v) # r \<Rightarrow> ''?'' @ k @ ''='' @ v @ concat (map (\<lambda>(k, v). CHR ''&'' # k @ ''='' @ v) r))"

definition url_ok :: "client_env \<Rightarrow> bool" where
  "url_ok N \<longleftrightarrow> (\<forall>ss kvs. list_all url_segment ss \<longrightarrow> ss \<noteq> [] \<longrightarrow> distinct (map fst kvs) \<longrightarrow>
     list_all (\<lambda>(k, v). url_text k \<and> url_text v) kvs \<longrightarrow>
     cl_url N (cl_base N @ write_path ss @ write_query kvs) = (ss, map_of kvs))"

lemma url_okD:
  assumes "url_ok N" "list_all url_segment ss" "ss \<noteq> []" "distinct (map fst kvs)"
    "list_all (\<lambda>(k, v). url_text k \<and> url_text v) kvs"
  shows "cl_url N (cl_base N @ write_path ss @ write_query kvs) = (ss, map_of kvs)"
  using assms unfolding url_ok_def by blast

text \<open>A splitter with this behaviour.\<close>

fun split_at :: "char \<Rightarrow> string \<Rightarrow> string list" where
  "split_at c [] = [[]]"
| "split_at c (x # xs) =
     (if x = c then [] # split_at c xs
      else (case split_at c xs of [] \<Rightarrow> [[x]] | y # ys \<Rightarrow> (x # y) # ys))"

definition split_url :: "string \<Rightarrow> string list \<times> query" where
  "split_url s =
     (let path = takeWhile (\<lambda>c. c \<noteq> CHR ''?'') s;
          rest = drop 1 (dropWhile (\<lambda>c. c \<noteq> CHR ''?'') s)
      in (drop 1 (split_at CHR ''/'' path),
          if rest = [] then Map.empty
          else map_of (map (\<lambda>kv. (takeWhile (\<lambda>c. c \<noteq> CHR ''='') kv,
            drop 1 (dropWhile (\<lambda>c. c \<noteq> CHR ''='') kv))) (split_at CHR ''&'' rest))))"

definition web :: "(nat \<Rightarrow> delivery) \<Rightarrow> client_env" where
  "web d = \<lparr>cl_base = '''', cl_url = split_url, cl_delivery = d,
     cl_parse_error = ''Unexpected token <'', cl_type_error = ''Cannot read properties of undefined'', cl_pick = (\<lambda>n. even n)\<rparr>"

lemma split_at_join: "c \<notin> set y \<Longrightarrow> \<forall>s \<in> set ss. c \<notin> set s \<Longrightarrow> split_at c (y @ concat (map ((#) c) ss)) = y # ss"
proof (induction ss arbitrary: y)
  case Nil
  then show ?case by (induction y) auto
next
  case (Cons s ss)
  then have IH: "split_at c (s @ concat (map ((#) c) ss)) = s # ss" by simp
  from Cons.prems(1) show ?case by (induction y) (auto simp: IH)
qed

lemma reserved [simp]:
  "\<not> unreserved CHR ''/''" "\<not> unreserved CHR ''?''" "\<not> unreserved CHR ''=''" "\<not> unreserved CHR ''&''"
  by (simp_all add: unreserved_def Let_def)

lemma url_text_set:
  assumes "url_text s"
  shows "CHR ''/'' \<notin> set s" "CHR ''?'' \<notin> set s" "CHR ''='' \<notin> set s" "CHR ''&'' \<notin> set s"
  using assms reserved unfolding url_text_def list_all_iff by blast+

lemma url_segment_set: "url_segment s \<Longrightarrow> CHR ''/'' \<notin> set s" "url_segment s \<Longrightarrow> CHR ''?'' \<notin> set s"
  unfolding url_segment_def using url_text_set by blast+

lemma write_path_simps [simp]:
  "write_path [] = ''''" "write_path (s # ss) = CHR ''/'' # s @ write_path ss"
  by (simp_all add: write_path_def)

lemma split_at_path:
  assumes "list_all url_segment ss"
  shows "split_at CHR ''/'' (write_path ss) = [] # ss"
proof -
  have "\<forall>s \<in> set ss. CHR ''/'' \<notin> set s" using assms url_segment_set(1) by (auto simp: list_all_iff)
  from split_at_join [OF _ this, of "[]"] show ?thesis by (simp add: write_path_def)
qed

lemma path_no_query: "list_all url_segment ss \<Longrightarrow> CHR ''?'' \<notin> set (write_path ss)"
  by (induction ss) (simp_all add: url_segment_set(2))

lemma prefix_no:
  assumes "c \<notin> set xs"
  shows "takeWhile (\<lambda>x. x \<noteq> c) (xs @ c # ys) = xs" "dropWhile (\<lambda>x. x \<noteq> c) (xs @ c # ys) = c # ys"
    "takeWhile (\<lambda>x. x \<noteq> c) xs = xs" "dropWhile (\<lambda>x. x \<noteq> c) xs = []"
  using assms by (induction xs) auto

definition write_params :: "(string \<times> string) list \<Rightarrow> string list" where
  "write_params kvs = map (\<lambda>(k, v). k @ ''='' @ v) kvs"

lemma write_query_params:
  "kvs \<noteq> [] \<Longrightarrow> write_query kvs =
    CHR ''?'' # hd (write_params kvs) @ concat (map ((#) CHR ''&'') (tl (write_params kvs)))"
  by (cases kvs) (auto simp: write_query_def write_params_def comp_def split_def)

lemma split_params:
  assumes "list_all (\<lambda>(k, v). url_text k \<and> url_text v) kvs"
  shows "map (\<lambda>kv. (takeWhile (\<lambda>c. c \<noteq> CHR ''='') kv, drop 1 (dropWhile (\<lambda>c. c \<noteq> CHR ''='') kv)))
    (write_params kvs) = kvs"
  using assms
proof (induction kvs)
  case (Cons kv kvs)
  obtain k v where kv: "kv = (k, v)" by fastforce
  with Cons.prems have "CHR ''='' \<notin> set k" by (simp add: url_text_set)
  with Cons kv show ?case by (simp add: write_params_def prefix_no)
qed (simp add: write_params_def)

lemma split_url_write:
  assumes "list_all url_segment ss" "list_all (\<lambda>(k, v). url_text k \<and> url_text v) kvs"
  shows "split_url (write_path ss @ write_query kvs) = (ss, map_of kvs)"
proof (cases "kvs = []")
  case True
  then show ?thesis
    by (simp add: split_url_def write_query_def split_at_path [OF assms(1)] prefix_no [OF path_no_query [OF assms(1)]])
next
  case False
  let ?ps = "write_params kvs"
  have ps: "?ps = hd ?ps # tl ?ps" using False by (simp add: write_params_def)
  have "CHR ''&'' \<notin> set p" if "p \<in> set ?ps" for p
  proof -
    from that obtain k v where "(k, v) \<in> set kvs" "p = k @ ''='' @ v" by (auto simp: write_params_def)
    with assms(2) show ?thesis by (auto simp: list_all_iff dest: url_text_set(4))
  qed
  then have "CHR ''&'' \<notin> set (hd ?ps)" "\<forall>p \<in> set (tl ?ps). CHR ''&'' \<notin> set p"
    using ps by (metis list.set_intros)+
  from split_at_join [OF this] ps
  have "split_at CHR ''&'' (hd ?ps @ concat (map ((#) CHR ''&'') (tl ?ps))) = ?ps" by simp
  moreover have "hd ?ps \<noteq> []" using False by (cases kvs) (auto simp: write_params_def)
  ultimately show ?thesis
    unfolding split_url_def write_query_params [OF False]
    by (simp add: prefix_no [OF path_no_query [OF assms(1)]] split_at_path [OF assms(1)]
        split_params [OF assms(2), simplified] Let_def)
qed

lemma web_url_ok: "url_ok (web d)"
  by (simp add: url_ok_def web_def split_url_write)

section \<open>Where the calls arrive\<close>

definition through :: "client_env \<Rightarrow> response io \<Rightarrow> response_data io" where
  "through N p = seq (exchange N (seq p (\<lambda>rs. Done (Json rs)))) (unwrap N)"

lemma fetcher_reaches:
  assumes "url_ok N" "list_all url_segment ss" "ss \<noteq> []" "distinct (map fst kvs)"
    "list_all (\<lambda>(k, v). url_text k \<and> url_text v) kvs"
    and "route m ss = Some ep" "serve E ep (map_of kvs) body = p" "path = write_path ss @ write_query kvs"
  shows "fetcher E N \<lparr>hr_method = m, hr_path = path, hr_body = body\<rparr> = through N p"
  using url_okD [OF assms(1-5)] assms(6-8) by (simp add: fetcher_def server_def through_def)

lemma url_text_Cons: "url_text (c # s) \<longleftrightarrow> unreserved c \<and> url_text s"
  by (simp add: url_text_def)

lemma unreserved_digit: "is_digit d \<Longrightarrow> unreserved (digit_char d)"
  by (simp add: unreserved_def Let_def)

lemma url_text_show_int: "url_text (show_int n)"
proof -
  have "\<forall>d \<in> set (int_digits \<bar>n\<bar>). is_digit d" by (rule int_digits_small) simp
  then have "url_text (map digit_char (int_digits \<bar>n\<bar>))"
    by (simp add: url_text_def list_all_iff unreserved_digit)
  moreover have "unreserved CHR ''-''" by (simp add: unreserved_def Let_def)
  ultimately show ?thesis by (cases "n < 0") (simp_all add: show_int_def url_text_Cons)
qed

lemma static_segments:
  "url_segment ''api''" "url_segment ''v1''" "url_segment ''payments''" "url_segment ''complete''"
  "url_segment ''refund''" "url_segment ''users''" "url_segment ''subscriptions''" "url_segment ''cancel''"
  "url_segment ''events''" "url_segment ''recent''" "url_segment ''aggregate''" "url_segment ''stats''"
  "url_segment ''daily''" "url_segment ''total''"
  "url_text ''limit''" "url_text ''startDate''" "url_text ''endDate''"
  by (simp_all add: url_segment_def url_text_def unreserved_def Let_def)

lemma url_segment_nonempty: "url_segment i \<Longrightarrow> i \<noteq> []"
  by (simp add: url_segment_def)

lemmas reach_simps = static_segments routed url_segment_nonempty write_query_def url_text_show_int

lemma api_createPayment_reaches:
  assumes "url_ok N"
  shows "api_createPayment E N userId productId amount = through N (PaymentController_createPayment E
       (CreatePaymentBody \<lparr>cp_userId = userId, cp_productId = productId, cp_amount = amount, cp_currency = None\<rparr>))"
  unfolding api_createPayment_def
  by (rule fetcher_reaches [OF assms(1), where ss = "[''api'', ''v1'', ''payments'']" and kvs = "[]" and ep = "EP_createPayment"])
    (simp_all add: reach_simps)

lemma api_completePayment_reaches:
  assumes "url_ok N"
  shows "api_completePayment E N cd = through N (PaymentController_completePayment E (CompletePaymentBody cd))"
  unfolding api_completePayment_def
  by (rule fetcher_reaches [OF assms(1), where ss = "[''api'', ''v1'', ''payments'', ''complete'']" and kvs = "[]" and ep = "EP_completePayment"])
    (simp_all add: reach_simps)

lemma api_createSubscription_reaches:
  assumes "url_ok N"
  shows "api_createSubscription E N sd = through N (SubscriptionController_createSubscription E (CreateSubscriptionBody sd))"
  unfolding api_createSubscription_def
  by (rule fetcher_reaches [OF assms(1), where ss = "[''api'', ''v1'', ''subscriptions'']" and kvs = "[]" and ep = "EP_createSubscription"])
    (simp_all add: reach_simps)

lemma api_refundPayment_reaches:
  assumes "url_ok N" "url_segment i"
  shows "api_refundPayment E N i amount reason = through N (PaymentController_refundPayment E i (RefundBody amount reason))"
  unfolding api_refundPayment_def
  by (rule fetcher_reaches [OF assms(1), where ss = "[''api'', ''v1'', ''payments'', i, ''refund'']" and kvs = "[]" and ep = "EP_refundPayment i"])
    (simp_all add: reach_simps assms(2))

lemma api_cancelSubscription_reaches:
  assumes "url_ok N" "url_segment i"
  shows "api_cancelSubscription E N i reason = through N (SubscriptionController_cancelSubscription E i (CancelBody reason))"
  unfolding api_cancelSubscription_def
  by (rule fetcher_reaches [OF assms(1), where ss = "[''api'', ''v1'', ''subscriptions'', i, ''cancel'']" and kvs = "[]" and ep = "EP_cancelSubscription i"])
    (simp_all add: reach_simps assms(2))

lemma api_getPayment_reaches:
  assumes "url_ok N" "url_segment i"
  shows "api_getPayment E N i = through N (PaymentController_getPayment E i)"
  unfolding api_getPayment_def
  by (rule fetcher_reaches [OF assms(1), where ss = "[''api'', ''v1'', ''payments'', i]" and kvs = "[]" and ep = "EP_getPayment i"])
    (simp_all add: reach_simps assms(2))

lemma api_getUserPayments_reaches:
  assumes "url_ok N" "url_segment i"
  shows "api_getUserPayments E N i = through N (PaymentController_getUserPayments E i None None)"
  unfolding api_getUserPayments_def
  by (rule fetcher_reaches [OF assms(1), where ss = "[''api'', ''v1'', ''users'', i, ''payments'']" and kvs = "[]" and ep = "EP_getUserPayments i"])
    (simp_all add: reach_simps assms(2))

lemma api_getSubscription_reaches:
  assumes "url_ok N" "url_segment i"
  shows "api_getSubscription E N i = through N (SubscriptionController_getSubscription E i)"
  unfolding api_getSubscription_def
  by (rule fetcher_reaches [OF assms(1), where ss = "[''api'', ''v1'', ''subscriptions'', i]" and kvs = "[]" and ep = "EP_getSubscription i"])
    (simp_all add: reach_simps assms(2))

lemma api_getEventsByAggregate_reaches:
  assumes "url_ok N" "url_segment i"
  shows "api_getEventsByAggregate E N i = through N (EventController_getEventsByAggregate E i)"
  unfolding api_getEventsByAggregate_def
  by (rule fetcher_reaches [OF assms(1), where ss = "[''api'', ''v1'', ''events'', ''aggregate'', i]" and kvs = "[]" and ep = "EP_eventsByAggregate i"])
    (simp_all add: reach_simps assms(2))

lemma api_getTotalStats_reaches:
  assumes "url_ok N"
  shows "api_getTotalStats E N = through N (EventController_getTotalStats E)"
  unfolding api_getTotalStats_def
  by (rule fetcher_reaches [OF assms(1), where ss = "[''api'', ''v1'', ''stats'', ''total'']" and kvs = "[]" and ep = "EP_totalStats"])
    (simp_all add: reach_simps)

lemma api_getRecentEvents_reaches:
  assumes "url_ok N"
  shows "api_getRecentEvents E N limit = through N (EventController_getRecentEvents E (Some (show_int (case limit of None \<Rightarrow> 50 | Some l \<Rightarrow> l))))"
  unfolding api_getRecentEvents_def
  by (rule fetcher_reaches [OF assms(1), where ss = "[''api'', ''v1'', ''events'', ''recent'']" and kvs = "[(''limit'', show_int (case limit of None \<Rightarrow> 50 | Some l \<Rightarrow> l))]" and ep = "EP_recentEvents"])
    (simp_all add: reach_simps)

lemma api_getDailySummary_reaches:
  assumes "url_ok N" "url_text from_day" "url_text to_day"
  shows "api_getDailySummary E N from_day to_day = through N (EventController_getDailySummary E (Some from_day) (Some to_day))"
  unfolding api_getDailySummary_def
  by (rule fetcher_reaches [OF assms(1), where ss = "[''api'', ''v1'', ''stats'', ''daily'']" and kvs = "[(''startDate'', from_day), (''endDate'', to_day)]" and ep = "EP_dailySummary"])
    (simp_all add: reach_simps assms(2,3))

section \<open>What the calls return\<close>

text \<open>The answer of an endpoint has the shape that the dashboard casts it to.\<close>

fun data_kind :: "endpoint \<Rightarrow> response_data \<Rightarrow> bool" where
  "data_kind EP_createPayment d = (\<exists>on. d = OrderNumberData on)"
| "data_kind EP_completePayment d = (d = NoData)"
| "data_kind (EP_refundPayment on) d = (d = NoData)"
| "data_kind (EP_getPayment on) d = (\<exists>p. d = PaymentData p)"
| "data_kind (EP_getUserPayments uid) d = (\<exists>ps. d = PaymentsData ps)"
| "data_kind EP_createSubscription d = (\<exists>sid. d = SubscriptionIdData sid)"
| "data_kind (EP_cancelSubscription sid) d = (d = NoData)"
| "data_kind (EP_getSubscription sid) d = (\<exists>r. d = SubscriptionData r)"
| "data_kind (EP_getActiveSubscription uid) d = (\<exists>r. d = ActiveSubscriptionData r)"
| "data_kind EP_recentEvents d = (\<exists>es. d = EventsData es)"
| "data_kind (EP_eventsByType ty) d = (\<exists>es. d = EventsData es)"
| "data_kind (EP_eventsByAggregate a) d = (\<exists>es. d = EventsData es)"
| "data_kind EP_dailySummary d = (\<exists>rs. d = SummaryData rs)"
| "data_kind EP_totalStats d = (\<exists>s. d = StatsData s)"
| "data_kind EP_health d = (d = NoData)"

definition kind_response :: "(response_data \<Rightarrow> bool) \<Rightarrow> response \<Rightarrow> bool" where
  "kind_response K rs = (case rs_body rs of
     Success d \<Rightarrow> K (json_data rs)
   | Failure code m \<Rightarrow> rs_status rs \<in> {404, 409, 500})"

lemma kind_response_ok:
  "kind_response K rs \<Longrightarrow> 200 \<le> rs_status rs \<Longrightarrow> rs_status rs < 300 \<Longrightarrow> K (json_data rs)"
  by (auto simp: kind_response_def split: response_body.splits)

lemma ends_conj: "ends Q P p \<Longrightarrow> ends Q' P' p \<Longrightarrow> ends (\<lambda>x. Q x \<and> Q' x) (\<lambda>e. P e \<and> P' e) p"
  by (induction p) auto

lemma kind_error_response: "known_error e \<Longrightarrow> kind_response K (error_response e)"
  by (auto simp: known_error_def kind_response_def error_response_def split: js_error.splits)

lemma kind_controller:
  assumes "throws known_error m" "\<And>x. K (json_data \<lparr>rs_status = status, rs_body = Success (f x)\<rparr>)"
  shows "ends (kind_response K) P (or_next (seq m (\<lambda>x. reply status (f x))))"
  unfolding or_next_def reply_def
proof (rule ends_catch)
  show "ends (kind_response K) known_error (seq m (\<lambda>x. Done \<lparr>rs_status = status, rs_body = Success (f x)\<rparr>))"
    using assms by (intro throws_seq) (simp_all add: kind_response_def)
qed (simp add: kind_error_response)

lemma kind_writer:
  assumes "\<And>f. throws known_error (m f)" "\<And>x. K (json_data \<lparr>rs_status = status, rs_body = Success (h x)\<rparr>)"
  shows "ends (kind_response K) P (or_next (seq (body_fields b) (\<lambda>f. seq (m f) (\<lambda>x. reply status (h x)))))"
  unfolding seq_assoc [symmetric]
  by (rule kind_controller) (intro throws_seq throws_fields assms)+

lemma serve_kind: "ends (kind_response (data_kind ep)) (\<lambda>_. False) (serve E ep q b)"
proof (cases ep)
  case EP_health
  have "ends (kind_response (data_kind EP_health)) (\<lambda>_. False) (seq (new_date E) (\<lambda>now. reply 200 (HealthData (to_iso_string now))))"
    by (intro throws_seq throws_services) (simp add: reply_def kind_response_def json_data_def)
  with EP_health show ?thesis by (simp del: data_kind.simps)
qed (auto simp: writer_defs(2-) reader_defs json_data_def
    intro!: kind_writer kind_controller throws_fields throws_payments throws_subscriptions throws_repositories)

lemma ends_exchange:
  assumes "ends Q (\<lambda>_. True) p" shows "ends Q (\<lambda>_. True) (exchange N p)"
proof -
  have "ends Q (\<lambda>_. True) (seq p (\<lambda>_. Fail (PlainError m)))" for m
    by (rule ends_seq [OF assms]) simp
  with assms show ?thesis unfolding exchange_def
    by (intro ends_seq [where Q' = "\<lambda>_. True"] ends_act) (simp_all split: delivery.split)
qed

lemma ends_through:
  assumes "ends (kind_response K) P p"
  shows "ends K (\<lambda>_. True) (through N p)"
  unfolding through_def
proof (rule ends_seq)
  show "ends (\<lambda>r. \<forall>rs. r = Json rs \<longrightarrow> kind_response K rs) (\<lambda>_. True) (exchange N (seq p (\<lambda>rs. Done (Json rs))))"
    by (intro ends_exchange ends_seq [OF ends_weaken [OF assms]]) auto
  show "ends K (\<lambda>_. True) (unwrap N r)" if "\<forall>rs. r = Json rs \<longrightarrow> kind_response K rs" for r
    using that by (auto simp: unwrap_def kind_response_ok split: http_reply.split)
qed

lemma serve_through: "ends (data_kind ep) (\<lambda>_. True) (through N (serve E ep q b))"
  by (rule ends_through [OF serve_kind])

text \<open>A call that is delivered and answered.\<close>

definition delivers :: "client_env \<Rightarrow> bool" where
  "delivers N \<longleftrightarrow> (\<forall>n. cl_delivery N n = Delivered)"

lemma run_through:
  assumes "delivers N"
  shows "run (through N p) w = (case run p (tick w) of
      (Inl e, w') \<Rightarrow> (Inl e, w')
    | (Inr rs, w') \<Rightarrow> run (unwrap N (Json rs)) w')"
  using assms
  by (simp add: through_def exchange_def delivers_def run_seq run_act run_basic split: prod.split sum.split)

lemma run_unwrap:
  "run (unwrap N (Json rs)) w =
    (if 200 \<le> rs_status rs \<and> rs_status rs < 300 then (Inr (json_data rs), w)
     else (Inl (PlainError (error_message rs)), w))"
  by (simp add: unwrap_def run_basic)

lemma run_through_controller:
  assumes "delivers N" "status \<in> {200, 201}" "\<And>x t. f x \<noteq> HealthData t"
  shows "run (through N (or_next (seq m (\<lambda>x. reply status (f x))))) w =
    (case run m (tick w) of
       (Inl e, w') \<Rightarrow> run (unwrap N (Json (error_response e))) w'
     | (Inr x, w') \<Rightarrow> (Inr (f x), w'))"
  using assms
  by (auto simp: run_through run_or_next run_seq run_reply run_unwrap json_data_def split: prod.split sum.split response_data.split)

section \<open>Every call has its endpoint\<close>

lemmas reaches = api_createPayment_reaches api_completePayment_reaches api_refundPayment_reaches
  api_getPayment_reaches api_getUserPayments_reaches api_createSubscription_reaches
  api_cancelSubscription_reaches api_getSubscription_reaches api_getRecentEvents_reaches
  api_getEventsByAggregate_reaches api_getDailySummary_reaches api_getTotalStats_reaches

text \<open>
  C33: The dashboard and the service agree: each of the twelve calls of the client, through its URL and
  the route table, runs exactly the controller method it means, with its arguments, body and query
  as given, provided the ids it puts into the path are made of characters that need no escaping.
\<close>

theorem api_calls_reach_endpoints:
  assumes "url_ok N" "url_segment i" "url_text from_day" "url_text to_day"
  shows "api_createPayment E N u pid am = through N (PaymentController_createPayment E
      (CreatePaymentBody \<lparr>cp_userId = u, cp_productId = pid, cp_amount = am, cp_currency = None\<rparr>)) \<and>
    api_completePayment E N c = through N (PaymentController_completePayment E (CompletePaymentBody c)) \<and>
    api_refundPayment E N i am reason = through N (PaymentController_refundPayment E i (RefundBody am reason)) \<and>
    api_getPayment E N i = through N (PaymentController_getPayment E i) \<and>
    api_getUserPayments E N i = through N (PaymentController_getUserPayments E i None None) \<and>
    api_createSubscription E N s = through N (SubscriptionController_createSubscription E (CreateSubscriptionBody s)) \<and>
    api_cancelSubscription E N i reason = through N (SubscriptionController_cancelSubscription E i (CancelBody reason)) \<and>
    api_getSubscription E N i = through N (SubscriptionController_getSubscription E i) \<and>
    api_getRecentEvents E N limit = through N (EventController_getRecentEvents E
      (Some (show_int (case limit of None \<Rightarrow> 50 | Some l \<Rightarrow> l)))) \<and>
    api_getEventsByAggregate E N i = through N (EventController_getEventsByAggregate E i) \<and>
    api_getDailySummary E N from_day to_day = through N (EventController_getDailySummary E (Some from_day) (Some to_day)) \<and>
    api_getTotalStats E N = through N (EventController_getTotalStats E)"
  by (intro conjI reaches assms)

lemma api_calls_reach_endpoints_witness:
  "api_getPayment calm (web (\<lambda>_. Delivered)) ''ORD-0-uuuuuuuu'' =
    through (web (\<lambda>_. Delivered)) (PaymentController_getPayment calm ''ORD-0-uuuuuuuu'')"
proof -
  have "url_segment ''ORD-0-uuuuuuuu''" "url_text ''2024-01-01''" "url_text ''2024-01-31''"
    by (simp_all add: url_segment_def url_text_def unreserved_def Let_def)
  from api_calls_reach_endpoints [OF web_url_ok this] show ?thesis by blast
qed

end
