(* ===== verification/Page.thy ===== *)
theory Page
  imports Client
begin

text \<open>
  A page of the dashboard (\<open>dashboard/app\<close>): its React state and the handlers of its events. A
  handler is a program on the pair of the page's state and the world; what it does between two
  awaits is one action, as the browser runs it, and the setters of one such piece take effect
  together. A handler starts from the state of the page when its event occurred. Any number of
  handlers may be under way at once.
\<close>

type_synonym ('p, 'a) page_io = "('p \<times> world, js_error, 'a) prog"

section \<open>Handlers\<close>

primrec on_world :: "('w, 'e, 'a) prog \<Rightarrow> ('p \<times> 'w, 'e, 'a) prog" where
  "on_world (Done x) = Done x"
| "on_world (Fail e) = Fail e"
| "on_world (Act g k) = Act (\<lambda>(p, w). (p, g w)) (\<lambda>c. on_world (k (snd c)))"

text \<open>What the handler reads of the page when it starts, and what it sets before its first await.\<close>

definition on_event :: "('p \<Rightarrow> 'a \<times> 'p) \<Rightarrow> ('p, 'a) page_io" where
  "on_event g = act (\<lambda>(p, w). (Inr (fst (g p)), (snd (g p), w)))"

definition set_page :: "('p \<Rightarrow> 'p) \<Rightarrow> ('p, unit) page_io" where
  "set_page f = act (\<lambda>(p, w). (Inr (), (f p, w)))"

text \<open>\<open>try\<close> around a call, with what is done after it, in either case, in one piece.\<close>

definition attempt :: "('w, 'e, 'a) prog \<Rightarrow> (('e + 'a) \<Rightarrow> ('w, 'f, 'b) prog) \<Rightarrow> ('w, 'f, 'b) prog" where
  "attempt m f = seq (catch (seq m (\<lambda>x. Done (Inr x))) (\<lambda>e. Done (Inl e))) f"

lemma run_on_world [run_simps]:
  "run (on_world m) (p, w) = (fst (run m w), (p, snd (run m w)))"
  by (induction m arbitrary: w) auto

lemma run_on_event [run_simps]: "run (on_event g) (p, w) = (Inr (fst (g p)), (snd (g p), w))"
  by (simp add: on_event_def run_act)

lemma run_set_page [run_simps]: "run (set_page f) (p, w) = (Inr (), (f p, w))"
  by (simp add: set_page_def run_act)

lemma run_attempt [run_simps]: "run (attempt m f) w = (case run m w of (r, w') \<Rightarrow> run (f r) w')"
  by (simp add: attempt_def run_seq run_catch run_basic split: prod.split sum.split)

section \<open>What is true of a page at all times\<close>

text \<open>
  \<open>keeps_page ok Q p\<close>: whatever happens between its actions, the handler keeps \<open>ok\<close> of the page, and
  \<open>Q\<close> holds of what it returns.
\<close>

definition keeps_page :: "('p \<Rightarrow> bool) \<Rightarrow> ('a \<Rightarrow> bool) \<Rightarrow> ('p, 'a) page_io \<Rightarrow> bool" where
  "keeps_page ok Q p \<longleftrightarrow> (\<forall>c. safe (\<lambda>c. ok (fst c)) (\<lambda>_ _. True) (\<lambda>x _. Q x) (\<lambda>_ _. True) c p)"

locale page =
  fixes ok :: "'p \<Rightarrow> bool" and start :: 'p
  assumes ok_start: "ok start"
begin

lemma rely_page: "rely (\<lambda>_ _. True)"
  by unfold_locales simp_all

lemma page_seq:
  "keeps_page ok Q' m \<Longrightarrow> (\<And>x. Q' x \<Longrightarrow> keeps_page ok Q (f x)) \<Longrightarrow> keeps_page ok Q (seq m f)"
  unfolding keeps_page_def by (blast intro: rely.safe_seq [OF rely_page])

lemma page_catch:
  "keeps_page ok Q m \<Longrightarrow> (\<And>e. keeps_page ok Q (h e)) \<Longrightarrow> keeps_page ok Q (catch m h)"
  unfolding keeps_page_def by (blast intro: rely.safe_catch [OF rely_page])

lemma page_Done: "Q x \<Longrightarrow> keeps_page ok Q (Done x)"
  by (simp add: keeps_page_def safe.returns)

lemma page_Fail: "keeps_page ok Q (Fail e)"
  by (simp add: keeps_page_def safe.throws)

lemma page_world: "ends Q P m \<Longrightarrow> keeps_page ok Q (on_world m)"
  unfolding keeps_page_def by (induction m) (auto intro!: safe.intros)

lemma page_event: "(\<And>p. ok p \<Longrightarrow> ok (snd (g p)) \<and> Q (fst (g p))) \<Longrightarrow> keeps_page ok Q (on_event g)"
  unfolding keeps_page_def on_event_def by (auto intro!: safe_act)

lemma page_set: "(\<And>p. ok p \<Longrightarrow> ok (f p)) \<Longrightarrow> Q () \<Longrightarrow> keeps_page ok Q (set_page f)"
  unfolding keeps_page_def set_page_def by (auto intro!: safe_act)

lemma page_attempt:
  assumes "keeps_page ok Q' m" "\<And>x. Q' x \<Longrightarrow> keeps_page ok Q (f (Inr x))" "\<And>e. keeps_page ok Q (f (Inl e))"
  shows "keeps_page ok Q (attempt m f)"
proof -
  let ?Q = "\<lambda>r. \<forall>x. r = Inr x \<longrightarrow> Q' x"
  have "keeps_page ok ?Q (catch (seq m (\<lambda>x. Done (Inr x))) (\<lambda>e. Done (Inl e)))"
    by (rule page_catch [OF page_seq [OF assms(1)]]) (simp_all add: page_Done)
  moreover have "keeps_page ok Q (f x)" if "?Q x" for x
    using that assms(2,3) by (cases x) auto
  ultimately show ?thesis unfolding attempt_def by (rule page_seq)
qed

text \<open>A call whose outcome is stored in the page.\<close>

lemma page_call:
  assumes "keeps_page ok Q m" "\<And>x p. Q x \<Longrightarrow> ok p \<Longrightarrow> ok (f (Inr x) p)" "\<And>e p. ok p \<Longrightarrow> ok (f (Inl e) p)"
  shows "keeps_page ok (\<lambda>_. True) (attempt m (\<lambda>r. set_page (f r)))"
  using assms(2,3) by (intro page_attempt [OF assms(1)] page_set) auto

lemma page_true: "keeps_page ok (\<lambda>_. True) (on_world m)"
  by (rule page_world [OF ends_any])

lemma page_always:
  assumes "\<forall>p \<in> set ps. keeps_page ok (\<lambda>_. True) p"
  shows "ok (fst (fst (run_schedule s ((start, w), ps))))"
proof -
  have "pool_step\<^sup>*\<^sup>* ((start, w), ps) (run_schedule s ((start, w), ps))" by (rule run_schedule_pool)
  from rely.pool_steps_safe [OF rely_page this, of "\<lambda>c. ok (fst c)" "\<lambda>_ _ _. True" "\<lambda>_ _ _. True"] assms ok_start
  show ?thesis by (simp add: keeps_page_def all_set_conv_all_nth)
qed

end

section \<open>Values\<close>

text \<open>\<open>!s.trim()\<close>.\<close>

definition blank :: "string \<Rightarrow> bool" where
  "blank s = list_all is_js_space s"

text \<open>
  A list shown as a table: the rows, the line that says there are none, or what rendering does with a
  value that is not a list of these rows: \<open>map\<close> of another array gives a line per entry, and \<open>map\<close>
  of anything else throws.
\<close>

datatype 'r table = Loading | Rows "'r list" | NoneFound | UnknownRows nat | RenderError

definition other_list :: "nat \<Rightarrow> 'r table" where
  "other_list n = (if n = 0 then NoneFound else UnknownRows n)"

definition other_table :: "response_data \<Rightarrow> 'r table" where
  "other_table d =
     (case d of PaymentsData ps \<Rightarrow> other_list (length ps) | EventsData es \<Rightarrow> other_list (length es)
      | SummaryData rs \<Rightarrow> other_list (length rs) | _ \<Rightarrow> RenderError)"

end
