(* ===== verification/PaymentsPage.thy ===== *)
theory PaymentsPage
  imports Page
begin

text \<open>
  \<open>dashboard/app/payments/page.tsx\<close>: the form that creates a payment and the search of a user's
  payments. \<open>any\<close> values of the code are kept as what the service sent (\<open>response_data\<close>). The
  browser submits the form only if the fields marked \<open>required\<close> are filled and the number field
  holds a number of whole steps; an amount written with a fraction or an exponent is not modelled.
\<close>

section \<open>State\<close>

record payment_form =
  nf_userId :: string
  nf_productId :: string
  nf_amount :: string

record payments_page =
  pp_userId :: string
  pp_payments :: response_data
  pp_loading :: bool
  pp_newPayment :: payment_form
  pp_createResult :: string

definition empty_form :: payment_form where
  "empty_form = \<lparr>nf_userId = '''', nf_productId = '''', nf_amount = ''''\<rparr>"

definition payments_start :: payments_page where
  "payments_start = \<lparr>pp_userId = '''', pp_payments = PaymentsData [], pp_loading = False,
     pp_newPayment = empty_form, pp_createResult = ''''\<rparr>"

section \<open>Handlers\<close>

definition searchPayments :: "env \<Rightarrow> client_env \<Rightarrow> (payments_page, unit) page_io" where
  "searchPayments E N =
     seq (on_event (\<lambda>p. if blank (pp_userId p) then (None, p) else (Some (pp_userId p), p\<lparr>pp_loading := True\<rparr>)))
       (\<lambda>start. case start of
          None \<Rightarrow> Done ()
        | Some userId \<Rightarrow>
            attempt (on_world (api_getUserPayments E N userId)) (\<lambda>r.
            set_page (\<lambda>p. case r of
                Inr d \<Rightarrow> p\<lparr>pp_payments := d, pp_loading := False\<rparr>
              | Inl e \<Rightarrow> p\<lparr>pp_loading := False\<rparr>)))"

text \<open>\<open>result.orderNumber\<close>, in a template literal.\<close>

definition field_orderNumber :: "client_env \<Rightarrow> response_data \<Rightarrow> ('w, js_error, string) prog" where
  "field_orderNumber N d =
     (case d of
        OrderNumberData on \<Rightarrow> Done on
      | PaymentData p \<Rightarrow> Done (p_orderNumber p)
      | NoData \<Rightarrow> Fail (PlainError (cl_type_error N))
      | ActiveSubscriptionData None \<Rightarrow> Fail (PlainError (cl_type_error N))
      | _ \<Rightarrow> Done ''undefined'')"

text \<open>\<open>Number(amount)\<close> of a string of decimal digits, in hundredths.\<close>

definition js_amount :: "string \<Rightarrow> money option" where
  "js_amount s =
     (let ds = (if take 1 s = ''-'' then drop 1 s else s)
      in if ds = '''' \<or> \<not> list_all (\<lambda>c. digit_in 10 c \<noteq> None) ds then None
         else map_option (\<lambda>n. 100 * n) (parse_int s))"

definition form_request :: "payment_form \<Rightarrow> (string \<times> string \<times> money) option" where
  "form_request f =
     (if nf_userId f = '''' \<or> nf_productId f = '''' then None
      else map_option (\<lambda>a. (nf_userId f, nf_productId f, a)) (js_amount (nf_amount f)))"

definition page_createPayment :: "env \<Rightarrow> client_env \<Rightarrow> (payments_page, unit) page_io" where
  "page_createPayment E N =
     seq (on_event (\<lambda>p. (form_request (pp_newPayment p), p))) (\<lambda>form.
     case form of
       None \<Rightarrow> Done ()
     | Some (userId, productId, amount) \<Rightarrow>
         attempt (seq (on_world (api_createPayment E N userId productId amount)) (field_orderNumber N)) (\<lambda>r.
         set_page (\<lambda>p. case r of
             Inr orderNumber \<Rightarrow> p\<lparr>pp_createResult := ''Created: '' @ orderNumber, pp_newPayment := empty_form\<rparr>
           | Inl e \<Rightarrow> p\<lparr>pp_createResult := ''Error: '' @ message_of E e\<rparr>)))"

datatype payments_event =
    TypeNewUserId string
  | TypeNewProductId string
  | TypeNewAmount string
  | SubmitPayment
  | TypeUserId string
  | SearchPayments

fun payments_handler :: "env \<Rightarrow> client_env \<Rightarrow> payments_event \<Rightarrow> (payments_page, unit) page_io" where
  "payments_handler E N (TypeNewUserId v) =
     set_page (\<lambda>p. p\<lparr>pp_newPayment := (pp_newPayment p)\<lparr>nf_userId := v\<rparr>\<rparr>)"
| "payments_handler E N (TypeNewProductId v) =
     set_page (\<lambda>p. p\<lparr>pp_newPayment := (pp_newPayment p)\<lparr>nf_productId := v\<rparr>\<rparr>)"
| "payments_handler E N (TypeNewAmount v) =
     set_page (\<lambda>p. p\<lparr>pp_newPayment := (pp_newPayment p)\<lparr>nf_amount := v\<rparr>\<rparr>)"
| "payments_handler E N SubmitPayment = page_createPayment E N"
| "payments_handler E N (TypeUserId v) = set_page (\<lambda>p. p\<lparr>pp_userId := v\<rparr>)"
| "payments_handler E N SearchPayments = searchPayments E N"

section \<open>What is shown\<close>

definition payment_color :: "string \<Rightarrow> string option" where
  "payment_color = map_of [
     (''PENDING'', ''bg-yellow-100 text-yellow-800''), (''COMPLETED'', ''bg-green-100 text-green-800''),
     (''FAILED'', ''bg-red-100 text-red-800''), (''REFUNDED'', ''bg-purple-100 text-purple-800'')]"

record payment_line =
  pl_orderNumber :: string
  pl_productId :: string
  pl_amount :: money
  pl_currency :: string
  pl_status :: string
  pl_color :: string
  pl_createdAt :: date

definition payment_line_of :: "payment \<Rightarrow> payment_line" where
  "payment_line_of p = \<lparr>pl_orderNumber = p_orderNumber p, pl_productId = p_productId p, pl_amount = p_amount p,
     pl_currency = p_currency p, pl_status = payment_status_str (p_status p),
     pl_color = (case payment_color (payment_status_str (p_status p)) of None \<Rightarrow> '''' | Some c \<Rightarrow> c),
     pl_createdAt = p_createdAt p\<rparr>"

definition payments_table :: "payments_page \<Rightarrow> payment_line table" where
  "payments_table p =
     (if pp_loading p then Loading
      else case pp_payments p of
        PaymentsData ps \<Rightarrow> if ps = [] then NoneFound else Rows (map payment_line_of ps)
      | d \<Rightarrow> other_table d)"

end
