(* ===== verification/SubscriptionsPage.thy ===== *)
theory SubscriptionsPage
  imports PaymentsPage
begin

text \<open>
  \<open>dashboard/app/subscriptions/page.tsx\<close>: the form that creates a subscription, the search by id, and
  the button that cancels the subscription on display. \<open>null\<close> is \<open>NoData\<close>.
\<close>

section \<open>State\<close>

record subscriptions_page =
  sp_searchId :: string
  sp_subscription :: response_data
  sp_error :: string
  sp_form :: create_subscription_request
  sp_createResult :: string

definition monthly_form :: create_subscription_request where
  "monthly_form = \<lparr>cs_userId = '''', cs_planId = ''plan-monthly'', cs_plan = ''MONTHLY''\<rparr>"

definition subscriptions_start :: subscriptions_page where
  "subscriptions_start = \<lparr>sp_searchId = '''', sp_subscription = NoData, sp_error = '''',
     sp_form = monthly_form, sp_createResult = ''''\<rparr>"

section \<open>Handlers\<close>

text \<open>\<open>d.subscriptionId\<close> in a template literal, and whether \<open>d\<close> is \<open>null\<close> or \<open>undefined\<close>.\<close>

definition nullish :: "response_data \<Rightarrow> bool" where
  "nullish d = (case d of NoData \<Rightarrow> True | ActiveSubscriptionData None \<Rightarrow> True | _ \<Rightarrow> False)"

definition subscriptionId_of :: "response_data \<Rightarrow> string" where
  "subscriptionId_of d =
     (case d of
        SubscriptionIdData sid \<Rightarrow> sid
      | SubscriptionData r \<Rightarrow> s_subscriptionId r
      | ActiveSubscriptionData (Some r) \<Rightarrow> s_subscriptionId r
      | _ \<Rightarrow> ''undefined'')"

definition page_createSubscription :: "env \<Rightarrow> client_env \<Rightarrow> (subscriptions_page, unit) page_io" where
  "page_createSubscription E N =
     seq (on_event (\<lambda>p. (sp_form p, p))) (\<lambda>form.
     if cs_userId form = '''' then Done () else
     attempt (seq (on_world (api_createSubscription E N form)) (\<lambda>result.
         if nullish result then Fail (PlainError (cl_type_error N)) else Done (subscriptionId_of result))) (\<lambda>r.
     set_page (\<lambda>p. case r of
         Inr subscriptionId \<Rightarrow> p\<lparr>sp_createResult := ''Created: '' @ subscriptionId, sp_form := monthly_form\<rparr>
       | Inl e \<Rightarrow> p\<lparr>sp_createResult := ''Error: '' @ message_of E e\<rparr>)))"

definition searchSubscription :: "env \<Rightarrow> client_env \<Rightarrow> (subscriptions_page, unit) page_io" where
  "searchSubscription E N =
     seq (on_event (\<lambda>p. if blank (sp_searchId p) then (None, p) else (Some (sp_searchId p), p\<lparr>sp_error := ''''\<rparr>)))
       (\<lambda>start. case start of
          None \<Rightarrow> Done ()
        | Some searchId \<Rightarrow>
            attempt (on_world (api_getSubscription E N searchId)) (\<lambda>r.
            set_page (\<lambda>p. case r of
                Inr d \<Rightarrow> p\<lparr>sp_subscription := d\<rparr>
              | Inl e \<Rightarrow> p\<lparr>sp_error := message_of E e, sp_subscription := NoData\<rparr>)))"

definition page_cancelSubscription :: "env \<Rightarrow> client_env \<Rightarrow> (subscriptions_page, unit) page_io" where
  "page_cancelSubscription E N =
     seq (on_event (\<lambda>p. (sp_subscription p, p))) (\<lambda>subscription.
     if nullish subscription then Done () else
     attempt (seq (on_world (api_cancelSubscription E N (subscriptionId_of subscription) ''Admin cancelled'')) (\<lambda>_.
         on_world (api_getSubscription E N (subscriptionId_of subscription)))) (\<lambda>r.
     set_page (\<lambda>p. case r of
         Inr updated \<Rightarrow> p\<lparr>sp_subscription := updated\<rparr>
       | Inl e \<Rightarrow> p\<lparr>sp_error := message_of E e\<rparr>)))"

text \<open>Choosing a plan sets its id with it; the select offers the two plans.\<close>

definition choose_plan :: "string \<Rightarrow> create_subscription_request \<Rightarrow> create_subscription_request" where
  "choose_plan v form =
     form\<lparr>cs_plan := v, cs_planId := (if v = ''MONTHLY'' then ''plan-monthly'' else ''plan-annual'')\<rparr>"

datatype subscriptions_event =
    TypeSubscriber string
  | SelectPlan subscription_plan
  | SubmitSubscription
  | TypeSearchId string
  | SearchSubscription
  | CancelClicked

fun subscriptions_handler ::
    "env \<Rightarrow> client_env \<Rightarrow> subscriptions_event \<Rightarrow> (subscriptions_page, unit) page_io" where
  "subscriptions_handler E N (TypeSubscriber v) =
     set_page (\<lambda>p. p\<lparr>sp_form := (sp_form p)\<lparr>cs_userId := v\<rparr>\<rparr>)"
| "subscriptions_handler E N (SelectPlan plan) =
     set_page (\<lambda>p. p\<lparr>sp_form := choose_plan (plan_str plan) (sp_form p)\<rparr>)"
| "subscriptions_handler E N SubmitSubscription = page_createSubscription E N"
| "subscriptions_handler E N (TypeSearchId v) = set_page (\<lambda>p. p\<lparr>sp_searchId := v\<rparr>)"
| "subscriptions_handler E N SearchSubscription = searchSubscription E N"
| "subscriptions_handler E N CancelClicked = page_cancelSubscription E N"

section \<open>What is shown\<close>

definition subscription_color :: "string \<Rightarrow> string option" where
  "subscription_color = map_of [
     (''ACTIVE'', ''bg-green-100 text-green-800''), (''EXPIRED'', ''bg-gray-100 text-gray-800''),
     (''CANCELLED'', ''bg-red-100 text-red-800''), (''PENDING_RENEWAL'', ''bg-yellow-100 text-yellow-800'')]"

record subscription_card =
  sc_subscriptionId :: string
  sc_status :: string
  sc_color :: string
  sc_userId :: string
  sc_plan :: string
  sc_start :: date
  sc_end :: date
  sc_autoRenew :: string
  sc_cancelButton :: bool

definition subscription_card_of :: "subscription \<Rightarrow> subscription_card" where
  "subscription_card_of r = \<lparr>sc_subscriptionId = s_subscriptionId r,
     sc_status = subscription_status_str (s_status r),
     sc_color = (case subscription_color (subscription_status_str (s_status r)) of None \<Rightarrow> '''' | Some c \<Rightarrow> c),
     sc_userId = s_userId r, sc_plan = plan_str (s_plan r), sc_start = s_startDate r, sc_end = s_endDate r,
     sc_autoRenew = (if s_autoRenew r then ''Yes'' else ''No''),
     sc_cancelButton = (subscription_status_str (s_status r) = ''ACTIVE'')\<rparr>"

datatype card = NoCard | Card subscription_card | OtherCard

definition subscription_view :: "subscriptions_page \<Rightarrow> card" where
  "subscription_view p =
     (if nullish (sp_subscription p) then NoCard
      else case sp_subscription p of
        SubscriptionData r \<Rightarrow> Card (subscription_card_of r)
      | ActiveSubscriptionData (Some r) \<Rightarrow> Card (subscription_card_of r)
      | _ \<Rightarrow> OtherCard)"

end
