(* ===== verification/EventsPage.thy ===== *)
theory EventsPage
  imports SubscriptionsPage
begin

text \<open>
  \<open>dashboard/app/events/page.tsx\<close>, \<open>dashboard/app/page.tsx\<close> and the components they show events and
  numbers with. Both pages load when they are mounted, which is the event \<open>Mounted\<close> or
  \<open>page_load\<close>; the start page waits for two calls at once.
\<close>

section \<open>Event timeline\<close>

definition event_color :: "string \<Rightarrow> string option" where
  "event_color = map_of [
     (''PAYMENT_CREATED'', ''bg-blue-100 text-blue-800''), (''PAYMENT_COMPLETED'', ''bg-green-100 text-green-800''),
     (''PAYMENT_FAILED'', ''bg-red-100 text-red-800''), (''PAYMENT_REFUNDED'', ''bg-yellow-100 text-yellow-800''),
     (''SUBSCRIPTION_CREATED'', ''bg-purple-100 text-purple-800''),
     (''SUBSCRIPTION_RENEWED'', ''bg-indigo-100 text-indigo-800''),
     (''SUBSCRIPTION_CANCELLED'', ''bg-orange-100 text-orange-800''),
     (''SUBSCRIPTION_EXPIRED'', ''bg-gray-100 text-gray-800'')]"

record event_line =
  el_type :: string
  el_color :: string
  el_aggregateId :: string
  el_occurredAt :: date
  el_payload :: "(string \<times> json) list"

definition event_line_of :: "stored_event \<Rightarrow> event_line" where
  "event_line_of r = \<lparr>el_type = se_eventType r,
     el_color = (case event_color (se_eventType r) of None \<Rightarrow> ''bg-gray-100 text-gray-800'' | Some c \<Rightarrow> c),
     el_aggregateId = se_aggregateId r, el_occurredAt = se_occurredAt r, el_payload = se_payload r\<rparr>"

definition event_timeline :: "response_data \<Rightarrow> event_line table" where
  "event_timeline d =
     (case d of
        EventsData es \<Rightarrow> if es = [] then NoneFound else Rows (map event_line_of es)
      | _ \<Rightarrow> other_table d)"

section \<open>The events page\<close>

record events_page =
  ep_events :: response_data
  ep_loading :: bool
  ep_aggregateId :: string
  ep_filtered :: response_data

definition events_start :: events_page where
  "events_start = \<lparr>ep_events = EventsData [], ep_loading = True, ep_aggregateId = '''', ep_filtered = NoData\<rparr>"

definition events_load :: "env \<Rightarrow> client_env \<Rightarrow> (events_page, unit) page_io" where
  "events_load E N =
     attempt (on_world (api_getRecentEvents E N (Some 100))) (\<lambda>r.
     set_page (\<lambda>p. case r of
         Inr d \<Rightarrow> p\<lparr>ep_events := d, ep_loading := False\<rparr>
       | Inl e \<Rightarrow> p\<lparr>ep_loading := False\<rparr>))"

definition searchByAggregate :: "env \<Rightarrow> client_env \<Rightarrow> (events_page, unit) page_io" where
  "searchByAggregate E N =
     seq (on_event (\<lambda>p. if blank (ep_aggregateId p) then (None, p\<lparr>ep_filtered := NoData\<rparr>) else (Some (ep_aggregateId p), p)))
       (\<lambda>start. case start of
          None \<Rightarrow> Done ()
        | Some aggregateId \<Rightarrow>
            attempt (on_world (api_getEventsByAggregate E N aggregateId)) (\<lambda>r.
            set_page (\<lambda>p. case r of
                Inr d \<Rightarrow> p\<lparr>ep_filtered := d\<rparr>
              | Inl e \<Rightarrow> p)))"

datatype events_event = Mounted | TypeAggregateId string | FilterClicked | ClearClicked

fun events_handler :: "env \<Rightarrow> client_env \<Rightarrow> events_event \<Rightarrow> (events_page, unit) page_io" where
  "events_handler E N Mounted = events_load E N"
| "events_handler E N (TypeAggregateId v) = set_page (\<lambda>p. p\<lparr>ep_aggregateId := v\<rparr>)"
| "events_handler E N FilterClicked = searchByAggregate E N"
| "events_handler E N ClearClicked = set_page (\<lambda>p. p\<lparr>ep_filtered := NoData, ep_aggregateId := ''''\<rparr>)"

definition display_events :: "events_page \<Rightarrow> response_data" where
  "display_events p = (if nullish (ep_filtered p) then ep_events p else ep_filtered p)"

text \<open>The line above the timeline: the number of events on display and what they are said to be.\<close>

definition events_caption :: "events_page \<Rightarrow> nat option \<times> string" where
  "events_caption p =
     (case display_events p of EventsData es \<Rightarrow> Some (length es) | PaymentsData ps \<Rightarrow> Some (length ps)
        | SummaryData rs \<Rightarrow> Some (length rs) | _ \<Rightarrow> None,
      if nullish (ep_filtered p) then ''(recent)'' else ''for '' @ [CHR 0x22] @ ep_aggregateId p @ [CHR 0x22])"

definition events_view :: "events_page \<Rightarrow> event_line table" where
  "events_view p = (if ep_loading p then Loading else event_timeline (display_events p))"

section \<open>The start page\<close>

record home_page =
  hp_stats :: response_data
  hp_events :: response_data
  hp_loading :: bool

definition home_start :: home_page where
  "home_start = \<lparr>hp_stats = NoData, hp_events = EventsData [], hp_loading = True\<rparr>"

text \<open>
  \<open>Promise.all\<close> of two calls: both are under way, their actions interleave as \<open>pick\<close> says, and the
  first that throws decides; the other only reads, and what it returns is dropped.
\<close>

primrec both_right :: "('w \<Rightarrow> bool) \<Rightarrow> ('w \<Rightarrow> 'w) \<Rightarrow> ('w \<Rightarrow> ('w, 'e, 'b) prog \<Rightarrow> ('w, 'e, 'a \<times> 'b) prog) \<Rightarrow>
    ('w, 'e, 'a) prog \<Rightarrow> ('w, 'e, 'b) prog \<Rightarrow> ('w, 'e, 'a \<times> 'b) prog" where
  "both_right pick g f p (Done y) = seq p (\<lambda>x. Done (x, y))"
| "both_right pick g f p (Fail e) = Fail e"
| "both_right pick g f p (Act g' k') = Act (\<lambda>w. if pick w then g w else g' w)
     (\<lambda>w. if pick w then f w (Act g' k') else both_right pick g f p (k' w))"

primrec both :: "('w \<Rightarrow> bool) \<Rightarrow> ('w, 'e, 'a) prog \<Rightarrow> ('w, 'e, 'b) prog \<Rightarrow> ('w, 'e, 'a \<times> 'b) prog" where
  "both pick (Done x) = (\<lambda>q. seq q (\<lambda>y. Done (x, y)))"
| "both pick (Fail e) = (\<lambda>q. Fail e)"
| "both pick (Act g k) = both_right pick g (\<lambda>w. both pick (k w)) (Act g k)"

definition home_load :: "env \<Rightarrow> client_env \<Rightarrow> (home_page, unit) page_io" where
  "home_load E N =
     attempt (on_world (both (\<lambda>w. cl_pick N (w_tick w)) (api_getTotalStats E N) (api_getRecentEvents E N (Some 20)))) (\<lambda>r.
     set_page (\<lambda>p. case r of
         Inr (stats, events) \<Rightarrow> p\<lparr>hp_stats := stats, hp_events := events, hp_loading := False\<rparr>
       | Inl e \<Rightarrow> p\<lparr>hp_loading := False\<rparr>))"

datatype card_value = Amount money | Count int | Counts int int

datatype card_color = Blue | Green | Red | Yellow

fun color_map :: "card_color \<Rightarrow> string" where
  "color_map Blue = ''bg-blue-50 border-blue-200 text-blue-700''"
| "color_map Green = ''bg-green-50 border-green-200 text-green-700''"
| "color_map Red = ''bg-red-50 border-red-200 text-red-700''"
| "color_map Yellow = ''bg-yellow-50 border-yellow-200 text-yellow-700''"

record stats_card =
  st_title :: string
  st_value :: card_value
  st_subtitle :: "string option"
  st_color :: string

definition StatsCard :: "string \<Rightarrow> card_value \<Rightarrow> string option \<Rightarrow> card_color \<Rightarrow> stats_card" where
  "StatsCard title v subtitle color =
     \<lparr>st_title = title, st_value = v, st_subtitle = subtitle, st_color = color_map color\<rparr>"

text \<open>\<open>stats?.field || 0\<close>: nothing loaded, a sum over no rows and a value of another shape all give 0.\<close>

definition stat :: "(total_stats \<Rightarrow> int option) \<Rightarrow> response_data \<Rightarrow> int" where
  "stat field d = (case d of StatsData s \<Rightarrow> (case field s of None \<Rightarrow> 0 | Some n \<Rightarrow> n) | _ \<Rightarrow> 0)"

definition home_cards :: "response_data \<Rightarrow> stats_card list" where
  "home_cards d =
     [StatsCard ''Total Revenue'' (Amount (stat ts_totalRevenue d)) (Some ''KRW'') Green,
      StatsCard ''Transactions'' (Count (stat ts_totalTransactions d)) (Some ''total'') Blue,
      StatsCard ''Successful'' (Count (stat ts_successfulTransactions d)) None Green,
      StatsCard ''Failed / Refunds'' (Counts (stat ts_failedTransactions d) (stat ts_refundCount d)) None Red]"

definition home_view :: "home_page \<Rightarrow> (stats_card list \<times> event_line table) option" where
  "home_view p = (if hp_loading p then None else Some (home_cards (hp_stats p), event_timeline (hp_events p)))"

end
