(* ===== verification/PageLaws.thy ===== *)
theory PageLaws
  imports EventsPage Races
begin

text \<open>
  What the pages show: that a page's state always has the type its rendering expects, what a search, a
  creation and a cancellation do to the page when nothing fails, that the start page shows the read
  model, and two ways in which a page shows what it should not: an answer that comes late, and an
  id that is not escaped.
\<close>

section \<open>The payments page\<close>

definition payments_page_ok :: "payments_page \<Rightarrow> bool" where
  "payments_page_ok p \<longleftrightarrow> (blank (pp_userId p) \<or> url_segment (pp_userId p)) \<and> (\<exists>ps. pp_payments p = PaymentsData ps)"

interpretation pay: page payments_page_ok payments_start
  by unfold_locales (simp add: payments_page_ok_def payments_start_def blank_def)

text \<open>The user id field is typed into.\<close>

definition types_ids :: "payments_event \<Rightarrow> bool" where
  "types_ids ev = (case ev of TypeUserId v \<Rightarrow> blank v \<or> url_segment v | _ \<Rightarrow> True)"

lemma page_searchPayments:
  assumes "url_ok N"
  shows "keeps_page payments_page_ok (\<lambda>_. True) (searchPayments E N)"
  unfolding searchPayments_def
proof (rule pay.page_seq [OF pay.page_event])
  fix start
  assume start: "case start of None \<Rightarrow> True | Some uid \<Rightarrow> url_segment uid"
  show "keeps_page payments_page_ok (\<lambda>_. True) (case start of
      None \<Rightarrow> Done ()
    | Some userId \<Rightarrow> attempt (on_world (api_getUserPayments E N userId)) (\<lambda>r.
        set_page (\<lambda>p. case r of Inr d \<Rightarrow> p\<lparr>pp_payments := d, pp_loading := False\<rparr>
          | Inl e \<Rightarrow> p\<lparr>pp_loading := False\<rparr>)))"
  proof (cases start)
    case (Some uid)
    have "ends (data_kind (EP_getUserPayments uid)) (\<lambda>_. True) (api_getUserPayments E N uid)"
      using start Some by (simp only: option.case api_getUserPayments_reaches [OF assms]) (rule serve_through [where ep = "EP_getUserPayments uid" and q = "\<lambda>_. None" and b = NoBody, unfolded serve.simps])
    from pay.page_call [OF pay.page_world [OF this]] Some show ?thesis
      by (auto simp: payments_page_ok_def)
  qed (simp add: pay.page_Done)
qed (auto simp: payments_page_ok_def)

lemma page_payments:
  assumes "url_ok N" "types_ids ev"
  shows "keeps_page payments_page_ok (\<lambda>_. True) (payments_handler E N ev)"
proof (cases ev)
  case SubmitPayment
  have "keeps_page payments_page_ok (\<lambda>_. True) (page_createPayment E N)"
    unfolding page_createPayment_def field_orderNumber_def
    by (rule pay.page_seq [OF pay.page_event [where Q = "\<lambda>_. True"]])
      (auto intro!: pay.page_Done pay.page_Fail pay.page_set pay.page_attempt [where Q' = "\<lambda>_. True"]
        pay.page_seq [OF pay.page_true] simp: payments_page_ok_def split: option.split response_data.split sum.split)
  with SubmitPayment show ?thesis by simp
qed (use assms in \<open>auto intro!: pay.page_set page_searchPayments simp: payments_page_ok_def types_ids_def\<close>)

text \<open>
  C37: The payments page never fails to render: whatever its user does, in whatever order the answers
  come and whatever else the service does, the value it shows is a list of payments, provided the
  searched ids need no escaping.
\<close>

theorem payments_page_typed:
  assumes "url_ok N" "list_all types_ids evs"
  shows "payments_table (fst (fst (run_schedule s ((payments_start, w), map (payments_handler E N) evs @ map on_world others))))
    \<in> {Loading, NoneFound} \<union> range Rows"
proof -
  have "\<forall>h \<in> set (map (payments_handler E N) evs @ map on_world others). keeps_page payments_page_ok (\<lambda>_. True) h"
    using assms(1,2) by (auto simp: list_all_iff page_payments pay.page_true)
  from pay.page_always [OF this, of s w] show ?thesis
    by (auto simp: payments_page_ok_def payments_table_def split: if_splits)
qed

lemma payments_page_typed_witness:
  "payments_table (fst (fst (run_schedule [0, 1, 1, 1] ((payments_start, booted),
     map (payments_handler calm (web (\<lambda>_. Delivered))) [TypeUserId ''alice'', SearchPayments] @ map on_world []))))
   \<in> {Loading, NoneFound} \<union> range Rows"
proof -
  have "list_all types_ids [TypeUserId ''alice'', SearchPayments]"
    by (simp add: types_ids_def url_segment_def url_text_def unreserved_def Let_def)
  from payments_page_typed [OF web_url_ok this] show ?thesis .
qed

section \<open>A search and a creation\<close>

lemma url_segment_not_blank:
  assumes "url_segment s"
  shows "\<not> blank s"
proof
  assume "blank s"
  have "\<not> (unreserved c \<and> is_js_space c)" for c by (auto simp: unreserved_def is_js_space_def Let_def)
  with assms \<open>blank s\<close> show False by (cases s) (auto simp: url_segment_def url_text_def blank_def)
qed

lemma run_searchPayments:
  "run (searchPayments E N) (p, w) =
    (if blank (pp_userId p) then (Inr (), (p, w))
     else case run (api_getUserPayments E N (pp_userId p)) w of
       (Inl e, w') \<Rightarrow> (Inr (), (p\<lparr>pp_loading := False\<rparr>, w'))
     | (Inr d, w') \<Rightarrow> (Inr (), (p\<lparr>pp_payments := d, pp_loading := False\<rparr>, w')))"
  by (simp add: searchPayments_def run_simps split: prod.split sum.split)

text \<open>The twenty newest payments of a user, read at tick \<open>n\<close>.\<close>

definition newest_payments :: "env \<Rightarrow> nat \<Rightarrow> string \<Rightarrow> database \<Rightarrow> payment list" where
  "newest_payments E n uid db =
     take 20 (sort_key (\<lambda>r. - p_createdAt r) (filter (\<lambda>r. p_userId r = uid) (payment_order E n (payments db))))"

lemma run_getUserPayments:
  assumes "reliable E" "delivers N" "url_ok N" "url_segment uid"
  shows "run (api_getUserPayments E N uid) w =
    (Inr (PaymentsData (newest_payments E (w_tick w + 1) uid (w_db w))), tick (tick w))"
  unfolding api_getUserPayments_reaches [OF assms(3,4)] PaymentController_getUserPayments_def
  by (simp add: run_through_controller [OF assms(2)] getUserPayments_def PaymentRepository_findByUserId_def
      run_sql_reliable [OF assms(1)] sql_effect_def reading_page_def sql_page_def default_to_def int_param_def
      newest_payments_def)

lemma newest_payments_all:
  assumes "reads_all E" "length (filter (\<lambda>r. p_userId r = uid) (payments db)) \<le> 20"
  shows "set (newest_payments E n uid db) = {r \<in> set (payments db). p_userId r = uid}"
proof -
  have order: "mset (payment_order E n (payments db)) = mset (payments db)"
    using assms(1) by (simp add: reads_all_def)
  then have "mset (filter (\<lambda>r. p_userId r = uid) (payment_order E n (payments db))) =
      mset (filter (\<lambda>r. p_userId r = uid) (payments db))" by (simp add: mset_filter)
  then have "length (filter (\<lambda>r. p_userId r = uid) (payment_order E n (payments db))) \<le> 20"
    using assms(2) by (metis size_mset)
  moreover have "set (payment_order E n (payments db)) = set (payments db)"
    using order by (metis set_mset_mset)
  ultimately show ?thesis by (simp add: newest_payments_def)
qed

lemma run_api_createPayment:
  assumes "reliable E" "delivers N" "url_ok N"
    and "req = \<lparr>cp_userId = user, cp_productId = product, cp_amount = amount, cp_currency = None\<rparr>"
    and "run (createPayment E req) (tick w) = (Inr on, w')"
  shows "run (api_createPayment E N user product amount) w = (Inr (OrderNumberData on), w')"
  unfolding api_createPayment_reaches [OF assms(3)] complete_controllers
  using assms(4,5) by (simp add: run_through_controller [OF assms(2)])

text \<open>
  C34: From the form through the service and back, on a quiet day: no remote call fails, every call of the
  client is delivered and answered, the database reads every row, and the values fit their columns. If the id
  of the user is made of characters that need no escaping, the user has ordered this product not within the
  last hour (the idempotency key is free; a second submission of the same form within the hour shows an error
  instead) and has fewer than twenty payments, then submitting the payment form shows the new order number and
  empties the form, and searching for the user lists that payment with its product, amount, currency KRW and
  status PENDING.
\<close>

theorem created_payment_is_listed:
  assumes "reliable E" "reads_all E" "delivers N" "url_ok N"
    and "form_request (pp_newPayment p) = Some (user, product, amount)" "url_segment user"
    and "req = \<lparr>cp_userId = user, cp_productId = product, cp_amount = amount, cp_currency = None\<rparr>"
    and "on = order_in E (tick w)" "live_order E req (tick w) = None" "can_insert on req (w_db w)"
    and "can_publish E (w_tick w + 6) on (w_db w)"
    and "length (filter (\<lambda>r. p_userId r = user) (payments (w_db w))) < 20"
  shows "\<exists>p1 w1 p2 w2 lines line. run (page_createPayment E N) (p, w) = (Inr (), (p1, w1)) \<and>
    pp_createResult p1 = ''Created: '' @ on \<and> pp_newPayment p1 = empty_form \<and>
    run (searchPayments E N) (p1\<lparr>pp_userId := user\<rparr>, w1) = (Inr (), (p2, w2)) \<and>
    payments_table p2 = Rows lines \<and> line \<in> set lines \<and>
    pl_orderNumber line = on \<and> pl_productId line = product \<and> pl_amount line = amount \<and>
    pl_currency line = ''KRW'' \<and> pl_status line = ''PENDING'' \<and> pl_color line = ''bg-yellow-100 text-yellow-800''"
proof -
  have can: "can_insert (order_in E (tick w)) req (w_db (tick w))"
    "can_publish E (w_tick (tick w) + 5) (order_in E (tick w)) (w_db (tick w))"
    using assms(8,10,11) by (simp_all add: eval_nat_numeral)
  let ?row = "new_row on req (sql_now (db_clock E (w_tick w + 4))) (w_db w)"
  from createPayment_run [OF assms(1,9) can] assms(8) obtain w1 where
    run: "run (createPayment E req) (tick w) = (Inr on, w1)" and rows: "payments (w_db w1) = payments (w_db w) @ [?row]"
    by (auto simp: eval_nat_numeral new_row_def)
  let ?p1 = "p\<lparr>pp_createResult := ''Created: '' @ on, pp_newPayment := empty_form\<rparr>"
  have create: "run (page_createPayment E N) (p, w) = (Inr (), (?p1, w1))"
    using assms(5) run_api_createPayment [OF assms(1,3,4,7) run]
    by (simp add: page_createPayment_def run_simps field_orderNumber_def)
  have user: "p_userId ?row = user" using assms(7) by (simp add: new_row_def new_payment_def payment_data.extend_def)
  have "\<not> blank user" using assms(6) url_segment_not_blank by blast
  let ?ps = "newest_payments E (w_tick w1 + 1) user (w_db w1)"
  let ?p2 = "?p1\<lparr>pp_userId := user, pp_payments := PaymentsData ?ps, pp_loading := False\<rparr>"
  have search: "run (searchPayments E N) (?p1\<lparr>pp_userId := user\<rparr>, w1) = (Inr (), (?p2, tick (tick w1)))"
    using \<open>\<not> blank user\<close> run_getUserPayments [OF assms(1,3,4,6), of w1] by (simp add: run_searchPayments)
  have "?row \<in> set ?ps"
    using newest_payments_all [OF assms(2), of user "w_db w1" "w_tick w1 + 1"] rows user assms(12) by simp
  then have "payment_line_of ?row \<in> set (map payment_line_of ?ps)" "payments_table ?p2 = Rows (map payment_line_of ?ps)"
    by (auto simp: payments_table_def)
  moreover have "pl_orderNumber (payment_line_of ?row) = on" "pl_productId (payment_line_of ?row) = product"
    "pl_amount (payment_line_of ?row) = amount" "pl_currency (payment_line_of ?row) = ''KRW''"
    "pl_status (payment_line_of ?row) = ''PENDING''" "pl_color (payment_line_of ?row) = ''bg-yellow-100 text-yellow-800''"
    using assms(7) by (simp_all add: payment_line_of_def new_row_def new_payment_def payment_data.extend_def
        currency_of_def payment_color_def)
  ultimately show ?thesis using create search
    by (intro exI [of _ ?p1] exI [of _ w1] exI [of _ ?p2] exI [of _ "tick (tick w1)"]
        exI [of _ "map payment_line_of ?ps"] exI [of _ "payment_line_of ?row"] conjI) simp_all
qed

lemma created_payment_is_listed_witness:
  "\<exists>p1 w1 p2 w2 lines line. run (page_createPayment calm (web (\<lambda>_. Delivered)))
      (payments_start\<lparr>pp_newPayment := \<lparr>nf_userId = ''alice'', nf_productId = ''gems'', nf_amount = ''5''\<rparr>\<rparr>, booted) =
        (Inr (), (p1, w1)) \<and>
    run (searchPayments calm (web (\<lambda>_. Delivered))) (p1\<lparr>pp_userId := ''alice''\<rparr>, w1) = (Inr (), (p2, w2)) \<and>
    payments_table p2 = Rows lines \<and> line \<in> set lines \<and> pl_amount line = 500"
proof -
  let ?p = "payments_start\<lparr>pp_newPayment := \<lparr>nf_userId = ''alice'', nf_productId = ''gems'', nf_amount = ''5''\<rparr>\<rparr>"
  have five: "digit_char 5 = CHR ''5''" by (simp add: digit_char_def char_of_def)
  then have "show_int 5 = ''5''" by (simp add: show_int_def int_digits.simps)
  then have "parse_int ''5'' = Some 5" using parse_int_show [of 5] by simp
  then have "form_request (pp_newPayment ?p) = Some (''alice'', ''gems'', 500)"
    using digit_in_digit [of 5 10] five by (simp add: form_request_def js_amount_def)
  moreover have "reads_all calm" "delivers (web (\<lambda>_. Delivered))" "url_segment ''alice''"
    by (simp_all add: reads_all_def delivers_def web_def url_segment_def url_text_def unreserved_def Let_def)
  moreover have "live_order calm sample_request (tick booted) = None"
    "can_insert (order_in calm (tick booted)) sample_request (w_db booted)"
    "can_publish calm (w_tick booted + 6) (order_in calm (tick booted)) (w_db booted)"
    by (simp_all add: live_order_def ttl_reply_def can_insert_def can_publish_def order_in_def order_number_def
        sample_request_def currency_of_def decimal_ok_def payment_select_def)
  moreover have "sample_request = \<lparr>cp_userId = ''alice'', cp_productId = ''gems'', cp_amount = 500, cp_currency = None\<rparr>"
    by (simp add: sample_request_def)
  moreover have "length (filter (\<lambda>r. p_userId r = ''alice'') (payments (w_db booted))) < 20" by simp
  ultimately show ?thesis
    using created_payment_is_listed [OF calm_reliable _ _ web_url_ok, of _ ?p "''alice''" "''gems''" 500 sample_request
        "order_in calm (tick booted)" booted] by blast
qed

section \<open>An answer that comes late\<close>

lemma schedule_then:
  assumes "run_schedule s c = (v, ps)" "i < length ps" "run (ps ! i) v = (Inr x, v')"
  shows "\<exists>s'. run_schedule s' c = (v', ps[i := Done x])"
proof -
  from run_schedule_to_end [OF assms(2) refl assms(3)] obtain n where
    "run_schedule (replicate n i) (v, ps) = (v', ps[i := Done x])" by blast
  then have "run_schedule (s @ replicate n i) c = (v', ps[i := Done x])"
    by (simp add: run_schedule_append assms(1))
  then show ?thesis by blast
qed

text \<open>
  The payments page takes answers in the order they come: a search for one user that is overtaken
  by a search for another leaves the first user's payments on display under the second one's id.
\<close>

lemma late_answer_shown:
  assumes "reliable E" "delivers N" "url_ok N" "url_segment a" "url_segment b" "pp_userId p = a"
  shows "\<exists>s p' w' n. run_schedule s ((p, w), map (payments_handler E N) [SearchPayments, TypeUserId b, SearchPayments]) =
      ((p', w'), [Done (), Done (), Done ()]) \<and>
    pp_userId p' = b \<and> \<not> pp_loading p' \<and> pp_payments p' = PaymentsData (newest_payments E n a (w_db w))"
proof -
  let ?hs = "map (payments_handler E N) [SearchPayments, TypeUserId b, SearchPayments]"
  let ?rest = "attempt (on_world (api_getUserPayments E N a)) (\<lambda>r. set_page (\<lambda>p. case r of
      Inr d \<Rightarrow> p\<lparr>pp_payments := d, pp_loading := False\<rparr> | Inl e \<Rightarrow> p\<lparr>pp_loading := False\<rparr>))"
  let ?p1 = "p\<lparr>pp_loading := True\<rparr>"
  have "\<not> blank a" "\<not> blank b" using assms(4,5) url_segment_not_blank by blast+
  have s0: "run_schedule [0] ((p, w), ?hs) = ((?p1, w), ?hs[0 := ?rest])"
    using \<open>\<not> blank a\<close> assms(6) by (simp add: searchPayments_def on_event_def act_def)
  have h1: "run (?hs[0 := ?rest] ! 1) (?p1, w) = (Inr (), (?p1\<lparr>pp_userId := b\<rparr>, w))" by (simp add: run_set_page)
  from schedule_then [OF s0 _ h1] obtain s1 where
    s1: "run_schedule s1 ((p, w), ?hs) = ((?p1\<lparr>pp_userId := b\<rparr>, w), ?hs[0 := ?rest, 1 := Done ()])" by auto
  let ?p2 = "?p1\<lparr>pp_userId := b, pp_payments := PaymentsData (newest_payments E (w_tick w + 1) b (w_db w)), pp_loading := False\<rparr>"
  have "run (?hs[0 := ?rest, 1 := Done ()] ! 2) (?p1\<lparr>pp_userId := b\<rparr>, w) = (Inr (), (?p2, tick (tick w)))"
    using \<open>\<not> blank b\<close> by (simp add: run_searchPayments run_getUserPayments [OF assms(1-3,5)])
  from schedule_then [OF s1 _ this] obtain s2 where
    s2: "run_schedule s2 ((p, w), ?hs) = ((?p2, tick (tick w)), ?hs[0 := ?rest, 1 := Done (), 2 := Done ()])" by auto
  let ?n = "w_tick (tick (tick w)) + 1"
  have "run (?hs[0 := ?rest, 1 := Done (), 2 := Done ()] ! 0) (?p2, tick (tick w)) =
      (Inr (), (?p2\<lparr>pp_payments := PaymentsData (newest_payments E ?n a (w_db w)), pp_loading := False\<rparr>,
        tick (tick (tick (tick w)))))"
    by (simp add: run_attempt run_on_world run_set_page run_getUserPayments [OF assms(1-4)])
  from schedule_then [OF s2 _ this] obtain s3 where "run_schedule s3 ((p, w), ?hs) =
      ((?p2\<lparr>pp_payments := PaymentsData (newest_payments E ?n a (w_db w)), pp_loading := False\<rparr>,
        tick (tick (tick (tick w)))), [Done (), Done (), Done ()])" by auto
  then show ?thesis by (intro exI conjI) (assumption, simp_all)
qed

section \<open>An id that is not escaped\<close>

lemma split_unescaped:
  assumes "url_segment u"
  shows "fst (split_url (''/api/v1/users/'' @ u @ ''/subscription?'' @ ''/payments'')) =
    [''api'', ''v1'', ''users'', u, ''subscription'']"
proof -
  let ?ss = "[''api'', ''v1'', ''users'', u, ''subscription'']"
  have "url_segment ''subscription''" by (simp add: url_segment_def url_text_def unreserved_def Let_def)
  with assms have ss: "list_all url_segment ?ss" by (simp add: static_segments)
  have "takeWhile (\<lambda>c. c \<noteq> CHR ''?'') (write_path ?ss @ CHR ''?'' # ''/payments'') = write_path ?ss"
    by (rule prefix_no(1) [OF path_no_query [OF ss]])
  moreover have "''/api/v1/users/'' @ u @ ''/subscription?'' @ ''/payments'' = write_path ?ss @ CHR ''?'' # ''/payments''"
    by simp
  ultimately show ?thesis using split_at_path [OF ss] unfolding split_url_def
    by (simp only: Let_def fst_conv drop_Suc_Cons drop_0 One_nat_def)
qed

text \<open>
  Ids are put into URLs as they are: a searched id that ends in /subscription? reaches another
  endpoint, whose answer the page cannot render.
\<close>

lemma unescaped_id_breaks_page:
  assumes "reliable E" "url_segment u" "pp_userId p = u @ ''/subscription?''" "delivers (web d)"
  shows "\<exists>p' w'. run (searchPayments E (web d)) (p, w) = (Inr (), (p', w')) \<and> payments_table p' = RenderError"
proof -
  obtain q where "split_url (''/api/v1/users/'' @ u @ ''/subscription?'' @ ''/payments'') =
      ([''api'', ''v1'', ''users'', u, ''subscription''], q)"
    using split_unescaped [OF assms(2)] by (metis prod.collapse)
  then have "api_getUserPayments E (web d) (u @ ''/subscription?'') =
      through (web d) (SubscriptionController_getActiveSubscription E u)"
    by (simp add: api_getUserPayments_def fetcher_def server_def web_def through_def routed url_segment_nonempty [OF assms(2)])
  then have "\<exists>r. run (api_getUserPayments E (web d) (u @ ''/subscription?'')) w = (Inr (ActiveSubscriptionData r), tick (tick w))"
    by (simp add: SubscriptionController_getActiveSubscription_def run_through_controller [OF assms(4)]
        getActiveSubscription_def run_find_active [OF assms(1)])
  moreover have "\<not> blank (u @ ''/subscription?'')" by (simp add: blank_def is_js_space_def)
  ultimately obtain r where "run (searchPayments E (web d)) (p, w) =
      (Inr (), (p\<lparr>pp_payments := ActiveSubscriptionData r, pp_loading := False\<rparr>, tick (tick w)))"
    using assms(3) by (auto simp: run_searchPayments)
  then show ?thesis by (intro exI conjI) (assumption, simp add: payments_table_def other_table_def)
qed

lemma late_answer_shown_witness:
  "\<exists>s p' w'. run_schedule s ((payments_start\<lparr>pp_userId := ''alice''\<rparr>, with_payment PENDING),
      map (payments_handler calm (web (\<lambda>_. Delivered))) [SearchPayments, TypeUserId ''bob'', SearchPayments]) =
      ((p', w'), [Done (), Done (), Done ()]) \<and>
    pp_userId p' = ''bob'' \<and> pp_payments p' = PaymentsData [sample_payment PENDING]"
proof -
  have "delivers (web (\<lambda>_. Delivered))" "url_segment ''alice''" "url_segment ''bob''"
    by (simp_all add: delivers_def web_def url_segment_def url_text_def unreserved_def Let_def)
  moreover have "newest_payments calm n ''alice'' (w_db (with_payment PENDING)) = [sample_payment PENDING]" for n
    by (simp add: newest_payments_def) (simp add: sample_payment_def)
  ultimately show ?thesis
    using late_answer_shown [OF calm_reliable _ web_url_ok, of _ "''alice''" "''bob''"
        "payments_start\<lparr>pp_userId := ''alice''\<rparr>" "with_payment PENDING"] by fastforce
qed

lemma unescaped_id_breaks_page_witness:
  "\<exists>p' w'. run (searchPayments calm (web (\<lambda>_. Delivered))) (payments_start\<lparr>pp_userId := ''bob/subscription?''\<rparr>, booted) =
      (Inr (), (p', w')) \<and> payments_table p' = RenderError"
proof -
  have "url_segment ''bob''" "delivers (web (\<lambda>_. Delivered))"
    "pp_userId (payments_start\<lparr>pp_userId := ''bob/subscription?''\<rparr>) = ''bob'' @ ''/subscription?''"
    by (simp_all add: delivers_def web_def url_segment_def url_text_def unreserved_def Let_def)
  from unescaped_id_breaks_page [OF calm_reliable this(1,3,2)] show ?thesis .
qed

section \<open>The subscriptions page\<close>

definition form_plan :: "create_subscription_request \<Rightarrow> bool" where
  "form_plan f \<longleftrightarrow> (case plan_of_str (cs_plan f) of
     None \<Rightarrow> False
   | Some plan \<Rightarrow> cs_planId f = (case plan of MONTHLY \<Rightarrow> ''plan-monthly'' | ANNUAL \<Rightarrow> ''plan-annual''))"

lemma form_plan_start: "form_plan monthly_form"
  by (simp add: form_plan_def monthly_form_def plan_of_str_def)

lemma form_plan_choose: "form_plan (choose_plan (plan_str plan) f)"
  by (cases plan) (simp_all add: form_plan_def choose_plan_def plan_of_str_def)

lemma form_plan_typed: "form_plan (f\<lparr>cs_userId := v\<rparr>) = form_plan f"
  by (simp add: form_plan_def split: option.split)

interpretation sub: page "\<lambda>p. form_plan (sp_form p)" subscriptions_start
  by unfold_locales (simp add: subscriptions_start_def form_plan_start)

lemma page_subscriptions: "keeps_page (\<lambda>p. form_plan (sp_form p)) (\<lambda>_. True) (subscriptions_handler E N ev)"
proof (cases ev)
  case SubmitSubscription
  have "keeps_page (\<lambda>p. form_plan (sp_form p)) (\<lambda>_. True) (page_createSubscription E N)"
    unfolding page_createSubscription_def
    by (rule sub.page_seq [OF sub.page_event [where Q = "\<lambda>_. True"]])
      (auto intro!: sub.page_Done sub.page_Fail sub.page_call [where Q = "\<lambda>_. True"] sub.page_seq [OF sub.page_true]
        simp: form_plan_start)
  with SubmitSubscription show ?thesis by simp
next
  case SearchSubscription
  have "keeps_page (\<lambda>p. form_plan (sp_form p)) (\<lambda>_. True) (searchSubscription E N)"
    unfolding searchSubscription_def
    by (rule sub.page_seq [OF sub.page_event [where Q = "\<lambda>_. True"]])
      (auto intro!: sub.page_Done sub.page_call [OF sub.page_true] split: option.split)
  with SearchSubscription show ?thesis by simp
next
  case CancelClicked
  have "keeps_page (\<lambda>p. form_plan (sp_form p)) (\<lambda>_. True) (page_cancelSubscription E N)"
    unfolding page_cancelSubscription_def
    by (rule sub.page_seq [OF sub.page_event [where Q = "\<lambda>_. True"]])
      (auto intro!: sub.page_Done sub.page_call [where Q = "\<lambda>_. True"] sub.page_seq [OF sub.page_true] sub.page_true)
  with CancelClicked show ?thesis by simp
qed (auto intro!: sub.page_set simp: form_plan_choose form_plan_typed)

text \<open>
  The form of the subscriptions page always holds one of the two plans, with the plan id that
  belongs to it, so the unknown plan that the service would answer with 500 cannot come from it.
\<close>

lemma subscription_form_valid:
  "form_plan (sp_form (fst (fst (run_schedule s
     ((subscriptions_start, w), map (subscriptions_handler E N) evs @ map on_world others)))))"
proof -
  have "\<forall>h \<in> set (map (subscriptions_handler E N) evs @ map on_world others).
      keeps_page (\<lambda>p. form_plan (sp_form p)) (\<lambda>_. True) h"
    by (auto simp: page_subscriptions sub.page_true)
  from sub.page_always [OF this, of s w] show ?thesis .
qed

text \<open>Cancelling the subscription on display.\<close>

lemma run_api_cancelSubscription:
  assumes "delivers N" "url_ok N" "url_segment sid" "run (cancelSubscription E sid reason) (tick w) = (Inr (), w')"
  shows "run (api_cancelSubscription E N sid reason) w = (Inr NoData, w')"
  unfolding api_cancelSubscription_reaches [OF assms(2,3)] complete_controllers
  using assms(4) by (simp add: run_through_controller [OF assms(1)])

lemma run_api_getSubscription:
  assumes "reliable E" "delivers N" "url_ok N" "url_segment sid" "subscription_select sid (w_db w) = Some r"
  shows "run (api_getSubscription E N sid) w = (Inr (SubscriptionData r), tick (tick w))"
  unfolding api_getSubscription_reaches [OF assms(3,4)] SubscriptionController_getSubscription_def
  using assms(5)
  by (simp add: run_through_controller [OF assms(2)] getSubscription_def run_seq run_find_subscription [OF assms(1)] run_basic)

text \<open>
  C35: The cancel button of the subscriptions page: for an active subscription on display the page
  afterwards shows it as CANCELLED, not renewing, with the same end date and without the button.
\<close>

theorem cancel_button_works:
  assumes "reliable E" "delivers N" "url_ok N" "url_segment sid"
    and "sp_subscription p = SubscriptionData r0" "s_subscriptionId r0 = sid"
    and "subscription_select sid (w_db w) = Some r" "s_status r = ACTIVE" "can_publish E (w_tick w + 5) sid (w_db w)"
  shows "\<exists>p' w' c. run (page_cancelSubscription E N) (p, w) = (Inr (), (p', w')) \<and>
    subscription_view p' = Card c \<and> sc_subscriptionId c = sid \<and> sc_status c = ''CANCELLED'' \<and>
    sc_autoRenew c = ''No'' \<and> \<not> sc_cancelButton c \<and> sc_end c = s_endDate r \<and> sp_error p' = sp_error p"
proof -
  let ?r = "cancelled_row ''Admin cancelled'' (clock E (w_tick w + 2)) (sql_now (db_clock E (w_tick w + 3))) r"
  have "subscription_select sid (w_db (tick w)) = Some r" "can_publish E (w_tick (tick w) + 4) sid (w_db (tick w))"
    using assms(7,9) by (simp_all add: eval_nat_numeral)
  from cancelSubscription_run [OF assms(1) this(1) assms(8) _ this(2), of "''Admin cancelled''"] obtain w1 ev where
    run: "run (cancelSubscription E sid ''Admin cancelled'') (tick w) = (Inr (), w1)"
    and core: "core w1 = core ((tick w)\<lparr>w_db := add_event ev ((w_db (tick w))\<lparr>subscriptions := with_key s_subscriptionId sid
        (cancelled_row ''Admin cancelled'' (clock E (w_tick (tick w) + 1)) (sql_now (db_clock E (w_tick (tick w) + 2))))
        (subscriptions (w_db (tick w)))\<rparr>)\<rparr>)" by auto
  have "subscription_select sid (w_db w1) = Some ?r"
    using core_eqD(2) [OF core] assms(7)
    by (simp add: subscription_select_def find_row_with_key cancelled_row_def eval_nat_numeral)
  from run_api_getSubscription [OF assms(1-4) this] run_api_cancelSubscription [OF assms(2-4) run]
  have "run (page_cancelSubscription E N) (p, w) = (Inr (), (p\<lparr>sp_subscription := SubscriptionData ?r\<rparr>, tick (tick w1)))"
    using assms(5,6) by (simp add: page_cancelSubscription_def nullish_def subscriptionId_of_def run_simps)
  moreover have "s_subscriptionId r = sid"
    using assms(7) find_row_Some by (fastforce simp: subscription_select_def)
  then have "subscription_view (p\<lparr>sp_subscription := SubscriptionData ?r\<rparr>) = Card (subscription_card_of ?r)"
    "sc_subscriptionId (subscription_card_of ?r) = sid" "sc_status (subscription_card_of ?r) = ''CANCELLED''"
    "sc_autoRenew (subscription_card_of ?r) = ''No''" "\<not> sc_cancelButton (subscription_card_of ?r)"
    "sc_end (subscription_card_of ?r) = s_endDate r"
    by (simp_all add: subscription_view_def nullish_def subscription_card_of_def cancelled_row_def)
  ultimately show ?thesis
    by (intro exI [of _ "p\<lparr>sp_subscription := SubscriptionData ?r\<rparr>"] exI [of _ "tick (tick w1)"]
        exI [of _ "subscription_card_of ?r"]) simp
qed

lemma cancel_button_works_witness:
  "\<exists>p' w' c. run (page_cancelSubscription calm (web (\<lambda>_. Delivered)))
      (subscriptions_start\<lparr>sp_subscription := SubscriptionData (sample_subscription ACTIVE True)\<rparr>, with_subscription ACTIVE True) =
        (Inr (), (p', w')) \<and>
    subscription_view p' = Card c \<and> sc_status c = ''CANCELLED'' \<and> \<not> sc_cancelButton c"
proof -
  let ?p = "subscriptions_start\<lparr>sp_subscription := SubscriptionData (sample_subscription ACTIVE True)\<rparr>"
  have "delivers (web (\<lambda>_. Delivered))" "url_segment ''S1''" "s_subscriptionId (sample_subscription ACTIVE True) = ''S1''"
    "can_publish calm (w_tick (with_subscription ACTIVE True) + 5) ''S1'' (w_db (with_subscription ACTIVE True))"
    by (simp_all add: delivers_def web_def url_segment_def url_text_def unreserved_def Let_def sample_subscription_def
        can_publish_def latest_version_def)
  from cancel_button_works [OF calm_reliable this(1) web_url_ok this(2) _ this(3) _ _ this(4), of ?p
      "sample_subscription ACTIVE True"]
  obtain p' w' c where "run (page_cancelSubscription calm (web (\<lambda>_. Delivered))) (?p, with_subscription ACTIVE True) =
      (Inr (), (p', w'))" "subscription_view p' = Card c" "sc_status c = ''CANCELLED''" "\<not> sc_cancelButton c" by auto
  then show ?thesis by (intro exI conjI)
qed

section \<open>The start page\<close>

text \<open>A program that returns, and leaves the database as it is.\<close>

primrec reads :: "database \<Rightarrow> ('a \<Rightarrow> bool) \<Rightarrow> 'a io \<Rightarrow> bool" where
  "reads db Q (Done x) = Q x"
| "reads db Q (Fail e) = False"
| "reads db Q (Act g k) = (\<forall>w. w_db w = db \<longrightarrow> w_db (g w) = db \<and> reads db Q (k w))"

lemma reads_seq: "reads db Q' m \<Longrightarrow> (\<And>x. Q' x \<Longrightarrow> reads db Q (f x)) \<Longrightarrow> reads db Q (seq m f)"
  by (induction m) auto

lemma reads_catch: "reads db Q m \<Longrightarrow> reads db Q (catch m h)"
  by (induction m) auto

lemma reads_act:
  assumes "\<And>w. w_db w = db \<Longrightarrow> \<exists>x w'. f w = (Inr x, w') \<and> w_db w' = db \<and> Q x"
  shows "reads db Q (act f)"
  using assms by (fastforce simp: act_def)

lemma reads_run: "reads db Q p \<Longrightarrow> w_db w = db \<Longrightarrow> \<exists>x w'. run p w = (Inr x, w') \<and> w_db w' = db \<and> Q x"
  by (induction p arbitrary: w) auto

lemma reads_both_right:
  assumes "\<And>w q. w_db w = db \<Longrightarrow> reads db R q \<Longrightarrow> reads db (\<lambda>(x, y). Q x \<and> R y) (f w q)"
    and "reads db Q (Act g k)" "reads db R q"
  shows "reads db (\<lambda>(x, y). Q x \<and> R y) (both_right pick g f (Act g k) q)"
  using assms(3)
proof (induction q)
  case (Done y)
  show ?case unfolding both_right.simps by (rule reads_seq [OF assms(2)]) (use Done in simp)
next
  case (Act g' k')
  then show ?case using assms(1,2) by simp
qed simp

lemma reads_both:
  assumes "reads db Q p" "reads db R q"
  shows "reads db (\<lambda>(x, y). Q x \<and> R y) (both pick p q)"
  using assms
proof (induction p arbitrary: q)
  case (Done x)
  then show ?case by (auto intro: reads_seq)
next
  case (Act g k)
  then show ?case unfolding both.simps by (intro reads_both_right) auto
qed simp

lemma reads_through:
  assumes "delivers N" "reads db Q m" "status \<in> {200, 201}" "\<And>x. Q x \<Longrightarrow> R (f x) \<and> (\<forall>t. f x \<noteq> HealthData t)"
  shows "reads db R (through N (or_next (seq m (\<lambda>x. reply status (f x)))))"
proof -
  let ?ok = "\<lambda>rs. \<exists>d. rs = \<lparr>rs_status = status, rs_body = Success d\<rparr> \<and> R d \<and> (\<forall>t. d \<noteq> HealthData t)"
  have "reads db ?ok (or_next (seq m (\<lambda>x. reply status (f x))))"
    unfolding or_next_def by (rule reads_catch [OF reads_seq [OF assms(2)]]) (use assms(4) in \<open>simp add: reply_def\<close>)
  from reads_seq [OF this, of "\<lambda>r. \<exists>rs. r = Json rs \<and> ?ok rs"]
  have p: "reads db (\<lambda>r. \<exists>rs. r = Json rs \<and> ?ok rs) (seq (or_next (seq m (\<lambda>x. reply status (f x)))) (\<lambda>rs. Done (Json rs)))"
    by simp
  have "reads db (\<lambda>d. d = Delivered) (act (\<lambda>w. (Inr (cl_delivery N (w_tick w)), tick w)))"
    by (rule reads_act) (use assms(1) in \<open>simp add: delivers_def\<close>)
  from reads_seq [OF this, of "\<lambda>r. \<exists>rs. r = Json rs \<and> ?ok rs"] p show ?thesis
    unfolding through_def exchange_def
    by (intro reads_seq [where Q' = "\<lambda>r. \<exists>rs. r = Json rs \<and> ?ok rs"])
      (use assms(3) in \<open>auto simp: unwrap_def json_data_def split: response_data.split\<close>)
qed

lemma reads_sql:
  assumes "reliable E" "\<And>n now. \<exists>x. st n now db = Inr (x, db) \<and> Q x"
  shows "reads db Q (sql E st)"
  unfolding sql_def remote_def
proof (rule reads_act)
  fix w :: world assume "w_db w = db"
  moreover obtain x where "st (w_tick w) (sql_now (db_clock E (w_tick w))) db = Inr (x, db)" "Q x"
    using assms(2) by blast
  ultimately show "\<exists>x w'. (case fault E (w_tick w) of
       NoFault \<Rightarrow> sql_effect (st (w_tick w)) (sql_now (db_clock E (w_tick w))) (tick w)
     | NotApplied m \<Rightarrow> (Inl (Unavailable m), tick w)
     | AppliedButLost m \<Rightarrow> (Inl (Unavailable m), snd (sql_effect (st (w_tick w)) (sql_now (db_clock E (w_tick w))) (tick w)))) =
      (Inr x, w') \<and> w_db w' = db \<and> Q x"
    using assms(1) by (simp add: reliable_def sql_effect_def)
qed

definition recent_events :: "env \<Rightarrow> nat \<Rightarrow> nat \<Rightarrow> database \<Rightarrow> stored_event list" where
  "recent_events E m n db = take m (sort_key (\<lambda>r. - se_occurredAt r) (event_order E n (event_store db)))"

lemma reads_home:
  assumes "reliable E" "delivers N" "url_ok N"
  shows "reads db (\<lambda>d. d = StatsData (total_stats_of db)) (api_getTotalStats E N)"
    "reads db (\<lambda>d. \<exists>n. d = EventsData (recent_events E 20 n db)) (api_getRecentEvents E N (Some 20))"
proof -
  have "reads db (\<lambda>s. s = total_stats_of db) (getTotalStats E)"
    unfolding getTotalStats_def by (rule reads_sql [OF assms(1)]) (simp add: reading_def)
  then show "reads db (\<lambda>d. d = StatsData (total_stats_of db)) (api_getTotalStats E N)"
    unfolding api_getTotalStats_reaches [OF assms(3)] EventController_getTotalStats_def
    by (rule reads_through [OF assms(2)]) simp_all
  have "reads db (\<lambda>es. \<exists>n. es = recent_events E 20 n db) (EventStoreRepository_findRecent E (Some 20))"
    unfolding EventStoreRepository_findRecent_def
    by (rule reads_sql [OF assms(1)]) (auto simp: reading_page_def sql_page_def default_to_def recent_events_def)
  then have "reads db (\<lambda>d. \<exists>n. d = EventsData (recent_events E 20 n db))
      (through N (EventController_getRecentEvents E (Some (show_int 20))))"
    unfolding EventController_getRecentEvents_def
    by (intro reads_through [OF assms(2)]) (simp_all add: int_param_def parse_int_show)
  then show "reads db (\<lambda>d. \<exists>n. d = EventsData (recent_events E 20 n db)) (api_getRecentEvents E N (Some 20))"
    by (simp add: api_getRecentEvents_reaches [OF assms(3)])
qed

lemma home_cards_shown:
  "map (\<lambda>c. (st_title c, st_value c)) (home_cards (StatsData (total_stats_of db))) =
    (let total = (\<lambda>column. sum_list (map column (payment_summary db))) in
     [(''Total Revenue'', Amount (total sm_totalRevenue)), (''Transactions'', Count (total sm_totalTransactions)),
      (''Successful'', Count (total sm_successfulTransactions)),
      (''Failed / Refunds'', Counts (total sm_failedTransactions) (total sm_refundCount))])"
  by (simp add: home_cards_def StatsCard_def stat_def total_stats_of_def sql_sum_def Let_def)

text \<open>
  C36: The start page shows the read model: when its two calls are answered, in whatever order their
  steps interleave, the cards show exactly the totals of the summary table and the timeline the
  twenty newest events, and loading changes nothing.
\<close>

theorem start_page_shows_totals:
  assumes "reliable E" "delivers N" "url_ok N"
  shows "\<exists>p' w' cards n. run (home_load E N) (p, w) = (Inr (), (p', w')) \<and> w_db w' = w_db w \<and>
    home_view p' = Some (cards, event_timeline (EventsData (recent_events E 20 n (w_db w)))) \<and>
    map (\<lambda>c. (st_title c, st_value c)) cards =
      (let total = (\<lambda>column. sum_list (map column (payment_summary (w_db w)))) in
       [(''Total Revenue'', Amount (total sm_totalRevenue)), (''Transactions'', Count (total sm_totalTransactions)),
        (''Successful'', Count (total sm_successfulTransactions)),
        (''Failed / Refunds'', Counts (total sm_failedTransactions) (total sm_refundCount))])"
proof -
  let ?m = "both (\<lambda>w. cl_pick N (w_tick w)) (api_getTotalStats E N) (api_getRecentEvents E N (Some 20))"
  have "reads (w_db w) (\<lambda>(x, y). x = StatsData (total_stats_of (w_db w)) \<and>
      (\<exists>n. y = EventsData (recent_events E 20 n (w_db w)))) ?m"
    by (rule reads_both [OF reads_home [OF assms]])
  from reads_run [OF this refl]
  obtain n w' where "run ?m w = (Inr (StatsData (total_stats_of (w_db w)), EventsData (recent_events E 20 n (w_db w))), w')"
    "w_db w' = w_db w" by auto
  then have "run (home_load E N) (p, w) = (Inr (), (p\<lparr>hp_stats := StatsData (total_stats_of (w_db w)),
      hp_events := EventsData (recent_events E 20 n (w_db w)), hp_loading := False\<rparr>, w'))" "w_db w' = w_db w"
    by (simp_all add: home_load_def run_simps)
  then show ?thesis by (intro exI conjI) (assumption | simp add: home_view_def home_cards_shown)+
qed

lemma start_page_shows_totals_witness:
  "\<exists>p' w' cards events. run (home_load calm (web (\<lambda>_. Delivered))) (home_start, booted) = (Inr (), (p', w')) \<and>
    home_view p' = Some (cards, events) \<and> map st_value cards = [Amount 0, Count 0, Count 0, Counts 0 0]"
proof -
  have "delivers (web (\<lambda>_. Delivered))" by (simp add: delivers_def web_def)
  from start_page_shows_totals [OF calm_reliable this web_url_ok, of home_start booted]
  obtain p' w' cards events where "run (home_load calm (web (\<lambda>_. Delivered))) (home_start, booted) = (Inr (), (p', w'))"
    "home_view p' = Some (cards, events)"
    and cards: "map (\<lambda>c. (st_title c, st_value c)) cards = [(''Total Revenue'', Amount 0), (''Transactions'', Count 0),
      (''Successful'', Count 0), (''Failed / Refunds'', Counts 0 0)]" by auto
  moreover have "map st_value cards = map snd (map (\<lambda>c. (st_title c, st_value c)) cards)" by simp
  then have "map st_value cards = [Amount 0, Count 0, Count 0, Counts 0 0]" by (simp only: cards) simp
  ultimately show ?thesis by - (intro exI conjI)
qed

end
