(* ===== verification/Config.thy ===== *)
theory Config
  imports JsString
begin

text \<open>
  The configuration of the process: \<open>config/env.ts\<close>, the options of the two clients in
  \<open>config/database.ts\<close> and \<open>config/redis.ts\<close>, and the wiring of \<open>config/container.ts\<close> with the
  constructors it serves. The environment variables (after dotenv has added those of the
  \<open>.env\<close> file) are a parameter, a function from names to values. A number is \<open>None\<close> when it
  is \<open>NaN\<close>.
\<close>

section \<open>Environment variables\<close>

type_synonym variables = "string \<Rightarrow> string option"

text \<open>\<open>process.env.NAME || d\<close>: a missing variable and an empty one both give the default.\<close>

definition env_or :: "variables \<Rightarrow> string \<Rightarrow> string \<Rightarrow> string" where
  "env_or v name d = (case v name of None \<Rightarrow> d | Some s \<Rightarrow> if s = '''' then d else s)"

text \<open>\<open>parseInt(s, 10)\<close>: unlike without a radix, \<open>0x\<close> is no prefix.\<close>

definition parse_int_10 :: "string \<Rightarrow> int option" where
  "parse_int_10 s =
     (let s1 = dropWhile is_js_space s;
          neg = (take 1 s1 = ''-'');
          s2 = (if take 1 s1 = ''-'' \<or> take 1 s1 = ''+'' then drop 1 s1 else s1);
          vs = digit_prefix 10 s2
      in if vs = [] then None else Some ((if neg then - 1 else 1) * digits_val 10 vs))"

record db_config =
  db_host :: string
  db_port :: "int option"
  db_user :: string
  db_password :: string
  db_database :: string
  db_connectionLimit :: "int option"

record redis_config =
  rd_host :: string
  rd_port :: "int option"

record app_config =
  cfg_port :: "int option"
  cfg_nodeEnv :: string
  cfg_db :: db_config
  cfg_redis :: redis_config
  cfg_bullBoardPort :: "int option"

definition env_config :: "variables \<Rightarrow> app_config" where
  "env_config v =
     \<lparr>cfg_port = parse_int_10 (env_or v ''PORT'' ''3000''),
      cfg_nodeEnv = env_or v ''NODE_ENV'' ''development'',
      cfg_db =
        \<lparr>db_host = env_or v ''DB_HOST'' ''localhost'',
         db_port = parse_int_10 (env_or v ''DB_PORT'' ''3306''),
         db_user = env_or v ''DB_USER'' ''gamepay'',
         db_password = env_or v ''DB_PASSWORD'' ''gamepay_secret'',
         db_database = env_or v ''DB_NAME'' ''gamepay'',
         db_connectionLimit = parse_int_10 (env_or v ''DB_CONNECTION_LIMIT'' ''10'')\<rparr>,
      cfg_redis =
        \<lparr>rd_host = env_or v ''REDIS_HOST'' ''localhost'',
         rd_port = parse_int_10 (env_or v ''REDIS_PORT'' ''6379'')\<rparr>,
      cfg_bullBoardPort = parse_int_10 (env_or v ''BULL_BOARD_PORT'' ''3001'')\<rparr>"

text \<open>The options the constructors hand to mysql2 and ioredis.\<close>

record pool_options =
  po_db :: db_config
  po_waitForConnections :: bool
  po_queueLimit :: int
  po_idleTimeout :: int

definition DatabaseConnectionPool_options :: "app_config \<Rightarrow> pool_options" where
  "DatabaseConnectionPool_options c =
     \<lparr>po_db = cfg_db c, po_waitForConnections = True, po_queueLimit = 2000, po_idleTimeout = 60000\<rparr>"

record redis_options =
  ro_redis :: redis_config
  ro_maxRetriesPerRequest :: "nat option"
  ro_enableReadyCheck :: bool

definition RedisClient_options :: "app_config \<Rightarrow> redis_options" where
  "RedisClient_options c =
     \<lparr>ro_redis = cfg_redis c, ro_maxRetriesPerRequest = None, ro_enableReadyCheck = False\<rparr>"

section \<open>Reading numbers\<close>

lemma parse_int_10_show: "parse_int_10 (show_int n) = Some n"
proof -
  have "0 \<le> \<bar>n\<bar>" by simp
  then obtain d ds where d: "int_digits \<bar>n\<bar> = d # ds" "is_digit d" "\<forall>x \<in> set ds. is_digit x"
    by (rule int_digits_head)
  have val: "digits_val 10 (d # ds) = \<bar>n\<bar>" using int_digits_val [of "\<bar>n\<bar>"] d(1) by simp
  have pre: "digit_prefix 10 (map digit_char (d # ds)) = d # ds"
    using digit_prefix_digits [of "d # ds" 10 "[]"] d by simp
  have "\<not> is_js_space CHR ''-''" by (simp add: is_js_space_def)
  with pre val d show ?thesis
    by (cases "n < 0") (auto simp: parse_int_10_def Let_def show_int_def digit_char_neq)
qed

text \<open>
  A variable set to a decimal number is read back as that number, 0 and negative numbers
  included; a variable that is missing or empty gives the default; and one that does not start
  with a number gives \<open>NaN\<close>, never the default.
\<close>

lemma env_config_numbers:
  "v ''PORT'' = Some (show_int n) \<Longrightarrow> cfg_port (env_config v) = Some n"
  "v ''PORT'' = None \<or> v ''PORT'' = Some '''' \<Longrightarrow> cfg_port (env_config v) = Some 3000"
  "v ''PORT'' = Some s \<Longrightarrow> s \<noteq> '''' \<Longrightarrow> parse_int_10 s = None \<Longrightarrow> cfg_port (env_config v) = None"
proof -
  have "show_int n \<noteq> ''''" for n
    using parse_int_10_show [of n] by (auto simp: parse_int_10_def Let_def)
  then show "v ''PORT'' = Some (show_int n) \<Longrightarrow> cfg_port (env_config v) = Some n"
    by (simp add: env_config_def env_or_def parse_int_10_show)
  have "parse_int_10 ''3000'' = Some 3000" by code_simp
  then show "v ''PORT'' = None \<or> v ''PORT'' = Some '''' \<Longrightarrow> cfg_port (env_config v) = Some 3000"
    by (auto simp: env_config_def env_or_def)
qed (simp add: env_config_def env_or_def)

lemma port_not_a_number: "cfg_port (env_config [''PORT'' \<mapsto> ''http'']) = None"
proof (rule env_config_numbers(3))
  show "parse_int_10 ''http'' = None" by code_simp
qed simp_all

text \<open>With the values of \<open>.env.example\<close> the configuration is the one of no variables at all.\<close>

definition env_example :: variables where
  "env_example = map_of
     [(''PORT'', ''3000''), (''NODE_ENV'', ''development''), (''DB_HOST'', ''localhost''), (''DB_PORT'', ''3306''),
      (''DB_USER'', ''gamepay''), (''DB_PASSWORD'', ''gamepay_secret''), (''DB_NAME'', ''gamepay''),
      (''DB_CONNECTION_LIMIT'', ''10''), (''REDIS_HOST'', ''localhost''), (''REDIS_PORT'', ''6379''),
      (''BULL_BOARD_PORT'', ''3001'')]"

lemma env_example_defaults: "env_config env_example = env_config (\<lambda>_. None)"
  by (simp add: env_config_def env_or_def env_example_def)

section \<open>Wiring\<close>

text \<open>The classes of the container, and what the constructor of each asks for (\<open>@inject\<close>).\<close>

datatype service =
    Svc_DatabaseConnectionPool | Svc_RedisClient | Svc_EventBus | Svc_QueueManager
  | Svc_PaymentRepository | Svc_SubscriptionRepository | Svc_EventStoreRepository
  | Svc_PaymentHandler | Svc_SubscriptionHandler
  | Svc_AutopayWorker | Svc_PaymentSummaryProjector
  | Svc_PaymentController | Svc_SubscriptionController | Svc_EventController

definition setupContainer :: "service list" where
  "setupContainer =
     [Svc_DatabaseConnectionPool, Svc_RedisClient,
      Svc_EventBus, Svc_QueueManager,
      Svc_PaymentRepository, Svc_SubscriptionRepository, Svc_EventStoreRepository,
      Svc_PaymentHandler, Svc_SubscriptionHandler,
      Svc_AutopayWorker, Svc_PaymentSummaryProjector,
      Svc_PaymentController, Svc_SubscriptionController, Svc_EventController]"

definition PaymentHandler_injects :: "service list" where
  "PaymentHandler_injects = [Svc_PaymentRepository, Svc_EventBus, Svc_QueueManager, Svc_RedisClient]"

definition SubscriptionHandler_injects :: "service list" where
  "SubscriptionHandler_injects = [Svc_SubscriptionRepository, Svc_EventBus]"

definition AutopayWorker_injects :: "service list" where
  "AutopayWorker_injects = [Svc_SubscriptionRepository, Svc_EventBus, Svc_QueueManager, Svc_PaymentHandler]"

definition PaymentSummaryProjector_injects :: "service list" where
  "PaymentSummaryProjector_injects = [Svc_DatabaseConnectionPool, Svc_EventBus]"

definition EventController_injects :: "service list" where
  "EventController_injects = [Svc_EventStoreRepository, Svc_PaymentSummaryProjector]"

definition PaymentController_injects :: "service list" where
  "PaymentController_injects = [Svc_PaymentHandler]"

definition SubscriptionController_injects :: "service list" where
  "SubscriptionController_injects = [Svc_SubscriptionHandler]"

definition EventBus_injects :: "service list" where
  "EventBus_injects = [Svc_EventStoreRepository]"

definition PaymentRepository_injects :: "service list" where
  "PaymentRepository_injects = [Svc_DatabaseConnectionPool]"

definition SubscriptionRepository_injects :: "service list" where
  "SubscriptionRepository_injects = [Svc_DatabaseConnectionPool]"

definition EventStoreRepository_injects :: "service list" where
  "EventStoreRepository_injects = [Svc_DatabaseConnectionPool]"

definition QueueManager_injects :: "service list" where
  "QueueManager_injects = [Svc_RedisClient]"

fun injects :: "service \<Rightarrow> service list" where
  "injects Svc_PaymentHandler = PaymentHandler_injects"
| "injects Svc_SubscriptionHandler = SubscriptionHandler_injects"
| "injects Svc_AutopayWorker = AutopayWorker_injects"
| "injects Svc_PaymentSummaryProjector = PaymentSummaryProjector_injects"
| "injects Svc_EventController = EventController_injects"
| "injects Svc_PaymentController = PaymentController_injects"
| "injects Svc_SubscriptionController = SubscriptionController_injects"
| "injects Svc_EventBus = EventBus_injects"
| "injects Svc_PaymentRepository = PaymentRepository_injects"
| "injects Svc_SubscriptionRepository = SubscriptionRepository_injects"
| "injects Svc_EventStoreRepository = EventStoreRepository_injects"
| "injects Svc_QueueManager = QueueManager_injects"
| "injects Svc_DatabaseConnectionPool = []"
| "injects Svc_RedisClient = []"

lemmas injects_defs = PaymentHandler_injects_def SubscriptionHandler_injects_def AutopayWorker_injects_def
  PaymentSummaryProjector_injects_def EventController_injects_def PaymentController_injects_def
  SubscriptionController_injects_def EventBus_injects_def PaymentRepository_injects_def
  SubscriptionRepository_injects_def EventStoreRepository_injects_def QueueManager_injects_def

text \<open>The classes the process asks the container for itself: \<open>startServer\<close> and \<open>createRouter\<close>.\<close>

definition resolved_by_app :: "service list" where
  "resolved_by_app = [Svc_PaymentController, Svc_SubscriptionController, Svc_EventController,
     Svc_PaymentSummaryProjector, Svc_AutopayWorker]"

inductive needs :: "service \<Rightarrow> service \<Rightarrow> bool" where
  "d \<in> set (injects s) \<Longrightarrow> needs s d"

text \<open>
  The wiring is complete and without cycles: every class a constructor asks for is registered,
  once, as a singleton; no class needs itself, directly or through others, so resolving
  terminates; and every registered class is needed by one the process resolves. That the handlers,
  the worker and the projector share one event bus, and all repositories one pool, is what lets
  the model keep one registry of subscribers and one database.
\<close>

fun rank :: "service \<Rightarrow> nat" where
  "rank Svc_DatabaseConnectionPool = 0"
| "rank Svc_RedisClient = 0"
| "rank Svc_PaymentRepository = 1"
| "rank Svc_SubscriptionRepository = 1"
| "rank Svc_EventStoreRepository = 1"
| "rank Svc_QueueManager = 1"
| "rank Svc_EventBus = 2"
| "rank Svc_PaymentHandler = 3"
| "rank Svc_SubscriptionHandler = 3"
| "rank Svc_PaymentSummaryProjector = 3"
| "rank Svc_AutopayWorker = 4"
| "rank _ = 5"

lemma needs_rank: "needs s d \<Longrightarrow> rank d < rank s"
  by (erule needs.cases, cases s) (auto simp: injects_defs)

lemma wiring_acyclic: "\<not> needs\<^sup>+\<^sup>+ s s"
proof -
  have "needs\<^sup>+\<^sup>+ s d \<Longrightarrow> rank d < rank s" for s d
    by (induction rule: tranclp_induct) (auto dest: needs_rank)
  then show ?thesis by fastforce
qed

lemma wiring_registered: "distinct setupContainer" "s \<in> set setupContainer"
  by (simp_all add: setupContainer_def) (cases s; simp)

lemma wiring_used: "\<exists>r \<in> set resolved_by_app. needs\<^sup>*\<^sup>* r s"
proof -
  have step: "needs\<^sup>*\<^sup>* r d" if "needs\<^sup>*\<^sup>* r s" "d \<in> set (injects s)" for r s d
    using that by (meson needs.intros rtranclp.rtrancl_into_rtrancl)
  have pay: "needs\<^sup>*\<^sup>* Svc_PaymentController Svc_PaymentHandler"
    "needs\<^sup>*\<^sup>* Svc_SubscriptionController Svc_SubscriptionHandler"
    by (rule step, rule rtranclp.rtrancl_refl, simp add: injects_defs)+
  have mid: "needs\<^sup>*\<^sup>* Svc_PaymentController d" if "d \<in> set PaymentHandler_injects" for d
    using step [OF pay(1)] that by simp
  have sub: "needs\<^sup>*\<^sup>* Svc_SubscriptionController Svc_SubscriptionRepository"
    by (rule step [OF pay(2)]) (simp add: injects_defs)
  have log: "needs\<^sup>*\<^sup>* Svc_PaymentController Svc_EventStoreRepository"
    by (rule step [OF mid [of Svc_EventBus]]) (simp_all add: injects_defs)
  have pool: "needs\<^sup>*\<^sup>* Svc_PaymentController Svc_DatabaseConnectionPool"
    by (rule step [OF log]) (simp add: injects_defs)
  show ?thesis
    using pay mid sub log pool
    by (cases s) (auto simp: resolved_by_app_def injects_defs intro: rtranclp.rtrancl_refl)
qed

end
