(* ===== verification/Connections.thy ===== *)
theory Connections
  imports Config HttpLaws
begin

text \<open>
  The rest of \<open>config/database.ts\<close> and \<open>config/redis.ts\<close>: the connections the clients give out,
  the transaction wrapper and closing. What mysql2 and ioredis do is a parameter, a record of
  programs over any state; \<open>traced\<close> notes the calls a transaction makes, in their order, and
  leaves what they do to the driver. No handler of the program uses a transaction: the statements
  of an operation are separate (see \<open>completePayment_loses_event\<close>).
\<close>

section \<open>The wrapper\<close>

text \<open>\<open>try m finally f\<close>: \<open>f\<close> runs however \<open>m\<close> ends, and what \<open>f\<close> throws replaces the outcome.\<close>

primrec try_finally :: "('w, 'e, 'a) prog \<Rightarrow> ('w, 'e, unit) prog \<Rightarrow> ('w, 'e, 'a) prog" where
  "try_finally (Done x) f = seq f (\<lambda>_. Done x)"
| "try_finally (Fail e) f = seq f (\<lambda>_. Fail e)"
| "try_finally (Act g k) f = Act g (\<lambda>w. try_finally (k w) f)"

record ('w, 'e, 'c) mysql_pool =
  pool_getConnection :: "('w, 'e, 'c) prog"
  pool_end :: "('w, 'e, unit) prog"
  conn_beginTransaction :: "'c \<Rightarrow> ('w, 'e, unit) prog"
  conn_commit :: "'c \<Rightarrow> ('w, 'e, unit) prog"
  conn_rollback :: "'c \<Rightarrow> ('w, 'e, unit) prog"
  conn_release :: "'c \<Rightarrow> ('w, 'e, unit) prog"

definition DatabaseConnectionPool_getConnection :: "('w, 'e, 'c) mysql_pool \<Rightarrow> ('w, 'e, 'c) prog" where
  "DatabaseConnectionPool_getConnection P = pool_getConnection P"

definition DatabaseConnectionPool_transaction ::
    "('w, 'e, 'c) mysql_pool \<Rightarrow> ('c \<Rightarrow> ('w, 'e, 'a) prog) \<Rightarrow> ('w, 'e, 'a) prog" where
  "DatabaseConnectionPool_transaction P fn =
     seq (pool_getConnection P) (\<lambda>conn.
     try_finally
       (catch
         (seq (conn_beginTransaction P conn) (\<lambda>_.
          seq (fn conn) (\<lambda>result.
          seq (conn_commit P conn) (\<lambda>_.
          Done result))))
         (\<lambda>error. seq (conn_rollback P conn) (\<lambda>_. Fail error)))
       (conn_release P conn))"

definition DatabaseConnectionPool_close :: "('w, 'e, 'c) mysql_pool \<Rightarrow> ('w, 'e, unit) prog" where
  "DatabaseConnectionPool_close P = pool_end P"

record ('w, 'e, 'c) ioredis =
  redis_client :: 'c
  redis_quit :: "('w, 'e, unit) prog"

definition RedisClient_getClient :: "('w, 'e, 'c) ioredis \<Rightarrow> 'c" where
  "RedisClient_getClient R = redis_client R"

definition RedisClient_close :: "('w, 'e, 'c) ioredis \<Rightarrow> ('w, 'e, unit) prog" where
  "RedisClient_close R = redis_quit R"

lemma run_try_finally:
  "run (try_finally m f) w =
    (case run m w of (r, w') \<Rightarrow>
      (case run f w' of (Inl e, w'') \<Rightarrow> (Inl e, w'') | (Inr u, w'') \<Rightarrow> (r, w'')))"
  by (induction m arbitrary: w) (auto simp: run_seq split: prod.split sum.split)

section \<open>The calls of a transaction\<close>

datatype 'c conn_call = Acquire | Begin 'c | Body 'c | Commit 'c | Rollback 'c | Release 'c

text \<open>A program over a state with a list of calls beside it, and one that notes its own call.\<close>

primrec on_fst :: "('w, 'e, 'a) prog \<Rightarrow> ('w \<times> 't, 'e, 'a) prog" where
  "on_fst (Done x) = Done x"
| "on_fst (Fail e) = Fail e"
| "on_fst (Act g k) = Act (\<lambda>(w, t). (g w, t)) (\<lambda>(w, t). on_fst (k w))"

definition noting :: "'t \<Rightarrow> ('w, 'e, 'a) prog \<Rightarrow> ('w \<times> 't list, 'e, 'a) prog" where
  "noting c p = Act (\<lambda>(w, l). (w, l @ [c])) (\<lambda>_. on_fst p)"

definition traced :: "('w, 'e, 'c) mysql_pool \<Rightarrow> ('w \<times> 'c conn_call list, 'e, 'c) mysql_pool" where
  "traced P =
     \<lparr>pool_getConnection = noting Acquire (pool_getConnection P), pool_end = on_fst (pool_end P),
      conn_beginTransaction = (\<lambda>c. noting (Begin c) (conn_beginTransaction P c)),
      conn_commit = (\<lambda>c. noting (Commit c) (conn_commit P c)),
      conn_rollback = (\<lambda>c. noting (Rollback c) (conn_rollback P c)),
      conn_release = (\<lambda>c. noting (Release c) (conn_release P c))\<rparr>"

lemma run_on_fst: "run (on_fst p) (w, t) = (case run p w of (r, w') \<Rightarrow> (r, (w', t)))"
  by (induction p arbitrary: w) auto

lemma run_noting: "run (noting c p) (w, l) = (case run p w of (r, w') \<Rightarrow> (r, (w', l @ [c])))"
  by (simp add: noting_def run_on_fst)

text \<open>Documented of mysql2: giving a connection back to the pool does not throw.\<close>

definition release_returns :: "('w, 'e, 'c) mysql_pool \<Rightarrow> bool" where
  "release_returns P \<longleftrightarrow> (\<forall>c. ends (\<lambda>_. True) (\<lambda>_. False) (conn_release P c))"

lemma run_release:
  "release_returns P \<Longrightarrow> \<exists>w'. run (conn_release P c) w = (Inr (), w')"
proof -
  assume "release_returns P"
  then have "ends (\<lambda>_. True) (\<lambda>_. False) (conn_release P c)" by (simp add: release_returns_def)
  moreover obtain r w' where r: "run (conn_release P c) w = (r, w')" by fastforce
  ultimately have "case r of Inl e \<Rightarrow> False | Inr x \<Rightarrow> True" by (rule ends_run)
  with r show ?thesis by (cases r) auto
qed

text \<open>The \<open>try\<close> and \<open>catch\<close> of the wrapper, before the connection is released.\<close>

definition attempt_commit ::
    "('w, 'e, 'c) mysql_pool \<Rightarrow> ('c \<Rightarrow> ('w, 'e, 'a) prog) \<Rightarrow> 'c \<Rightarrow> ('w, 'e, 'a) prog" where
  "attempt_commit P fn c =
     catch
       (seq (conn_beginTransaction P c) (\<lambda>_. seq (fn c) (\<lambda>result. seq (conn_commit P c) (\<lambda>_. Done result))))
       (\<lambda>error. seq (conn_rollback P c) (\<lambda>_. Fail error))"

lemma transaction_attempt: "DatabaseConnectionPool_transaction P fn =
    seq (pool_getConnection P) (\<lambda>c. try_finally (attempt_commit P fn c) (conn_release P c))"
  by (simp add: DatabaseConnectionPool_transaction_def attempt_commit_def)

definition attempt_calls :: "('e + 'a) \<Rightarrow> 'c \<Rightarrow> 'c conn_call list set" where
  "attempt_calls r c = (case r of
     Inr x \<Rightarrow> {[Begin c, Body c, Commit c]}
   | Inl e \<Rightarrow> {[Begin c, Rollback c], [Begin c, Body c, Rollback c], [Begin c, Body c, Commit c, Rollback c]})"

lemma attempt_traced:
  assumes "run (attempt_commit (traced P) (\<lambda>c. noting (Body c) (fn c)) c) (w, l) = (r, (w', l'))"
  shows "\<exists>calls \<in> attempt_calls r c. l' = l @ calls"
proof -
  obtain b w1 where b: "run (conn_beginTransaction P c) w = (b, w1)" by fastforce
  obtain f w2 where f: "run (fn c) w1 = (f, w2)" by fastforce
  obtain k w3 where k: "run (conn_commit P c) w2 = (k, w3)" by fastforce
  note simps = attempt_commit_def traced_def run_catch run_seq run_noting run_basic attempt_calls_def
  show ?thesis
  proof (cases b)
    case (Inl e)
    with assms b show ?thesis by (auto simp: simps split: prod.splits sum.splits)
  next
    case b1: (Inr u)
    show ?thesis
    proof (cases f)
      case (Inl e)
      with assms b b1 f show ?thesis by (auto simp: simps split: prod.splits sum.splits)
    next
      case (Inr x)
      with assms b b1 f k show ?thesis by (cases k) (auto simp: simps split: prod.splits sum.splits)
    qed
  qed
qed

definition calls_ok :: "('e + 'a) \<Rightarrow> 'c conn_call list \<Rightarrow> bool" where
  "calls_ok r l \<longleftrightarrow> (case r of
     Inr x \<Rightarrow> \<exists>c. l = [Acquire, Begin c, Body c, Commit c, Release c]
   | Inl e \<Rightarrow> l = [Acquire] \<or> (\<exists>c. l = [Acquire, Begin c, Rollback c, Release c]
       \<or> l = [Acquire, Begin c, Body c, Rollback c, Release c]
       \<or> l = [Acquire, Begin c, Body c, Commit c, Rollback c, Release c]))"

text \<open>
  C32: A transaction keeps its protocol whatever the driver and the body do, and wherever they
  fail: it returns only after BEGIN, the body and COMMIT have all succeeded, in this order; if
  anything throws once it has a connection it rolls back, and never commits afterwards; and in
  every case the connection it acquired is released exactly once, as the last call.
\<close>

theorem transaction_protocol:
  assumes "release_returns P"
    and "run (DatabaseConnectionPool_transaction (traced P) (\<lambda>c. noting (Body c) (fn c))) (w, []) = (r, (w', l))"
  shows "calls_ok r l"
proof -
  obtain g w1 where get: "run (pool_getConnection P) w = (g, w1)" by fastforce
  have acquire: "run (pool_getConnection (traced P)) (w, []) = (g, (w1, [Acquire]))"
    using get by (simp add: traced_def run_noting)
  show ?thesis
  proof (cases g)
    case (Inl e)
    with assms(2) acquire show ?thesis
      by (auto simp: transaction_attempt run_seq calls_ok_def)
  next
    case (Inr c)
    obtain r2 w2 l2 where att:
      "run (attempt_commit (traced P) (\<lambda>c. noting (Body c) (fn c)) c) (w1, [Acquire]) = (r2, (w2, l2))"
      by (cases "run (attempt_commit (traced P) (\<lambda>c. noting (Body c) (fn c)) c) (w1, [Acquire])") auto
    obtain w3 where "run (conn_release P c) w2 = (Inr (), w3)" using run_release [OF assms(1)] by blast
    then have "run (conn_release (traced P) c) (w2, l2) = (Inr (), (w3, l2 @ [Release c]))"
      by (simp add: traced_def run_noting)
    with assms(2) acquire Inr att have "r = r2" "l = l2 @ [Release c]"
      by (auto simp: transaction_attempt run_seq run_try_finally)
    with attempt_traced [OF att] show ?thesis
      by (auto simp: calls_ok_def attempt_calls_def split: sum.splits)
  qed
qed

text \<open>A driver with one connection, whose COMMIT is refused.\<close>

definition stuck_pool :: "(nat, string, nat) mysql_pool" where
  "stuck_pool = \<lparr>pool_getConnection = act (\<lambda>n. (Inr n, Suc n)), pool_end = Done (),
     conn_beginTransaction = (\<lambda>_. Done ()), conn_commit = (\<lambda>_. Fail ''deadlock''),
     conn_rollback = (\<lambda>_. Done ()), conn_release = (\<lambda>_. Done ())\<rparr>"

lemma transaction_protocol_witness:
  "run (DatabaseConnectionPool_transaction (traced stuck_pool) (\<lambda>c. noting (Body c) (Done ()))) (7, []) =
     (Inl ''deadlock'', (8, [Acquire, Begin 7, Body 7, Commit 7, Rollback 7, Release 7])) \<and>
   calls_ok (Inl ''deadlock'' :: string + unit) [Acquire, Begin 7, Body 7, Commit 7, Rollback 7, Release (7 :: nat)]"
proof -
  have rel: "release_returns stuck_pool" by (simp add: release_returns_def stuck_pool_def)
  have run: "run (DatabaseConnectionPool_transaction (traced stuck_pool) (\<lambda>c. noting (Body c) (Done ()))) (7, []) =
     (Inl ''deadlock'', (8, [Acquire, Begin 7, Body 7, Commit 7, Rollback 7, Release 7]))"
    by (simp add: DatabaseConnectionPool_transaction_def traced_def stuck_pool_def run_seq run_noting run_act
        run_try_finally run_catch run_basic)
  show ?thesis using run transaction_protocol [where fn = "\<lambda>_. Done ()", OF rel run] by simp
qed

text \<open>An error of the rollback takes the place of the one that led to it.\<close>

lemma rollback_error_masks:
  assumes "run (seq (conn_beginTransaction P c) (\<lambda>_. seq (fn c) (\<lambda>result. seq (conn_commit P c) (\<lambda>_. Done result)))) w
      = (Inl e, w1)" "run (conn_rollback P c) w1 = (Inl e', w2)"
  shows "run (attempt_commit P fn c) w = (Inl e', w2)"
  using assms by (simp add: attempt_commit_def run_catch run_seq)

end
