(* ===== verification/App.thy ===== *)
theory App
  imports Config HttpLaws
begin

text \<open>
  The rest of \<open>app.ts\<close>, and \<open>index.ts\<close>: the headers every response carries for the dashboard,
  the port the server listens on, and the start of the process, which ends it with status 1 if the
  server cannot be started. Compression, the access log and the body parsers are Express's own.
\<close>

definition cors_headers :: "(string \<times> string) list" where
  "cors_headers =
     [(''Access-Control-Allow-Origin'', ''*''),
      (''Access-Control-Allow-Headers'', ''Content-Type, Authorization''),
      (''Access-Control-Allow-Methods'', ''GET, POST, PUT, DELETE, PATCH'')]"

datatype process = Listening "int option" | Exited nat

definition main :: "env \<Rightarrow> app_config \<Rightarrow> process io" where
  "main E c = catch (seq (startServer E) (\<lambda>_. Done (Listening (cfg_port c)))) (\<lambda>error. Done (Exited 1))"

text \<open>
  The process either listens or exits with status 1, and it listens if no call fails. The only
  remote call of the start is the one that adds the repeated scan.
\<close>

lemma main_ends: "ends (\<lambda>p. p \<in> {Listening (cfg_port c), Exited 1}) (\<lambda>_. False) (main E c)"
  unfolding main_def by (rule ends_catch [where P' = "\<lambda>_. True"], rule ends_seq [OF ends_any]) simp_all

lemma createWorker_returns: "\<exists>k w'. run (createWorker n p c) w = (Inr k, w') \<and> w_tick w' = w_tick w"
  by (simp add: createWorker_def run_act Let_def)

lemma main_listens:
  assumes "reliable E"
  shows "\<exists>w'. run (main E c) w = (Inr (Listening (cfg_port c)), w')"
proof -
  have "\<exists>w'. run (Autopay_start E) v = (Inr (), w')" for v
  proof -
    obtain k w1 where k: "run (createWorker SUBSCRIPTION_RENEWAL ProcessRenewal (Some 5)) v = (Inr k, w1)"
      using createWorker_returns by blast
    obtain q w2 where q: "run (getOrCreateQueue SUBSCRIPTION_RENEWAL) w1 = (Inr q, w2)"
      using getOrCreateQueue_returns by blast
    obtain w3 where add: "run (queue_add E q ''scan-expired'' ScanJob scan_options) w2 = (Inr (), w3)"
      by (simp add: run_queue_add [OF assms])
    obtain k' w4 where "run (createWorker DEAD_LETTER ProcessDeadLetter (Some 1)) w3 = (Inr k', w4)"
      using createWorker_returns by blast
    then show ?thesis by (simp add: Autopay_start_def run_seq k q add run_basic)
  qed
  then have "\<exists>w'. run (startServer E) w = (Inr (), w')" by (simp add: startServer_def run_seq run_act)
  then show ?thesis by (auto simp: main_def run_catch run_seq run_basic)
qed

text \<open>If the job cannot be added, Redis being out of reach, the process exits.\<close>

lemma main_exits:
  assumes "fault E (w_tick w) = NotApplied m"
  shows "\<exists>w'. run (main E c) w = (Inr (Exited 1), w')"
proof -
  let ?w = "Projector_register w"
  obtain k w1 where k: "run (createWorker SUBSCRIPTION_RENEWAL ProcessRenewal (Some 5)) ?w = (Inr k, w1)"
    and t1: "w_tick w1 = w_tick w"
    using createWorker_returns [of SUBSCRIPTION_RENEWAL ProcessRenewal "Some 5" ?w]
    by (auto simp: Projector_register_def EventBus_subscribe_def)
  obtain q w2 where q: "run (getOrCreateQueue SUBSCRIPTION_RENEWAL) w1 = (Inr q, w2)"
    using getOrCreateQueue_returns by blast
  have "w_tick w2 = w_tick w" using getOrCreateQueue_frame [OF q] t1 by simp
  with assms show ?thesis
    by (simp add: main_def startServer_def Autopay_start_def run_catch run_seq run_act k q queue_add_def run_remote
        run_basic)
qed

end
