(* ===== verification/Layout.thy ===== *)
theory Layout
  imports JsString
begin

text \<open>
  The frame of the dashboard: \<open>dashboard/app/layout.tsx\<close> puts the sidebar of
  \<open>dashboard/components/Sidebar.tsx\<close> beside every page. An icon is the list of its code
  points; fonts and the classes of the frame itself are left out.
\<close>

record nav_item =
  ni_href :: string
  ni_label :: string
  ni_icon :: "nat list"

definition navItems :: "nav_item list" where
  "navItems =
     [\<lparr>ni_href = ''/'', ni_label = ''Dashboard'', ni_icon = [0x1F4CA]\<rparr>,
      \<lparr>ni_href = ''/payments'', ni_label = ''Payments'', ni_icon = [0x1F4B3]\<rparr>,
      \<lparr>ni_href = ''/subscriptions'', ni_label = ''Subscriptions'', ni_icon = [0x1F504]\<rparr>,
      \<lparr>ni_href = ''/events'', ni_label = ''Event Timeline'', ni_icon = [0x1F4DC]\<rparr>]"

record sidebar_link =
  sl_key :: string
  sl_href :: string
  sl_class :: string
  sl_icon :: "nat list"
  sl_label :: string

definition active_class :: string where
  "active_class = ''bg-gray-700 text-white''"

definition link_class :: "string \<Rightarrow> nav_item \<Rightarrow> string" where
  "link_class pathname item =
     ''flex items-center gap-3 px-3 py-2.5 rounded-lg text-sm transition-colors '' @
     (if pathname = ni_href item then active_class
      else ''text-gray-400 hover:bg-gray-800 hover:text-white'')"

definition Sidebar :: "string \<Rightarrow> sidebar_link list" where
  "Sidebar pathname = map (\<lambda>item.
     \<lparr>sl_key = ni_href item, sl_href = ni_href item, sl_class = link_class pathname item,
      sl_icon = ni_icon item, sl_label = ni_label item\<rparr>) navItems"

record 'page root_layout =
  rl_title :: string
  rl_description :: string
  rl_lang :: string
  rl_sidebar :: "sidebar_link list"
  rl_main :: 'page

definition RootLayout :: "string \<Rightarrow> 'page \<Rightarrow> 'page root_layout" where
  "RootLayout pathname children =
     \<lparr>rl_title = ''GamePay Admin Dashboard'', rl_description = ''Payment event engine admin dashboard'',
      rl_lang = ''ko'', rl_sidebar = Sidebar pathname, rl_main = children\<rparr>"

text \<open>The paths Next.js serves: one for each \<open>page.tsx\<close> under \<open>dashboard/app\<close>.\<close>

definition page_paths :: "string list" where
  "page_paths = [''/'', ''/payments'', ''/subscriptions'', ''/events'']"

definition highlighted :: "sidebar_link \<Rightarrow> bool" where
  "highlighted l \<longleftrightarrow> suffix active_class (sl_class l)"

lemma highlighted_link:
  "highlighted \<lparr>sl_key = k, sl_href = h, sl_class = link_class p item, sl_icon = i, sl_label = n\<rparr>
    \<longleftrightarrow> p = ni_href item"
  by (simp add: highlighted_def link_class_def suffix_def active_class_def)

text \<open>
  The sidebar links to exactly the pages there are, with different keys, and on each page it
  highlights that page's link and no other.
\<close>

lemma sidebar_links: "map sl_href (Sidebar p) = page_paths" "distinct (map sl_key (Sidebar p))"
  by (simp_all add: Sidebar_def navItems_def page_paths_def)

lemma sidebar_highlights: "map sl_href (filter highlighted (Sidebar p)) = (if p \<in> set page_paths then [p] else [])"
  by (auto simp: Sidebar_def navItems_def page_paths_def highlighted_link)

end
