(* ===== verification/Spec2Isabelle.thy ===== *)
theory Spec2Isabelle
  imports Liveness Races Bodies Renewals Retries LogLead PageLaws Connections App Layout
begin

text \<open>
  GamePay Event Engine: payments and subscriptions as an event-sourced Express service over
  MySQL, Redis and BullMQ (\<open>src/src\<close>). This is the model of the service and what is proved of it.

  How the program is put together. A request goes through \<open>routes/index.ts\<close> to a controller and
  from there to a handler (\<open>PaymentHandler\<close>, \<open>SubscriptionHandler\<close>). A handler checks a guard with
  a query of a repository (or of Redis), writes rows through a repository, and publishes an event
  on the \<open>EventBus\<close>, which appends it to the event store as the next version of its aggregate and
  then calls the handlers subscribed to its type; these are the methods of the
  \<open>PaymentSummaryProjector\<close>, which keep one row per day of the read model. Jobs go to BullMQ through
  the \<open>QueueManager\<close>; the \<open>AutopayWorker\<close> takes renewal jobs and renews subscriptions by creating and
  completing a payment. All state is shared, and every \<open>await\<close> lets other requests run.

  How the model corresponds to it.
  Prelude: an \<open>async\<close> function as a \<open>prog\<close>, a tree of atomic actions on the world; \<open>run\<close> executes
  one alone, \<open>pool_step\<close> and \<open>run_schedule\<close> interleave any number of them at their actions. The
  locale \<open>rely\<close> is the rule by which an invariant of the actions holds of every interleaving.
  JsDate, JsString, IsoDate: the parts of the language's library the code calls.
  Types: \<open>common/types\<close>, \<open>models/entities\<close>, \<open>common/errors\<close>. Database: the four tables of
  \<open>db/init.sql\<close> with their constraints, and the interface of a keyed table (\<open>keyed_store\<close>).
  World: the state of the process and of the services it uses, and the environment, that is
  everything the code does not determine: clocks, generated ids, which remote calls fail and whether
  a failed call took effect, the answers of Redis, the order in which rows are read.
  Repositories: the SQL statements as functions of the database and the methods that send them.
  Stores: the repositories as instances of \<open>keyed_store\<close> and of \<open>versioned_log\<close>, the contract on
  which the event bus relies. Services: \<open>config/redis.ts\<close> and \<open>queues/QueueManager.ts\<close>.
  EventBus, Projector, PaymentHandler, SubscriptionHandler, AutopayWorker, Http: the classes of these
  names, each method one definition with its calls in the order of the code; Http also has the
  controllers, the routes, the error handler and \<open>startServer\<close>. Requests: the bodies of the \<open>POST\<close>
  requests, any member of which may be missing, and how far an operation gets without it.
  Client: \<open>dashboard/lib/api.ts\<close>, the calls of the dashboard, as programs that end in the service's
  own controllers. Page, PaymentsPage, SubscriptionsPage, EventsPage: the pages of the dashboard, each
  with its React state as a record, one program per handler on the pair of this state and the world,
  and what is shown as a function of the state; a page's handlers interleave like the requests do.
  Layout: the frame with the sidebar. Config: \<open>config/env.ts\<close>, the options of the two clients, and the
  wiring of \<open>config/container.ts\<close> with the constructors. Connections: the transaction wrapper of
  \<open>config/database.ts\<close> and closing, over any driver. App: the rest of \<open>app.ts\<close>, and \<open>index.ts\<close>.

  What is proved.
  Invariants, Safety, Operations and this theory: the invariant of the whole system, that history
  only grows, and that successful answers are true, for every interleaving and every failure of
  remote calls. HttpLaws: every request is answered, with which statuses, and which requests the routes
  of \<open>routes/index.ts\<close> lead where. Liveness: the number of turns after which each activity is over.
  Runs, PaymentLaws, SubscriptionLaws, AutopayLaws: what each operation does when it runs alone and
  no call fails, the exact new state on success and the error with nothing changed on each refusal.
  ReadModel: the read model as the sum of the events. EventSourcing: the payments table as the replay
  of the event log, and what a failure between the two writes does to it. Races: schedules of two
  concurrent requests that defeat each of the three guards, and of a cancellation that a renewal undoes.
  Ledger: the payment handler as a refinement of a ledger of orders, for every failure of its calls.
  Registry: the subscription handler and the renewal worker as a refinement of a registry of
  subscriptions, and that a user has at most one active subscription if the activities take turns.
  Faults: an operation whose calls meet no fault runs as in a reliable environment; a renewal that
  fails after its charge, and the second charge of the next one. Renewals: a scan and the jobs it
  enqueues, worked off one after another, renew the whole batch. Retries: what BullMQ's further attempts make of a
  renewal that failed after its charge. Connections: the order of the calls
  of a transaction wherever it fails. Config, App, Layout: the numbers read from the environment, that
  the wiring is complete and without cycles, when the process exits, and the links of the sidebar.
  Bodies: a body without a member that is needed leaves no trace, and a completion without its amount.
  Tickets, LogLead: the books that every activity keeps of the log and the read model, action by
  action; so the read model never counts more than the log holds, for every interleaving and failure,
  and where no call fails it has caught up with the log when the activities have come to rest.
  Client, PageLaws: the calls of the dashboard reach the endpoints they mean; what the pages show,
  from a form through the service and back, the type of a page's state at all times, and where a page
  shows what it should not. Samples: a concrete environment and
  worlds at which the properties with hypotheses are instantiated (the lemmas named
  \<open>..._witness\<close>).

  Bounds. The only fuel is that of \<open>closeAll\<close>, whose loops run over live Maps: three turns for the at
  most three names of queues, which is enough (\<open>closing_enough\<close>). The other loops run over lists that are
  fixed when they start. Column widths are written out as ranges
  (\<open>decimal_ok\<close>, \<open>int_ok\<close>, string lengths), so a statement that would overflow a column fails.
  Amounts are whole hundredths, the scale of the DECIMAL columns; that the driver hands them to the
  program as text, which the dashboard converts with \<open>Number\<close>, is not represented.

  Not modelled. Styling, labels and locale formats of the dashboard; log lines; the container itself
  (tsyringe: each class is a singleton, so its fields are fields of the world); the use of the
  configuration by the drivers, and the driver behind a transaction, which is a parameter (nothing in
  the program opens one); compression, the access log and the body parsers of Express; request bodies
  with a member that is null or has another JSON type than its interface; BullMQ's own part, that is storing jobs,
  running processors and retrying them, and MySQL's and Redis's, which are parameters of the model with
  the documented behaviour as named assumptions (\<open>reliable\<close>, \<open>redis_ok\<close>, \<open>reads_all\<close>,
  \<open>release_returns\<close>). Handlers of one event type run one after another in the model; the program
  subscribes one handler for each type.
  Text columns are compared character by character, not by MySQL's collation (see Database), and local
  time has a fixed offset from UTC, without daylight saving (see JsDate).
\<close>

lemma schedule_state:
  "pool_step\<^sup>*\<^sup>* (pool E as) (fst (run_schedule s (pool E as)), snd (run_schedule s (pool E as)))"
  using run_schedule_pool by simp

text \<open>
  C1: Whatever requests, jobs, start-ups and shut-downs are under way, however they interleave
  at their remote calls and whichever of those calls fail, in every state the process can reach
  the keys of all four tables are unique, the versions of each aggregate in the event log are 1,
  2, 3, ... without a gap, every payment and subscription row is one its status allows, every event
  belongs to a payment or subscription that exists, every job is on the queue of its kind, with a
  payment of its terms and the event of its creation if it is a payment job, and the queue manager
  has one queue and one worker per name.
\<close>

theorem system_invariant: "world_inv (fst (run_schedule s (pool E as)))"
  by (rule pool_safe(1) [OF schedule_state])

text \<open>
  C2: From any state of such a run to any later one the event log, the jobs and the Redis
  commands are only appended to, no payment, subscription or summary row disappears, and what a
  payment was ordered for (order number, user, product, amount, currency) and whom a
  subscription belongs to never change.
\<close>

theorem history_only_grows:
  "world_grows (fst (run_schedule s (pool E as))) (fst (run_schedule (s @ s') (pool E as)))"
proof -
  have "pool_step\<^sup>*\<^sup>* (run_schedule s (pool E as)) (run_schedule (s @ s') (pool E as))"
    unfolding run_schedule_append by (rule run_schedule_pool)
  then show ?thesis
    using pool_grows [OF schedule_state, of s E as "fst (run_schedule (s @ s') (pool E as))"
        "snd (run_schedule (s @ s') (pool E as))"] by simp
qed

text \<open>
  C3: An answer is a promise that has been kept: once a request has been answered with success,
  under any interleaving and any failures of other calls, the database holds the row, the log
  the event, and BullMQ the job, with the values of the request: for a created payment the row
  with its terms, the PAYMENT_CREATED event and the processing job, for a completion, refund,
  cancellation and failure the event with its payload (a completion without an amount only if the
  request had none), for a subscription the row and the event.
\<close>

theorem answers_keep_promises:
  assumes "i < length as" "snd (run_schedule s (pool E as)) ! i = Done x"
  shows "promise (as ! i) x (fst (run_schedule s (pool E as)))"
  using pool_promise [OF schedule_state assms] .

lemma answers_keep_promises_witness:
  "\<exists>s on. snd (run_schedule s (pool calm [Request EP_createPayment (\<lambda>_. None) (CreatePaymentBody sample_request)])) !
      0 = Done (Answered \<lparr>rs_status = 201, rs_body = Success (OrderNumberData on)\<rparr>) \<and>
    payment_recorded sample_request on
      (fst (run_schedule s (pool calm [Request EP_createPayment (\<lambda>_. None) (CreatePaymentBody sample_request)])))"
proof -
  let ?as = "[Request EP_createPayment (\<lambda>_. None) (CreatePaymentBody sample_request)]"
  let ?on = "order_in calm init_world"
  have init: "live_order calm sample_request init_world = None" "can_insert ?on sample_request (w_db init_world)"
    "can_publish calm (w_tick init_world + 5) ?on (w_db init_world)"
    by (simp_all add: live_order_def init_world_def ttl_reply_def can_insert_def can_publish_def order_in_def
        order_number_def sample_request_def currency_of_def decimal_ok_def payment_select_def)
  from createPayment_run [OF calm_reliable init]
  obtain w' where "run (createPayment calm sample_request) init_world = (Inr ?on, w')" by blast
  then have "run (activity_prog calm (hd ?as)) init_world =
      (Inr (Answered \<lparr>rs_status = 201, rs_body = Success (OrderNumberData ?on)\<rparr>), w')"
    by (simp add: complete_controllers run_or_next run_seq run_reply run_basic)
  from run_schedule_to_end [OF _ _ this, of 0 "[activity_prog calm (hd ?as)]"] obtain n where
    n: "run_schedule (replicate n 0) (pool calm ?as) =
      (w', [Done (Answered \<lparr>rs_status = 201, rs_body = Success (OrderNumberData ?on)\<rparr>)])"
    by (auto simp: pool_def simp del: activity_prog.simps)
  from answers_keep_promises [of 0 ?as "replicate n 0" calm] n
  have "payment_recorded sample_request ?on (fst (run_schedule (replicate n 0) (pool calm ?as)))"
    by (simp add: endpoint_promise_def CreatePaymentBody_def)
  with n show ?thesis by (intro exI [of _ "replicate n 0"] exI [of _ ?on]) simp
qed

lemma activity_answers:
  "ends (\<lambda>x. case x of Answered rs \<Rightarrow> response_ok rs | Finished \<Rightarrow> True) (\<lambda>_. True) (activity_prog E a)"
proof (cases a)
  case (Request ep q b)
  have "ends (\<lambda>x. case x of Answered rs \<Rightarrow> response_ok rs | Finished \<Rightarrow> True) (\<lambda>_. True)
      (seq (serve E ep q b) (\<lambda>r. Done (Answered r)))"
    by (rule ends_seq [OF ends_weaken [OF serve_ends]]) auto
  with Request show ?thesis by simp
qed (auto simp: finishing_def intro!: ends_seq [OF ends_any])

text \<open>
  C4: Every answer given in such a run is well formed: a success has status 200 or 201, and an
  error is 404 NOT_FOUND, 409 CONFLICT, 409 DUPLICATE_PAYMENT or 500 INTERNAL_ERROR.
\<close>

theorem every_answer_well_formed:
  "list_all (\<lambda>p. case p of Done (Answered rs) \<Rightarrow> response_ok rs | _ \<Rightarrow> True) (snd (run_schedule s (pool E as)))"
proof -
  let ?Q = "\<lambda>x. case x of Answered rs \<Rightarrow> response_ok rs | Finished \<Rightarrow> True"
  have "\<forall>i < length (snd (pool E as)). ends ?Q (\<lambda>_. True) (snd (pool E as) ! i)"
    by (simp add: pool_def activity_answers)
  from ends_steps [OF run_schedule_pool this, of s]
  show ?thesis by (auto simp: list_all_length split: prog.split outcome.split)
qed

text \<open>
  No worker is ever created for the payment-processing queue, so the jobs that creating a
  payment adds are never taken, whatever runs and however it interleaves.
\<close>

lemma payment_jobs_never_taken:
  "map_of (w_workers (fst (run_schedule s (pool E as)))) PAYMENT_PROCESSING = None"
proof -
  have "PAYMENT_PROCESSING \<notin> fst ` set (w_workers (fst (run_schedule s (pool E as))))"
    using pool_safe(1) [OF schedule_state, of s E as] by (simp add: world_inv_def registry_ok_def)
  then show ?thesis by (simp add: map_of_eq_None_iff)
qed

end
